theory Spec2Isabelle
  imports Complex_Main "HOL-Library.AList"
begin

section \<open>Python values used by molll.py\<close>

text \<open>
  The exceptions the modelled code can raise.  \<open>ValueError\<close> covers
  \<open>math.log\<close> of a non-positive number (math domain error),
  \<open>math.ceil\<close> of NaN, \<open>max\<close> of an empty sequence and \<open>int\<close> of a
  string that is no integer literal.  On a model that was never fit,
  \<open>_key_data\<close> is \<open>None\<close>: subscripting it or passing it to \<open>dict\<close>
  raises TypeError, calling \<open>.items()\<close> or \<open>.values()\<close> on it raises
  AttributeError.
\<close>

datatype error = ZeroDivisionError | ValueError | AssertionError | TypeError | AttributeError

text \<open>
  Python's unbounded integers are \<open>int\<close>.  A \<open>dict\<close> is an association
  list in insertion order; \<open>d[k] = v\<close> is \<open>AList.update k v d\<close>, which
  replaces in place or appends, as a Python dict does.

  The float arithmetic of the scoring methods (\<open>+\<close>, \<open>*\<close>, \<open>/\<close>, \<open>**\<close>,
  \<open>math.log\<close>) is computed in \<open>real\<close>; the places where the code divides by
  zero or takes the logarithm of a non-positive number are branches that
  raise.  Rounding, underflow and overflow are not represented there, so a
  theorem that depends on the magnitude of a float states the bounds within
  which the float64 computation behaves as the real one.  The float
  pipeline of the smoothing pass, whose result is rounded up to an integer,
  is not computed in \<open>real\<close>: see \<open>numpy_float64\<close> below.
\<close>

definition math_log :: "real \<Rightarrow> error + real" where
  "math_log x = (if x \<le> 0 then Inl ValueError else Inr (ln x))"

definition py_truediv :: "real \<Rightarrow> real \<Rightarrow> error + real" where
  "py_truediv x y = (if y = 0 then Inl ZeroDivisionError else Inr (x / y))"

text \<open>
  \<open>atom_count ** alpha\<close> for a non-negative integer base: \<open>0 ** 0\<close> is 1,
  \<open>0\<close> to a positive power is 0, and \<open>0\<close> to a negative power raises
  ZeroDivisionError.
\<close>

definition py_pow :: "nat \<Rightarrow> real \<Rightarrow> error + real" where
  "py_pow b e =
     (if b = 0 then
        (if e = 0 then Inr 1 else if 0 < e then Inr 0 else Inl ZeroDivisionError)
      else Inr (real b powr e))"

subsection \<open>collections.Counter\<close>

type_synonym counter = "(int \<times> int) list"

text \<open>\<open>counter[k]\<close>: a missing key reads as 0 and is not inserted.\<close>

definition counter_get :: "('k \<times> int) list \<Rightarrow> 'k \<Rightarrow> int" where
  "counter_get c k = (case map_of c k of None \<Rightarrow> 0 | Some v \<Rightarrow> v)"

text \<open>
  \<open>Counter.update(mapping)\<close>: \<open>self[elem] = count + self.get(elem, 0)\<close>
  for every item of the mapping.
\<close>

fun Counter_update_mapping :: "('k \<times> int) list \<Rightarrow> ('k \<times> int) list \<Rightarrow> ('k \<times> int) list" where
  "Counter_update_mapping c [] = c"
| "Counter_update_mapping c ((elem, count) # items) =
     Counter_update_mapping (AList.update elem (count + counter_get c elem) c) items"

text \<open>\<open>Counter.update(iterable)\<close>: every element counts once.\<close>

fun Counter_update_elems :: "('k \<times> int) list \<Rightarrow> 'k list \<Rightarrow> ('k \<times> int) list" where
  "Counter_update_elems c [] = c"
| "Counter_update_elems c (elem # elems) =
     Counter_update_elems (AList.update elem (counter_get c elem + 1) c) elems"

section \<open>BaseLL\<close>

text \<open>
  The fields of a model object.  \<open>key_data\<close> is \<open>None\<close> until \<open>fit\<close> or
  \<open>set_savedict\<close> has run; its type is the subclass's statistics.
  (\<open>radius\<close>, \<open>key_data\<close> and \<open>n_observations\<close> are the source's
  \<open>_radius\<close>, \<open>_key_data\<close> and \<open>_n_observations\<close>.)
\<close>

record 'kd BaseLL =
  smoothing :: real
  estimated_keyspace :: real
  alpha :: real
  radius :: int
  key_data :: "'kd option"
  n_observations :: int

text \<open>
  A fingerprint, the result of \<open>GetNonzeroElements()\<close>: fragment key and
  occurrence count, which is unsigned.  The RDKit call itself is a
  parameter \<open>ext\<close> of every function that extracts, taking the radius and
  the molecule.
\<close>

type_synonym fingerprint = "(int \<times> nat) list"

definition get_fp :: "(int \<Rightarrow> 'mol \<Rightarrow> fingerprint) \<Rightarrow> 'kd BaseLL \<Rightarrow> 'mol \<Rightarrow> fingerprint" where
  "get_fp ext self mol = ext (radius self) mol"

text \<open>
  The likelihood of both \<open>calculate_ll\<close> methods:
  \<open>(stat_count + smoothing) / (n_observations + estimated_keyspace * smoothing)\<close>.
\<close>

definition likelihood :: "'kd BaseLL \<Rightarrow> int \<Rightarrow> error + real" where
  "likelihood self stat_count =
     py_truediv (real_of_int stat_count + smoothing self)
       (real_of_int (n_observations self) + estimated_keyspace self * smoothing self)"

text \<open>
  One pass of the scoring loop's body after the statistics lookup:
  \<open>ll += math.log(likelihood) * num_atoms; atom_count += num_atoms\<close>.
\<close>

definition ll_step :: "'kd BaseLL \<Rightarrow> int \<Rightarrow> nat \<Rightarrow> real \<times> nat \<Rightarrow> error + real \<times> nat" where
  "ll_step self stat_count num_atoms acc =
     (case likelihood self stat_count of
        Inl e \<Rightarrow> Inl e
      | Inr lik \<Rightarrow>
          (case math_log lik of
             Inl e \<Rightarrow> Inl e
           | Inr l \<Rightarrow> Inr (fst acc + l * real num_atoms, snd acc + num_atoms)))"

text \<open>\<open>ll_corrected = ll / (atom_count ** alpha)\<close>.\<close>

definition ll_corrected :: "'kd BaseLL \<Rightarrow> real \<times> nat \<Rightarrow> error + real" where
  "ll_corrected self acc =
     (case py_pow (snd acc) (alpha self) of
        Inl e \<Rightarrow> Inl e
      | Inr p \<Rightarrow> py_truediv (fst acc) p)"

section \<open>AtomLL\<close>

type_synonym atom_data = "(int \<times> int) list"

definition AtomLL_calculate_observations :: "atom_data BaseLL \<Rightarrow> error + atom_data BaseLL" where
  "AtomLL_calculate_observations self =
     (case key_data self of
        None \<Rightarrow> Inl AttributeError
      | Some kd \<Rightarrow> Inr (self\<lparr>n_observations := sum_list (map snd kd)\<rparr>))"

definition fp_items :: "fingerprint \<Rightarrow> (int \<times> int) list" where
  "fp_items fp = map (\<lambda>(key, count). (key, int count)) fp"

definition AtomLL_fit ::
  "(int \<Rightarrow> 'mol \<Rightarrow> fingerprint) \<Rightarrow> atom_data BaseLL \<Rightarrow> 'mol list \<Rightarrow> error + atom_data BaseLL" where
  "AtomLL_fit ext self mols =
     AtomLL_calculate_observations
       (self\<lparr>key_data :=
          Some (fold (\<lambda>mol kd. Counter_update_mapping kd (fp_items (get_fp ext self mol))) mols [])\<rparr>)"

fun AtomLL_ll_loop ::
  "atom_data BaseLL \<Rightarrow> atom_data \<Rightarrow> fingerprint \<Rightarrow> real \<times> nat \<Rightarrow> error + real \<times> nat" where
  "AtomLL_ll_loop self kd [] acc = Inr acc"
| "AtomLL_ll_loop self kd ((key, num_atoms) # items) acc =
     (case ll_step self (counter_get kd key) num_atoms acc of
        Inl e \<Rightarrow> Inl e
      | Inr acc' \<Rightarrow> AtomLL_ll_loop self kd items acc')"

text \<open>
  \<open>AtomLL.calculate_ll\<close>.  An unfit model (\<open>key_data\<close> is \<open>None\<close>) raises
  TypeError at the first lookup, so only when the fingerprint has an item.
\<close>

definition AtomLL_calculate_ll ::
  "(int \<Rightarrow> 'mol \<Rightarrow> fingerprint) \<Rightarrow> atom_data BaseLL \<Rightarrow> 'mol \<Rightarrow> error + real" where
  "AtomLL_calculate_ll ext self mol =
     (let fp = get_fp ext self mol in
      case (case key_data self of
              None \<Rightarrow> (if fp = [] then Inr (0, 0) else Inl TypeError)
            | Some kd \<Rightarrow> AtomLL_ll_loop self kd fp (0, 0)) of
        Inl e \<Rightarrow> Inl e
      | Inr acc \<Rightarrow> ll_corrected self acc)"

text \<open>A model as the constructor leaves it.\<close>

definition init_BaseLL :: "real \<Rightarrow> real \<Rightarrow> real \<Rightarrow> int \<Rightarrow> 'kd BaseLL" where
  "init_BaseLL s k a r =
     \<lparr>smoothing = s, estimated_keyspace = k, alpha = a, radius = r,
      key_data = None, n_observations = 0\<rparr>"

section \<open>MolLL\<close>

text \<open>
  The keys of \<open>MolLL._key_data\<close>: a fragment key of a fingerprint, or the
  string \<open>"SampleObservationSum"\<close> under which the totals per molecule are
  counted.  No other string is ever stored.
\<close>

datatype fpkey = FragKey int | SampleObservationSum

type_synonym mol_data = "(fpkey \<times> counter) list"

text \<open>
  \<open>self._key_data[key]\<close> on the \<open>defaultdict(lambda: Counter())\<close>: a missing
  key is inserted with an empty Counter, which is returned.
\<close>

definition defaultdict_getitem :: "mol_data \<Rightarrow> fpkey \<Rightarrow> counter \<times> mol_data" where
  "defaultdict_getitem kd key =
     (case map_of kd key of
        None \<Rightarrow> ([], AList.update key [] kd)
      | Some c \<Rightarrow> (c, kd))"

text \<open>\<open>self._key_data[key].update([count])\<close>: the Counter stored under the key is updated in place.\<close>

definition MolLL_observe :: "mol_data \<Rightarrow> fpkey \<Rightarrow> int \<Rightarrow> mol_data" where
  "MolLL_observe kd key count =
     (case defaultdict_getitem kd key of
        (c, kd') \<Rightarrow> AList.update key (Counter_update_elems c [count]) kd')"

text \<open>The body of the loop over the molecules in \<open>MolLL.fit\<close>.\<close>

definition MolLL_observe_mol :: "mol_data \<Rightarrow> fingerprint \<Rightarrow> mol_data" where
  "MolLL_observe_mol kd fp =
     MolLL_observe
       (fold (\<lambda>(key, count) kd'. MolLL_observe kd' (FragKey key) (int count)) fp kd)
       SampleObservationSum (int (sum_list (map snd fp)))"

text \<open>The inner loop of \<open>_calculate_observations\<close>: \<open>count * specific_obs\<close> summed over one Counter.\<close>

definition counter_observations :: "counter \<Rightarrow> int" where
  "counter_observations c = sum_list (map (\<lambda>(count, specific_obs). count * specific_obs) c)"

text \<open>The outer loop of \<open>_calculate_observations\<close>, over the Counters of all keys.\<close>

definition key_data_observations :: "mol_data \<Rightarrow> int" where
  "key_data_observations kd = sum_list (map (\<lambda>(key, c). counter_observations c) kd)"

definition MolLL_calculate_observations :: "mol_data BaseLL \<Rightarrow> error + mol_data BaseLL" where
  "MolLL_calculate_observations self =
     (case key_data self of
        None \<Rightarrow> Inl AttributeError
      | Some kd \<Rightarrow> Inr (self\<lparr>n_observations := key_data_observations kd\<rparr>))"

text \<open>
  The exact value of \<open>np.exp(np.mean(np.log(np.array([a, b, c]) + 0.15)))\<close>
  for non-negative integers \<open>a\<close>, \<open>b\<close>, \<open>c\<close>.
\<close>

definition exp_mean_log :: "int \<Rightarrow> int \<Rightarrow> int \<Rightarrow> real" where
  "exp_mean_log a b c =
     exp ((ln (real_of_int a + 15/100) + ln (real_of_int b + 15/100)
           + ln (real_of_int c + 15/100)) / 3)"

text \<open>
  What numpy computes for that expression in float64.  The conversion of
  the integers, the addition of 0.15, the three logarithms, the mean and
  the exponential each round, and \<open>np.log\<close> and \<open>np.exp\<close> are not the same
  on every platform, so the function is a parameter of the smoothing pass.
  Its type holds the functions whose relative error on non-negative
  arguments is at most \<open>2 ^ -40\<close>; the error of the float64 pipeline stays
  below \<open>2 ^ -44\<close> for arguments below \<open>2 ^ 63\<close>.
\<close>

typedef numpy_float64 =
  "{f :: int \<Rightarrow> int \<Rightarrow> int \<Rightarrow> real.
      \<forall>a b c. 0 \<le> a \<and> 0 \<le> b \<and> 0 \<le> c \<longrightarrow>
        \<bar>f a b c - exp_mean_log a b c\<bar> \<le> exp_mean_log a b c / 2 ^ 40}"
  by (rule exI [of _ exp_mean_log]) (simp add: exp_mean_log_def)

text \<open>
  \<open>math.ceil(np.exp(np.mean(np.log(np.array([a, b, c]) + 0.15))))\<close>.  For
  a negative entry \<open>np.log\<close> gets a negative argument and returns NaN, on
  which \<open>math.ceil\<close> raises ValueError; an integer plus 0.15 is never 0.
\<close>

definition smoothed_value :: "numpy_float64 \<Rightarrow> int \<Rightarrow> int \<Rightarrow> int \<Rightarrow> error + int" where
  "smoothed_value np a b c =
     (if a < 0 \<or> b < 0 \<or> c < 0 then Inl ValueError
      else Inr \<lceil>Rep_numpy_float64 np a b c\<rceil>)"

text \<open>\<open>max\<close> of a non-empty sequence.\<close>

fun py_max :: "int list \<Rightarrow> int" where
  "py_max [] = 0"
| "py_max (x # xs) = fold max xs x"

fun smooth_loop :: "numpy_float64 \<Rightarrow> counter \<Rightarrow> int list \<Rightarrow> counter \<Rightarrow> error + counter" where
  "smooth_loop np counter [] smoothed_counter = Inr smoothed_counter"
| "smooth_loop np counter (key # keys) smoothed_counter =
     (case smoothed_value np (counter_get counter (key - 1)) (counter_get counter key)
             (counter_get counter (key + 1)) of
        Inl e \<Rightarrow> Inl e
      | Inr geometric_mean \<Rightarrow>
          smooth_loop np counter keys (AList.update key geometric_mean smoothed_counter))"

text \<open>
  \<open>MolLL._smooth_counter\<close>: \<open>max(counter.keys())\<close> raises ValueError on an
  empty Counter; \<open>range(2, max + 1)\<close> is \<open>[2..max]\<close>.
\<close>

definition smooth_counter :: "numpy_float64 \<Rightarrow> counter \<Rightarrow> error + counter" where
  "smooth_counter np counter =
     (if counter = [] then Inl ValueError
      else smooth_loop np counter [2..py_max (map fst counter)]
             (AList.update 1 (counter_get counter 1) []))"

text \<open>
  \<open>MolLL._smooth_all_counters\<close>: the loop runs over the items of
  \<open>_key_data\<close> and stores the smoothed Counter under each key.
\<close>

fun smooth_items ::
  "numpy_float64 \<Rightarrow> (fpkey \<times> counter) list \<Rightarrow> mol_data \<Rightarrow> error + mol_data" where
  "smooth_items np [] kd = Inr kd"
| "smooth_items np ((key, counter) # items) kd =
     (case smooth_counter np counter of
        Inl e \<Rightarrow> Inl e
      | Inr smoothed \<Rightarrow> smooth_items np items (AList.update key smoothed kd))"

definition MolLL_smooth_all_counters ::
  "numpy_float64 \<Rightarrow> mol_data BaseLL \<Rightarrow> error + mol_data BaseLL" where
  "MolLL_smooth_all_counters np self =
     (case key_data self of
        None \<Rightarrow> Inl AttributeError
      | Some kd \<Rightarrow>
          (case smooth_items np kd kd of
             Inl e \<Rightarrow> Inl e
           | Inr kd' \<Rightarrow> Inr (self\<lparr>key_data := Some kd'\<rparr>)))"

text \<open>The statistics \<open>MolLL.fit\<close> has gathered when its loop over the molecules ends.\<close>

definition MolLL_raw_key_data ::
  "(int \<Rightarrow> 'mol \<Rightarrow> fingerprint) \<Rightarrow> mol_data BaseLL \<Rightarrow> 'mol list \<Rightarrow> mol_data" where
  "MolLL_raw_key_data ext self mols =
     fold (\<lambda>mol kd. MolLL_observe_mol kd (get_fp ext self mol)) mols []"

definition MolLL_fit ::
  "numpy_float64 \<Rightarrow> (int \<Rightarrow> 'mol \<Rightarrow> fingerprint) \<Rightarrow> mol_data BaseLL \<Rightarrow> 'mol list
     \<Rightarrow> error + mol_data BaseLL" where
  "MolLL_fit np ext self mols =
     (case MolLL_calculate_observations
             (self\<lparr>key_data := Some (MolLL_raw_key_data ext self mols)\<rparr>) of
        Inl e \<Rightarrow> Inl e
      | Inr self' \<Rightarrow> MolLL_smooth_all_counters np self')"

text \<open>
  The loop of \<open>MolLL.calculate_ll\<close>.  The lookup \<open>self._key_data[key]\<close>
  goes through the defaultdict, so the model is threaded through the
  loop and returned, also when a later step raises.
\<close>

fun MolLL_ll_loop ::
  "mol_data BaseLL \<Rightarrow> (fpkey \<times> nat) list \<Rightarrow> real \<times> nat
     \<Rightarrow> (error + real \<times> nat) \<times> mol_data BaseLL" where
  "MolLL_ll_loop self [] acc = (Inr acc, self)"
| "MolLL_ll_loop self ((key, counts) # items) acc =
     (case key_data self of
        None \<Rightarrow> (Inl TypeError, self)
      | Some kd \<Rightarrow>
          (case defaultdict_getitem kd key of
             (c, kd') \<Rightarrow>
               (case ll_step self (counter_get c (int counts)) counts acc of
                  Inl e \<Rightarrow> (Inl e, self\<lparr>key_data := Some kd'\<rparr>)
                | Inr acc' \<Rightarrow> MolLL_ll_loop (self\<lparr>key_data := Some kd'\<rparr>) items acc')))"

text \<open>\<open>list(fp.items()) + [("SampleObservationSum", sum(fp.values()))]\<close>.\<close>

definition MolLL_items :: "fingerprint \<Rightarrow> (fpkey \<times> nat) list" where
  "MolLL_items fp =
     map (\<lambda>(key, counts). (FragKey key, counts)) fp @ [(SampleObservationSum, sum_list (map snd fp))]"

definition MolLL_calculate_ll ::
  "(int \<Rightarrow> 'mol \<Rightarrow> fingerprint) \<Rightarrow> mol_data BaseLL \<Rightarrow> 'mol
     \<Rightarrow> (error + real) \<times> mol_data BaseLL" where
  "MolLL_calculate_ll ext self mol =
     (case MolLL_ll_loop self (MolLL_items (get_fp ext self mol)) (0, 0) of
        (Inl e, self') \<Rightarrow> (Inl e, self')
      | (Inr acc, self') \<Rightarrow> (ll_corrected self' acc, self'))"

section \<open>Scoring a list\<close>

text \<open>
  \<open>BaseLL.calculate_lls\<close>: the list comprehension calls \<open>calculate_ll\<close>
  on each molecule in turn, on the model as the calls before left it, and
  the first exception ends it.  The subclass's \<open>calculate_ll\<close> is the
  parameter.
\<close>

fun calculate_lls ::
  "('m \<Rightarrow> 'mol \<Rightarrow> (error + real) \<times> 'm) \<Rightarrow> 'm \<Rightarrow> 'mol list \<Rightarrow> (error + real list) \<times> 'm" where
  "calculate_lls calculate_ll self [] = (Inr [], self)"
| "calculate_lls calculate_ll self (mol # mols) =
     (case calculate_ll self mol of
        (Inl e, self') \<Rightarrow> (Inl e, self')
      | (Inr ll, self') \<Rightarrow>
          (case calculate_lls calculate_ll self' mols of
             (Inl e, self'') \<Rightarrow> (Inl e, self'')
           | (Inr lls, self'') \<Rightarrow> (Inr (ll # lls), self'')))"

text \<open>\<open>AtomLL.calculate_ll\<close> changes nothing, so it hands the model back as it got it.\<close>

definition AtomLL_calculate_ll_state ::
  "(int \<Rightarrow> 'mol \<Rightarrow> fingerprint) \<Rightarrow> atom_data BaseLL \<Rightarrow> 'mol
     \<Rightarrow> (error + real) \<times> atom_data BaseLL" where
  "AtomLL_calculate_ll_state ext self mol = (AtomLL_calculate_ll ext self mol, self)"

section \<open>Persistence\<close>

text \<open>
  A key of a dict in the save dict: an \<open>int\<close> as \<open>get_savedict\<close> leaves
  it, or a \<open>str\<close>, which is what every key is once the dict has been
  through \<open>json.dump\<close> and \<open>json.load\<close>.
\<close>

datatype pykey = IKey int | SKey string

text \<open>\<open>str\<close> of an integer, the decimal text \<open>json.dump\<close> writes for an \<open>int\<close> key.\<close>

definition digit_char :: "nat \<Rightarrow> char" where
  "digit_char d = char_of (48 + d)"

fun str_nat :: "nat \<Rightarrow> string" where
  "str_nat n = (if n < 10 then [digit_char n] else str_nat (n div 10) @ [digit_char (n mod 10)])"

definition py_str :: "int \<Rightarrow> string" where
  "py_str i = (if i < 0 then CHR ''-'' # str_nat (nat (- i)) else str_nat (nat i))"

text \<open>
  \<open>int\<close> of a key.  Of a string, the model reads an optional sign and
  ASCII decimal digits and raises ValueError on anything else; Python also
  accepts surrounding whitespace, underscores between digits and other
  Unicode digits, which no key written by \<open>json.dump\<close> has.
\<close>

definition digit_val :: "char \<Rightarrow> nat option" where
  "digit_val c =
     (let n = (of_char c :: nat) in if 48 \<le> n \<and> n \<le> 57 then Some (n - 48) else None)"

fun parse_digits :: "string \<Rightarrow> nat \<Rightarrow> nat option" where
  "parse_digits [] acc = Some acc"
| "parse_digits (c # cs) acc =
     (case digit_val c of None \<Rightarrow> None | Some d \<Rightarrow> parse_digits cs (10 * acc + d))"

definition parse_nat :: "string \<Rightarrow> error + nat" where
  "parse_nat s =
     (if s = [] then Inl ValueError
      else case parse_digits s 0 of None \<Rightarrow> Inl ValueError | Some n \<Rightarrow> Inr n)"

definition int_of_str :: "string \<Rightarrow> error + int" where
  "int_of_str s =
     (case s of
        [] \<Rightarrow> Inl ValueError
      | c # cs \<Rightarrow>
          if c = CHR ''-'' then
            (case parse_nat cs of Inl e \<Rightarrow> Inl e | Inr n \<Rightarrow> Inr (- int n))
          else if c = CHR ''+'' then
            (case parse_nat cs of Inl e \<Rightarrow> Inl e | Inr n \<Rightarrow> Inr (int n))
          else
            (case parse_nat s of Inl e \<Rightarrow> Inl e | Inr n \<Rightarrow> Inr (int n)))"

fun py_int :: "pykey \<Rightarrow> error + int" where
  "py_int (IKey i) = Inr i"
| "py_int (SKey s) = int_of_str s"

text \<open>
  The save dict: the class name under \<open>"Model"\<close>, the attributes listed
  in \<open>_properties\<close>, and the statistics under \<open>"_key_data"\<close> in the shape
  the subclass gives them.
\<close>

record 'sd savedict =
  Model :: string
  sd_smoothing :: real
  sd_estimated_keyspace :: real
  sd_alpha :: real
  sd_radius :: int
  sd_n_observations :: int
  sd_key_data :: 'sd

text \<open>
  \<open>BaseLL.get_savedict\<close>, with \<open>self.__class__.__name__\<close> and the
  subclass's \<open>_get_keydata_as_dict\<close> as parameters.
\<close>

definition get_savedict ::
  "string \<Rightarrow> ('kd BaseLL \<Rightarrow> error + 'sd) \<Rightarrow> 'kd BaseLL \<Rightarrow> error + 'sd savedict" where
  "get_savedict class_name get_keydata_as_dict self =
     (case get_keydata_as_dict self of
        Inl e \<Rightarrow> Inl e
      | Inr keydata \<Rightarrow>
          Inr \<lparr>Model = class_name,
               sd_smoothing = smoothing self,
               sd_estimated_keyspace = estimated_keyspace self,
               sd_alpha = alpha self,
               sd_radius = radius self,
               sd_n_observations = n_observations self,
               sd_key_data = keydata\<rparr>)"

text \<open>
  \<open>BaseLL.set_savedict\<close>: the assertion on the class name comes first;
  then the attributes are set, then the subclass's
  \<open>_set_keydata_from_dict\<close> runs on the object with the attributes set.
  The result is the exception raised, if any, and the object as it is left.
\<close>

definition set_savedict ::
  "string \<Rightarrow> ('sd \<Rightarrow> 'kd BaseLL \<Rightarrow> error option \<times> 'kd BaseLL) \<Rightarrow> 'sd savedict \<Rightarrow> 'kd BaseLL
     \<Rightarrow> error option \<times> 'kd BaseLL" where
  "set_savedict class_name set_keydata_from_dict savedict self =
     (if Model savedict \<noteq> class_name then (Some AssertionError, self)
      else set_keydata_from_dict (sd_key_data savedict)
             (self\<lparr>smoothing := sd_smoothing savedict,
                   estimated_keyspace := sd_estimated_keyspace savedict,
                   alpha := sd_alpha savedict,
                   radius := sd_radius savedict,
                   n_observations := sd_n_observations savedict\<rparr>))"

text \<open>The dict comprehension \<open>{int(key): value for key, value in d.items()}\<close>.\<close>

fun int_keys :: "(pykey \<times> 'v) list \<Rightarrow> (int \<times> 'v) list \<Rightarrow> error + (int \<times> 'v) list" where
  "int_keys [] acc = Inr acc"
| "int_keys ((key, value) # items) acc =
     (case py_int key of
        Inl e \<Rightarrow> Inl e
      | Inr k \<Rightarrow> int_keys items (AList.update k value acc))"

subsection \<open>AtomLL\<close>

type_synonym atom_keydict = "(pykey \<times> int) list"

definition AtomLL_get_keydata_as_dict :: "atom_data BaseLL \<Rightarrow> error + atom_keydict" where
  "AtomLL_get_keydata_as_dict self =
     (case key_data self of
        None \<Rightarrow> Inl TypeError
      | Some kd \<Rightarrow> Inr (map (\<lambda>(key, value). (IKey key, value)) kd))"

definition AtomLL_set_keydata_from_dict ::
  "atom_keydict \<Rightarrow> atom_data BaseLL \<Rightarrow> error option \<times> atom_data BaseLL" where
  "AtomLL_set_keydata_from_dict keydict self =
     (case int_keys keydict [] of
        Inl e \<Rightarrow> (Some e, self)
      | Inr kd \<Rightarrow> (None, self\<lparr>key_data := Some kd\<rparr>))"

definition AtomLL_get_savedict :: "atom_data BaseLL \<Rightarrow> error + atom_keydict savedict" where
  "AtomLL_get_savedict = get_savedict ''AtomLL'' AtomLL_get_keydata_as_dict"

definition AtomLL_set_savedict ::
  "atom_keydict savedict \<Rightarrow> atom_data BaseLL \<Rightarrow> error option \<times> atom_data BaseLL" where
  "AtomLL_set_savedict = set_savedict ''AtomLL'' AtomLL_set_keydata_from_dict"

subsection \<open>MolLL\<close>

type_synonym mol_keydict = "(pykey \<times> (pykey \<times> int) list) list"

fun pykey_of :: "fpkey \<Rightarrow> pykey" where
  "pykey_of (FragKey key) = IKey key"
| "pykey_of SampleObservationSum = SKey ''SampleObservationSum''"

definition MolLL_get_keydata_as_dict :: "mol_data BaseLL \<Rightarrow> error + mol_keydict" where
  "MolLL_get_keydata_as_dict self =
     (case key_data self of
        None \<Rightarrow> Inl AttributeError
      | Some kd \<Rightarrow>
          Inr (map (\<lambda>(key, counter). (pykey_of key, map (\<lambda>(count, f). (IKey count, f)) counter)) kd))"

text \<open>\<open>if fpkey != "SampleObservationSum": fpkey = int(fpkey)\<close>.\<close>

definition MolLL_fpkey :: "pykey \<Rightarrow> error + fpkey" where
  "MolLL_fpkey fpkey =
     (if fpkey \<noteq> SKey ''SampleObservationSum'' then
        (case py_int fpkey of Inl e \<Rightarrow> Inl e | Inr key \<Rightarrow> Inr (FragKey key))
      else Inr SampleObservationSum)"

fun MolLL_key_data_object :: "mol_keydict \<Rightarrow> mol_data \<Rightarrow> error + mol_data" where
  "MolLL_key_data_object [] key_data_object = Inr key_data_object"
| "MolLL_key_data_object ((fpkey, counterdict) # items) key_data_object =
     (case MolLL_fpkey fpkey of
        Inl e \<Rightarrow> Inl e
      | Inr key \<Rightarrow>
          (case int_keys counterdict [] of
             Inl e \<Rightarrow> Inl e
           | Inr c \<Rightarrow> MolLL_key_data_object items (AList.update key c key_data_object)))"

definition MolLL_set_keydata_from_dict ::
  "mol_keydict \<Rightarrow> mol_data BaseLL \<Rightarrow> error option \<times> mol_data BaseLL" where
  "MolLL_set_keydata_from_dict keydata self =
     (case MolLL_key_data_object keydata [] of
        Inl e \<Rightarrow> (Some e, self)
      | Inr kd \<Rightarrow> (None, self\<lparr>key_data := Some kd\<rparr>))"

definition MolLL_get_savedict :: "mol_data BaseLL \<Rightarrow> error + mol_keydict savedict" where
  "MolLL_get_savedict = get_savedict ''MolLL'' MolLL_get_keydata_as_dict"

definition MolLL_set_savedict ::
  "mol_keydict savedict \<Rightarrow> mol_data BaseLL \<Rightarrow> error option \<times> mol_data BaseLL" where
  "MolLL_set_savedict = set_savedict ''MolLL'' MolLL_set_keydata_from_dict"

subsection \<open>save and load\<close>

text \<open>
  What \<open>json.load\<close> reads back from what \<open>json.dump\<close> wrote: every dict
  key has become a string (an \<open>int\<close> key its decimal text), and a dict is
  rebuilt item by item, a repeated key keeping its last value.  Numbers
  come back as they were.  The file is modelled by the save dict read
  back from it.
\<close>

fun json_key :: "pykey \<Rightarrow> pykey" where
  "json_key (IKey i) = SKey (py_str i)"
| "json_key (SKey s) = SKey s"

definition json_object :: "('v \<Rightarrow> 'w) \<Rightarrow> (pykey \<times> 'v) list \<Rightarrow> (pykey \<times> 'w) list" where
  "json_object json_value d = fold (\<lambda>(key, value) d'. AList.update (json_key key) (json_value value) d') d []"

definition AtomLL_json :: "atom_keydict savedict \<Rightarrow> atom_keydict savedict" where
  "AtomLL_json savedict = savedict\<lparr>sd_key_data := json_object (\<lambda>value. value) (sd_key_data savedict)\<rparr>"

definition MolLL_json :: "mol_keydict savedict \<Rightarrow> mol_keydict savedict" where
  "MolLL_json savedict =
     savedict\<lparr>sd_key_data := json_object (json_object (\<lambda>value. value)) (sd_key_data savedict)\<rparr>"

definition AtomLL_save :: "atom_data BaseLL \<Rightarrow> error + atom_keydict savedict" where
  "AtomLL_save self = (case AtomLL_get_savedict self of Inl e \<Rightarrow> Inl e | Inr d \<Rightarrow> Inr (AtomLL_json d))"

definition MolLL_save :: "mol_data BaseLL \<Rightarrow> error + mol_keydict savedict" where
  "MolLL_save self = (case MolLL_get_savedict self of Inl e \<Rightarrow> Inl e | Inr d \<Rightarrow> Inr (MolLL_json d))"

text \<open>
  The geometric mean as the specification words it, the \<open>n\<close>-th root of
  the product, to compare \<open>smoothed_value\<close> with.
\<close>

definition geometric_mean :: "real list \<Rightarrow> real" where
  "geometric_mean xs = root (length xs) (prod_list xs)"

text \<open>
  Two members of \<open>numpy_float64\<close> to evaluate the smoothing pass with: one
  without rounding error, and one that is low by the relative error
  \<open>2 ^ -48\<close>, sixteen units in the last place at most.
\<close>

definition float64_exact :: numpy_float64 where
  "float64_exact = Abs_numpy_float64 exp_mean_log"

definition float64_low :: numpy_float64 where
  "float64_low = Abs_numpy_float64 (\<lambda>a b c. exp_mean_log a b c * (1 - 1 / 2 ^ 48))"

text \<open>
  What the loop of \<open>MolLL.fit\<close> maintains: a Counter it has touched is
  not empty, has each count once, no negative count and only positive
  frequencies; the keys of the statistics are distinct.
\<close>

definition raw_counter :: "counter \<Rightarrow> bool" where
  "raw_counter c \<longleftrightarrow> c \<noteq> [] \<and> distinct (map fst c) \<and> (\<forall>(k, f) \<in> set c. 0 \<le> k \<and> 1 \<le> f)"

definition raw_key_data :: "mol_data \<Rightarrow> bool" where
  "raw_key_data kd \<longleftrightarrow> distinct (map fst kd) \<and> (\<forall>(key, c) \<in> set kd. raw_counter c)"

text \<open>
  The value of \<open>self._key_data[key][counts]\<close>, and two models that agree
  on every such value, on \<open>_n_observations\<close> and on the configuration.
\<close>

definition mol_lookup :: "mol_data \<Rightarrow> fpkey \<Rightarrow> int \<Rightarrow> int" where
  "mol_lookup kd key counts = counter_get (fst (defaultdict_getitem kd key)) counts"

definition same_statistics :: "mol_data BaseLL \<Rightarrow> mol_data BaseLL \<Rightarrow> bool" where
  "same_statistics m m' \<longleftrightarrow>
     smoothing m = smoothing m' \<and> estimated_keyspace m = estimated_keyspace m'
     \<and> alpha m = alpha m' \<and> radius m = radius m' \<and> n_observations m = n_observations m'
     \<and> (case (key_data m, key_data m') of
           (None, None) \<Rightarrow> True
         | (Some kd, Some kd') \<Rightarrow> mol_lookup kd = mol_lookup kd'
         | _ \<Rightarrow> False)"



section \<open>Smoothing\<close>

lemma exp_mean_ln_root:
  fixes x y z :: real
  assumes "0 < x" "0 < y" "0 < z"
  shows "exp ((ln x + ln y + ln z) / 3) = root 3 (x * y * z)"
proof -
  have p: "0 < x * y * z" using assms by simp
  have "ln (x * y * z) = ln x + ln y + ln z"
    using assms by (simp add: ln_mult)
  moreover have "root 3 (x * y * z) = (x * y * z) powr (1 / 3)"
    using p by (simp add: root_powr_inverse)
  ultimately show ?thesis using p assms by (simp add: powr_def)
qed

lemma exp_mean_log_root:
  assumes "0 \<le> a" "0 \<le> b" "0 \<le> c"
  shows "exp_mean_log a b c
      = root 3 ((real_of_int a + 15/100) * (real_of_int b + 15/100) * (real_of_int c + 15/100))"
  unfolding exp_mean_log_def using assms by (intro exp_mean_ln_root) simp_all

lemma exp_mean_log_geometric_mean:
  assumes "0 \<le> a" "0 \<le> b" "0 \<le> c"
  shows "exp_mean_log a b c
      = geometric_mean [real_of_int a + 15/100, real_of_int b + 15/100, real_of_int c + 15/100]"
  using exp_mean_log_root [OF assms] by (simp add: geometric_mean_def mult.assoc numeral_3_eq_3)

lemma exp_mean_log_pos: "0 < exp_mean_log a b c"
  by (simp add: exp_mean_log_def)

lemma numpy_float64_error:
  assumes "0 \<le> a" "0 \<le> b" "0 \<le> c"
  shows "\<bar>Rep_numpy_float64 np a b c - exp_mean_log a b c\<bar> \<le> exp_mean_log a b c / 2 ^ 40"
  using Rep_numpy_float64 [of np] assms by simp

lemma numpy_float64_bounds:
  assumes "0 \<le> a" "0 \<le> b" "0 \<le> c"
  shows "exp_mean_log a b c * (1 - 1 / 2 ^ 40) \<le> Rep_numpy_float64 np a b c"
    and "Rep_numpy_float64 np a b c \<le> exp_mean_log a b c * (1 + 1 / 2 ^ 40)"
    and "0 < Rep_numpy_float64 np a b c"
proof -
  let ?g = "exp_mean_log a b c" and ?r = "Rep_numpy_float64 np a b c"
  have e: "\<bar>?r - ?g\<bar> \<le> ?g / 2 ^ 40" using assms by (rule numpy_float64_error)
  have e1: "?g - ?g / 2 ^ 40 \<le> ?r" and e2: "?r \<le> ?g + ?g / 2 ^ 40"
    using e by linarith+
  have "?g * (1 - 1 / 2 ^ 40) = ?g - ?g / 2 ^ 40" by (simp add: algebra_simps)
  then show lo: "?g * (1 - 1 / 2 ^ 40) \<le> ?r" using e1 by simp
  have "?g * (1 + 1 / 2 ^ 40) = ?g + ?g / 2 ^ 40" by (simp add: algebra_simps)
  then show "?r \<le> ?g * (1 + 1 / 2 ^ 40)" using e2 by simp
  have "0 < ?g * (1 - 1 / 2 ^ 40)" using exp_mean_log_pos [of a b c] by simp
  then show "0 < ?r" using lo by linarith
qed

lemma Rep_float64_exact: "Rep_numpy_float64 float64_exact = exp_mean_log"
  unfolding float64_exact_def by (rule Abs_numpy_float64_inverse) (simp add: exp_mean_log_def)

lemma Rep_float64_low:
  "Rep_numpy_float64 float64_low = (\<lambda>a b c. exp_mean_log a b c * (1 - 1 / 2 ^ 48))"
  unfolding float64_low_def
proof (rule Abs_numpy_float64_inverse, clarify)
  fix a b c :: int
  let ?g = "exp_mean_log a b c"
  have "\<bar>?g * (1 - 1 / 2 ^ 48) - ?g\<bar> = ?g / 2 ^ 48"
    using exp_mean_log_pos [of a b c] by (simp add: algebra_simps)
  moreover have "?g / 2 ^ 48 \<le> ?g / 2 ^ 40"
    using exp_mean_log_pos [of a b c] by (intro divide_left_mono) simp_all
  ultimately show "\<bar>?g * (1 - 1 / 2 ^ 48) - ?g\<bar> \<le> ?g / 2 ^ 40" by simp
qed

lemma smoothed_value_ge1:
  assumes "smoothed_value np a b c = Inr g"
  shows "1 \<le> g"
proof -
  from assms have g: "g = \<lceil>Rep_numpy_float64 np a b c\<rceil>" and nn: "0 \<le> a" "0 \<le> b" "0 \<le> c"
    by (auto simp: smoothed_value_def split: if_splits)
  have "0 < Rep_numpy_float64 np a b c" using nn by (rule numpy_float64_bounds(3))
  then show ?thesis unfolding g by (metis zero_less_ceiling int_one_le_iff_zero_less)
qed

lemma smoothed_value_ok:
  assumes "0 \<le> a" "0 \<le> b" "0 \<le> c"
  shows "\<exists>g. smoothed_value np a b c = Inr g"
  using assms by (simp add: smoothed_value_def)

lemma smoothed_value_range:
  assumes "0 \<le> a" "0 \<le> b" "0 \<le> c" and "smoothed_value np a b c = Inr g"
  shows "g = \<lceil>Rep_numpy_float64 np a b c\<rceil>"
    and "\<lceil>exp_mean_log a b c * (1 - 1 / 2 ^ 40)\<rceil> \<le> g"
    and "g \<le> \<lceil>exp_mean_log a b c * (1 + 1 / 2 ^ 40)\<rceil>"
proof -
  show g: "g = \<lceil>Rep_numpy_float64 np a b c\<rceil>"
    using assms by (simp add: smoothed_value_def)
  show "\<lceil>exp_mean_log a b c * (1 - 1 / 2 ^ 40)\<rceil> \<le> g"
    unfolding g using numpy_float64_bounds(1) [OF assms(1-3)] by (rule ceiling_mono)
  show "g \<le> \<lceil>exp_mean_log a b c * (1 + 1 / 2 ^ 40)\<rceil>"
    unfolding g using numpy_float64_bounds(2) [OF assms(1-3)] by (rule ceiling_mono)
qed

lemma root3_lower:
  fixes p :: real
  assumes "0 \<le> m" "m ^ 3 < p"
  shows "m < root 3 p"
proof -
  have "root 3 (m ^ 3) < root 3 p" using assms(2) by (simp add: real_root_less_iff)
  then show ?thesis using assms(1) by (simp add: real_root_power_cancel)
qed

lemma root3_upper:
  fixes p :: real
  assumes "0 \<le> n" "p \<le> n ^ 3"
  shows "root 3 p \<le> n"
proof -
  have "root 3 p \<le> root 3 (n ^ 3)" using assms(2) by (simp add: real_root_le_iff)
  then show ?thesis using assms(1) by (simp add: real_root_power_cancel)
qed

lemma smoothed_value_eval:
  assumes "0 \<le> a" "0 \<le> b" "0 \<le> c" "1 \<le> n"
    and lo: "(real_of_int n - 1) ^ 3
        < (real_of_int a + 15/100) * (real_of_int b + 15/100) * (real_of_int c + 15/100)
          * (1 - 1 / 2 ^ 40) ^ 3"
    and hi: "(real_of_int a + 15/100) * (real_of_int b + 15/100) * (real_of_int c + 15/100)
          * (1 + 1 / 2 ^ 40) ^ 3 \<le> real_of_int n ^ 3"
  shows "smoothed_value np a b c = Inr n"
proof -
  let ?p = "(real_of_int a + 15/100) * (real_of_int b + 15/100) * (real_of_int c + 15/100)"
  let ?g = "exp_mean_log a b c" and ?r = "Rep_numpy_float64 np a b c"
  have g: "?g = root 3 ?p" using assms(1-3) by (rule exp_mean_log_root)
  have p: "0 \<le> ?p" using assms(1-3) by simp
  have lo': "real_of_int n - 1 < root 3 (?p * (1 - 1 / 2 ^ 40) ^ 3)"
    using assms(4) lo by (intro root3_lower) simp_all
  have hi': "root 3 (?p * (1 + 1 / 2 ^ 40) ^ 3) \<le> real_of_int n"
    using assms(4) hi by (intro root3_upper) simp_all
  have "root 3 (?p * (1 - 1 / 2 ^ 40) ^ 3) = ?g * (1 - 1 / 2 ^ 40)"
    unfolding g by (simp add: real_root_mult real_root_power_cancel)
  moreover have "root 3 (?p * (1 + 1 / 2 ^ 40) ^ 3) = ?g * (1 + 1 / 2 ^ 40)"
    unfolding g by (simp add: real_root_mult real_root_power_cancel)
  ultimately have "real_of_int n - 1 < ?r" "?r \<le> real_of_int n"
    using lo' hi' numpy_float64_bounds(1,2) [OF assms(1-3), of np] by linarith+
  then have "\<lceil>?r\<rceil> = n" by (intro ceiling_unique) simp_all
  then show ?thesis using assms(1-3) by (simp add: smoothed_value_def)
qed

lemma smoothed_value_0_1_0: "smoothed_value np 0 1 0 = Inr 1"
  by (rule smoothed_value_eval) (simp_all add: power3_eq_cube)

lemma smoothed_value_0_0_1: "smoothed_value np 0 0 1 = Inr 1"
  by (rule smoothed_value_eval) (simp_all add: power3_eq_cube)

lemma smoothed_value_5_0_1: "smoothed_value np 5 0 1 = Inr 1"
  by (rule smoothed_value_eval) (simp_all add: power3_eq_cube)


lemma odd_neighbor_product: "odd ((20 * a + 3) * (20 * b + 3) * (20 * c + 3 :: int))"
  by simp

lemma neighbor_product:
  "(real_of_int a + 15/100) * (real_of_int b + 15/100) * (real_of_int c + 15/100)
     = real_of_int ((20 * a + 3) * (20 * b + 3) * (20 * c + 3)) / 8000"
  by (simp add: field_simps)

lemma cube_margin_up:
  fixes N :: real
  assumes "N \<le> 301 ^ 3"
  shows "(N - 1 / 8000) * (1 + 1 / 2 ^ 40) ^ 3 \<le> N"
  using assms by (simp add: power3_eq_cube algebra_simps)

lemma cube_margin_down:
  fixes M :: real
  assumes "M \<le> 300 ^ 3"
  shows "M < (M + 1 / 8000) * (1 - 1 / 2 ^ 40) ^ 3"
  using assms by (simp add: power3_eq_cube algebra_simps)

lemma smoothed_value_exact:
  assumes "0 \<le> a" "0 \<le> b" "0 \<le> c" "a \<le> 300" "b \<le> 300" "c \<le> 300"
  shows "smoothed_value np a b c = Inr \<lceil>exp_mean_log a b c\<rceil>"
proof -
  let ?P = "(20 * a + 3) * (20 * b + 3) * (20 * c + 3)"
  let ?p = "(real_of_int a + 15/100) * (real_of_int b + 15/100) * (real_of_int c + 15/100)"
  let ?g = "exp_mean_log a b c"
  define n where "n = \<lceil>?g\<rceil>"
  have g: "?g = root 3 ?p" using assms(1-3) by (rule exp_mean_log_root)
  have gpos: "0 < ?g" by (rule exp_mean_log_pos)
  have ppos: "0 < ?p" using assms(1-3) by (simp add: mult_pos_pos add_nonneg_pos)
  have g3: "?g ^ 3 = ?p" unfolding g using ppos by simp
  have n1: "1 \<le> n" unfolding n_def using gpos by (metis zero_less_ceiling int_one_le_iff_zero_less)
  have lo: "real_of_int n - 1 < ?g" and hi: "?g \<le> real_of_int n"
    unfolding n_def by linarith+
  have "?p \<le> (300 + 15/100) * (300 + 15/100) * (300 + 15/100)"
    using assms by (intro mult_mono) simp_all
  then have "?p \<le> (301 :: real) ^ 3" by (simp add: power3_eq_cube)
  then have "?g \<le> 301" unfolding g by (intro root3_upper) simp_all
  then have n301: "n \<le> 301" unfolding n_def by (simp add: ceiling_le_iff)
  have plo: "(real_of_int n - 1) ^ 3 < ?p"
    unfolding g3 [symmetric] using lo n1 by (intro power_strict_mono) simp_all
  have phi: "?p \<le> real_of_int n ^ 3"
    unfolding g3 [symmetric] using hi gpos by (intro power_mono) simp_all
  have P: "?p = real_of_int ?P / 8000" by (rule neighbor_product)
  have "real_of_int (8000 * (n - 1) ^ 3) < real_of_int ?P"
    using plo unfolding P by (simp add: field_simps)
  then have "8000 * (n - 1) ^ 3 < ?P" by (simp only: of_int_less_iff)
  then have "8000 * (n - 1) ^ 3 + 1 \<le> ?P" by simp
  then have "real_of_int (8000 * (n - 1) ^ 3 + 1) \<le> real_of_int ?P" by (simp only: of_int_le_iff)
  then have plo': "(real_of_int n - 1) ^ 3 + 1 / 8000 \<le> ?p" unfolding P by (simp add: field_simps)
  have "real_of_int ?P \<le> real_of_int (8000 * n ^ 3)"
    using phi unfolding P by (simp add: field_simps)
  then have le: "?P \<le> 8000 * n ^ 3" by (simp only: of_int_le_iff)
  have "?P \<noteq> 8000 * n ^ 3"
  proof
    assume "?P = 8000 * n ^ 3"
    then have "even ?P" by simp
    then show False using odd_neighbor_product [of a b c] by simp
  qed
  then have "?P + 1 \<le> 8000 * n ^ 3" using le by simp
  then have "real_of_int (?P + 1) \<le> real_of_int (8000 * n ^ 3)" by (simp only: of_int_le_iff)
  then have phi': "?p \<le> real_of_int n ^ 3 - 1 / 8000" unfolding P by (simp add: field_simps)
  have n3: "real_of_int n ^ 3 \<le> 301 ^ 3" using n1 n301 by (intro power_mono) simp_all
  have m3: "(real_of_int n - 1) ^ 3 \<le> 300 ^ 3" using n1 n301 by (intro power_mono) simp_all
  have m0: "0 \<le> (real_of_int n - 1) ^ 3" using n1 by simp
  have "?p * (1 + 1 / 2 ^ 40) ^ 3 \<le> (real_of_int n ^ 3 - 1 / 8000) * (1 + 1 / 2 ^ 40) ^ 3"
    using phi' by (intro mult_right_mono) simp_all
  also have "\<dots> \<le> real_of_int n ^ 3" using n3 by (rule cube_margin_up)
  finally have up: "?p * (1 + 1 / 2 ^ 40) ^ 3 \<le> real_of_int n ^ 3" .
  have "(real_of_int n - 1) ^ 3 < ((real_of_int n - 1) ^ 3 + 1 / 8000) * (1 - 1 / 2 ^ 40) ^ 3"
    using m3 by (rule cube_margin_down)
  also have "\<dots> \<le> ?p * (1 - 1 / 2 ^ 40) ^ 3"
    using plo' by (intro mult_right_mono) simp_all
  finally have down: "(real_of_int n - 1) ^ 3 < ?p * (1 - 1 / 2 ^ 40) ^ 3" .
  have "smoothed_value np a b c = Inr n"
    using assms(1-3) n1 down up by (rule smoothed_value_eval)
  then show ?thesis by (simp add: n_def)
qed

lemma counter_get_nonneg:
  assumes "\<forall>(k, f) \<in> set c. 0 \<le> f"
  shows "0 \<le> counter_get c j"
proof (cases "map_of c j")
  case None
  then show ?thesis by (simp add: counter_get_def)
next
  case (Some v)
  then have "(j, v) \<in> set c" by (rule map_of_SomeD)
  with assms Some show ?thesis by (auto simp: counter_get_def)
qed

lemma counter_get_update:
  "counter_get (AList.update k v c) j = (if j = k then v else counter_get c j)"
  by (simp add: counter_get_def update_conv')

lemma smooth_loop_spec:
  assumes "\<forall>(k, f) \<in> set counter. 0 \<le> f"
  shows "\<exists>sm. smooth_loop np counter keys sm0 = Inr sm
     \<and> fst ` set sm = set keys \<union> fst ` set sm0
     \<and> (distinct (map fst sm0) \<longrightarrow> distinct (map fst sm))
     \<and> (\<forall>k. k \<notin> set keys \<longrightarrow> counter_get sm k = counter_get sm0 k)
     \<and> (\<forall>k \<in> set keys. smoothed_value np (counter_get counter (k - 1)) (counter_get counter k)
             (counter_get counter (k + 1)) = Inr (counter_get sm k))"
proof (induction keys arbitrary: sm0)
  case Nil
  show ?case by simp
next
  case (Cons key keys)
  obtain g where g: "smoothed_value np (counter_get counter (key - 1)) (counter_get counter key)
             (counter_get counter (key + 1)) = Inr g"
    using smoothed_value_ok [of _ _ _ np] counter_get_nonneg [OF assms] by blast
  obtain sm where sm: "smooth_loop np counter keys (AList.update key g sm0) = Inr sm"
    and dom: "fst ` set sm = set keys \<union> fst ` set (AList.update key g sm0)"
    and dist: "distinct (map fst (AList.update key g sm0)) \<longrightarrow> distinct (map fst sm)"
    and out: "\<forall>k. k \<notin> set keys \<longrightarrow> counter_get sm k = counter_get (AList.update key g sm0) k"
    and inn: "\<forall>k \<in> set keys. smoothed_value np (counter_get counter (k - 1)) (counter_get counter k)
             (counter_get counter (k + 1)) = Inr (counter_get sm k)"
    using Cons.IH [of "AList.update key g sm0"] by blast
  have 1: "smooth_loop np counter (key # keys) sm0 = Inr sm" using g sm by simp
  have 2: "fst ` set sm = set (key # keys) \<union> fst ` set sm0"
    using dom by (simp add: dom_update)
  have 3: "distinct (map fst sm0) \<longrightarrow> distinct (map fst sm)"
    using dist by (simp add: distinct_update)
  have 4: "\<forall>k. k \<notin> set (key # keys) \<longrightarrow> counter_get sm k = counter_get sm0 k"
    using out by (simp add: counter_get_update)
  have 5: "\<forall>k \<in> set (key # keys). smoothed_value np (counter_get counter (k - 1)) (counter_get counter k)
             (counter_get counter (k + 1)) = Inr (counter_get sm k)"
  proof
    fix k assume k: "k \<in> set (key # keys)"
    show "smoothed_value np (counter_get counter (k - 1)) (counter_get counter k)
             (counter_get counter (k + 1)) = Inr (counter_get sm k)"
    proof (cases "k \<in> set keys")
      case True
      then show ?thesis using inn by blast
    next
      case False
      then have "k = key" using k by simp
      moreover have "counter_get sm key = g" using out False \<open>k = key\<close>
        by (simp add: counter_get_update)
      ultimately show ?thesis using g by simp
    qed
  qed
  from 1 2 3 4 5 show ?case by blast
qed

lemma py_max_Max: "xs \<noteq> [] \<Longrightarrow> py_max xs = Max (set xs)"
  by (cases xs) (simp_all add: Max.set_eq_fold [symmetric])

lemma smooth_counter_spec:
  assumes "counter \<noteq> []" and "\<forall>(k, f) \<in> set counter. 0 \<le> f"
  shows "\<exists>sm. smooth_counter np counter = Inr sm
     \<and> fst ` set sm = {1} \<union> {2..py_max (map fst counter)}
     \<and> distinct (map fst sm)
     \<and> counter_get sm 1 = counter_get counter 1
     \<and> (\<forall>k \<in> {2..py_max (map fst counter)}.
           smoothed_value np (counter_get counter (k - 1)) (counter_get counter k)
             (counter_get counter (k + 1)) = Inr (counter_get sm k))"
proof -
  let ?mx = "py_max (map fst counter)"
  let ?sm0 = "AList.update (1::int) (counter_get counter 1) []"
  obtain sm where sm: "smooth_loop np counter [2..?mx] ?sm0 = Inr sm"
    and dom: "fst ` set sm = set [2..?mx] \<union> fst ` set ?sm0"
    and dist: "distinct (map fst ?sm0) \<longrightarrow> distinct (map fst sm)"
    and out: "\<forall>k. k \<notin> set [2..?mx] \<longrightarrow> counter_get sm k = counter_get ?sm0 k"
    and inn: "\<forall>k \<in> set [2..?mx]. smoothed_value np (counter_get counter (k - 1)) (counter_get counter k)
             (counter_get counter (k + 1)) = Inr (counter_get sm k)"
    using smooth_loop_spec [OF assms(2), of np "[2..?mx]" ?sm0] by blast
  have "smooth_counter np counter = Inr sm" using sm assms(1) by (simp add: smooth_counter_def)
  moreover have "fst ` set sm = {1} \<union> {2..?mx}" using dom by auto
  moreover have "distinct (map fst sm)" using dist by simp
  moreover have "counter_get sm 1 = counter_get counter 1"
    using out by (simp add: counter_get_def)
  moreover have "\<forall>k \<in> {2..?mx}.
           smoothed_value np (counter_get counter (k - 1)) (counter_get counter k)
             (counter_get counter (k + 1)) = Inr (counter_get sm k)"
    using inn by simp
  ultimately show ?thesis by blast
qed


text \<open>
  C1, as the code has it: for a non-empty raw histogram with non-negative
  frequencies, \<open>_smooth_counter\<close> returns a Counter whose value at count 1
  is the raw frequency at 1.  Its value at every count from 2 up to the
  largest raw count is the ceiling of what numpy computes in float64 for
  the geometric mean of the raw frequencies at \<open>count - 1\<close>, \<open>count\<close> and
  \<open>count + 1\<close> (0 when absent), each incremented by 0.15.  That value
  lies between the ceilings of the geometric mean lowered and raised by the
  relative rounding error, and it is the ceiling of the geometric mean
  itself when the three frequencies are at most 300.
\<close>

theorem smooth_counter_values:
  assumes "counter \<noteq> []" and "\<forall>(k, f) \<in> set counter. 0 \<le> f"
  shows "\<exists>sm. smooth_counter np counter = Inr sm
     \<and> counter_get sm 1 = counter_get counter 1
     \<and> (\<forall>count \<in> {2..py_max (map fst counter)}.
           counter_get sm count =
             \<lceil>Rep_numpy_float64 np (counter_get counter (count - 1)) (counter_get counter count)
                (counter_get counter (count + 1))\<rceil>
           \<and> \<lceil>geometric_mean [real_of_int (counter_get counter (count - 1)) + 15/100,
                                 real_of_int (counter_get counter count) + 15/100,
                                 real_of_int (counter_get counter (count + 1)) + 15/100]
                 * (1 - 1 / 2 ^ 40)\<rceil> \<le> counter_get sm count
           \<and> counter_get sm count
               \<le> \<lceil>geometric_mean [real_of_int (counter_get counter (count - 1)) + 15/100,
                                   real_of_int (counter_get counter count) + 15/100,
                                   real_of_int (counter_get counter (count + 1)) + 15/100]
                   * (1 + 1 / 2 ^ 40)\<rceil>
           \<and> (counter_get counter (count - 1) \<le> 300 \<and> counter_get counter count \<le> 300
                \<and> counter_get counter (count + 1) \<le> 300 \<longrightarrow>
              counter_get sm count =
                \<lceil>geometric_mean [real_of_int (counter_get counter (count - 1)) + 15/100,
                                  real_of_int (counter_get counter count) + 15/100,
                                  real_of_int (counter_get counter (count + 1)) + 15/100]\<rceil>))"
proof -
  obtain sm where sm: "smooth_counter np counter = Inr sm"
    and one: "counter_get sm 1 = counter_get counter 1"
    and inn: "\<forall>k \<in> {2..py_max (map fst counter)}.
           smoothed_value np (counter_get counter (k - 1)) (counter_get counter k)
             (counter_get counter (k + 1)) = Inr (counter_get sm k)"
    using smooth_counter_spec [OF assms] by blast
  have "\<forall>count \<in> {2..py_max (map fst counter)}.
           counter_get sm count =
             \<lceil>Rep_numpy_float64 np (counter_get counter (count - 1)) (counter_get counter count)
                (counter_get counter (count + 1))\<rceil>
           \<and> \<lceil>geometric_mean [real_of_int (counter_get counter (count - 1)) + 15/100,
                                 real_of_int (counter_get counter count) + 15/100,
                                 real_of_int (counter_get counter (count + 1)) + 15/100]
                 * (1 - 1 / 2 ^ 40)\<rceil> \<le> counter_get sm count
           \<and> counter_get sm count
               \<le> \<lceil>geometric_mean [real_of_int (counter_get counter (count - 1)) + 15/100,
                                   real_of_int (counter_get counter count) + 15/100,
                                   real_of_int (counter_get counter (count + 1)) + 15/100]
                   * (1 + 1 / 2 ^ 40)\<rceil>
           \<and> (counter_get counter (count - 1) \<le> 300 \<and> counter_get counter count \<le> 300
                \<and> counter_get counter (count + 1) \<le> 300 \<longrightarrow>
              counter_get sm count =
                \<lceil>geometric_mean [real_of_int (counter_get counter (count - 1)) + 15/100,
                                  real_of_int (counter_get counter count) + 15/100,
                                  real_of_int (counter_get counter (count + 1)) + 15/100]\<rceil>)"
  proof
    fix count assume "count \<in> {2..py_max (map fst counter)}"
    let ?a = "counter_get counter (count - 1)" and ?b = "counter_get counter count"
      and ?c = "counter_get counter (count + 1)"
    have nn: "0 \<le> ?a" "0 \<le> ?b" "0 \<le> ?c" using counter_get_nonneg [OF assms(2)] by blast+
    have sv: "smoothed_value np ?a ?b ?c = Inr (counter_get sm count)"
      using inn \<open>count \<in> {2..py_max (map fst counter)}\<close> by blast
    have gm: "exp_mean_log ?a ?b ?c
        = geometric_mean [real_of_int ?a + 15/100, real_of_int ?b + 15/100, real_of_int ?c + 15/100]"
      using nn by (rule exp_mean_log_geometric_mean)
    have small: "?a \<le> 300 \<and> ?b \<le> 300 \<and> ?c \<le> 300 \<longrightarrow>
        counter_get sm count = \<lceil>exp_mean_log ?a ?b ?c\<rceil>"
      using smoothed_value_exact [OF nn, of np] sv by auto
    show "counter_get sm count = \<lceil>Rep_numpy_float64 np ?a ?b ?c\<rceil>
           \<and> \<lceil>geometric_mean [real_of_int ?a + 15/100, real_of_int ?b + 15/100,
                   real_of_int ?c + 15/100] * (1 - 1 / 2 ^ 40)\<rceil> \<le> counter_get sm count
           \<and> counter_get sm count
               \<le> \<lceil>geometric_mean [real_of_int ?a + 15/100, real_of_int ?b + 15/100,
                     real_of_int ?c + 15/100] * (1 + 1 / 2 ^ 40)\<rceil>
           \<and> (?a \<le> 300 \<and> ?b \<le> 300 \<and> ?c \<le> 300 \<longrightarrow>
              counter_get sm count =
                \<lceil>geometric_mean [real_of_int ?a + 15/100, real_of_int ?b + 15/100,
                   real_of_int ?c + 15/100]\<rceil>)"
      using smoothed_value_range [OF nn sv] small unfolding gm by blast
  qed
  with sm one show ?thesis by blast
qed

text \<open>
  The scenario of C1: for the raw histogram \<open>{1:5, 2:0, 3:1}\<close> the value at
  count 2 is \<open>ceil (exp (mean (ln [5.15, 0.15, 1.15])))\<close>, which is 1, also
  when the float64 result is low by some units in the last place.
\<close>

theorem smooth_counter_values_witness:
  "\<exists>sm. smooth_counter float64_low [(1, 5), (2, 0), (3, 1)] = Inr sm
     \<and> counter_get sm 1 = 5
     \<and> counter_get sm 2 = \<lceil>exp ((ln (515/100) + ln (15/100) + ln (115/100)) / (3::real))\<rceil>
     \<and> counter_get sm 2 = 1"
proof -
  let ?c = "[(1, 5), (2, 0), (3, 1)] :: counter"
  have ne: "?c \<noteq> []" by simp
  have nn: "\<forall>(k, f) \<in> set ?c. 0 \<le> f" by simp
  have mx: "py_max (map fst ?c) = 3" by simp
  have gm: "geometric_mean [515/100, 15/100, 115/100]
      = exp ((ln (515/100) + ln (15/100) + ln (115/100)) / 3)"
    using exp_mean_ln_root [of "515/100" "15/100" "115/100"]
    by (simp add: geometric_mean_def numeral_3_eq_3)
  obtain sm where sm: "smooth_counter float64_low ?c = Inr sm"
    and one: "counter_get sm 1 = counter_get ?c 1"
    and inn: "\<forall>count \<in> {2..py_max (map fst ?c)}.
           counter_get sm count =
             \<lceil>Rep_numpy_float64 float64_low (counter_get ?c (count - 1)) (counter_get ?c count)
                (counter_get ?c (count + 1))\<rceil>
           \<and> \<lceil>geometric_mean [real_of_int (counter_get ?c (count - 1)) + 15/100,
                                 real_of_int (counter_get ?c count) + 15/100,
                                 real_of_int (counter_get ?c (count + 1)) + 15/100]
                 * (1 - 1 / 2 ^ 40)\<rceil> \<le> counter_get sm count
           \<and> counter_get sm count
               \<le> \<lceil>geometric_mean [real_of_int (counter_get ?c (count - 1)) + 15/100,
                                   real_of_int (counter_get ?c count) + 15/100,
                                   real_of_int (counter_get ?c (count + 1)) + 15/100]
                   * (1 + 1 / 2 ^ 40)\<rceil>
           \<and> (counter_get ?c (count - 1) \<le> 300 \<and> counter_get ?c count \<le> 300
                \<and> counter_get ?c (count + 1) \<le> 300 \<longrightarrow>
              counter_get sm count =
                \<lceil>geometric_mean [real_of_int (counter_get ?c (count - 1)) + 15/100,
                                  real_of_int (counter_get ?c count) + 15/100,
                                  real_of_int (counter_get ?c (count + 1)) + 15/100]\<rceil>)"
    using smooth_counter_values [OF ne nn, of float64_low] by blast
  have two: "counter_get sm 2 = \<lceil>geometric_mean [515/100, 15/100, 115/100]\<rceil>"
    using inn [unfolded mx, rule_format, of 2] by (simp add: counter_get_def)
  have "smoothed_value float64_exact 5 0 1 = Inr \<lceil>exp_mean_log 5 0 1\<rceil>"
    by (rule smoothed_value_exact) simp_all
  then have "\<lceil>exp_mean_log 5 0 1\<rceil> = 1" by (simp add: smoothed_value_5_0_1)
  then have "\<lceil>geometric_mean [515/100, 15/100, 115/100]\<rceil> = 1"
    using exp_mean_log_geometric_mean [of 5 0 1] by simp
  with sm one two gm show ?thesis by (simp add: counter_get_def)
qed

lemma smoothed_value_low_eval:
  assumes "0 \<le> a" "0 \<le> b" "0 \<le> c" "1 \<le> n"
    and lo: "(real_of_int n - 1) ^ 3
        < (real_of_int a + 15/100) * (real_of_int b + 15/100) * (real_of_int c + 15/100)
          * (1 - 1 / 2 ^ 48) ^ 3"
    and hi: "(real_of_int a + 15/100) * (real_of_int b + 15/100) * (real_of_int c + 15/100)
          * (1 - 1 / 2 ^ 48) ^ 3 \<le> real_of_int n ^ 3"
  shows "smoothed_value float64_low a b c = Inr n"
proof -
  let ?p = "(real_of_int a + 15/100) * (real_of_int b + 15/100) * (real_of_int c + 15/100)"
  let ?g = "exp_mean_log a b c"
  have g: "?g = root 3 ?p" using assms(1-3) by (rule exp_mean_log_root)
  have r: "root 3 (?p * (1 - 1 / 2 ^ 48) ^ 3) = ?g * (1 - 1 / 2 ^ 48)"
    unfolding g by (simp add: real_root_mult real_root_power_cancel)
  have "real_of_int n - 1 < root 3 (?p * (1 - 1 / 2 ^ 48) ^ 3)"
    using assms(4) lo by (intro root3_lower) simp_all
  moreover have "root 3 (?p * (1 - 1 / 2 ^ 48) ^ 3) \<le> real_of_int n"
    using assms(4) hi by (intro root3_upper) simp_all
  ultimately have "\<lceil>?g * (1 - 1 / 2 ^ 48)\<rceil> = n"
    unfolding r by (intro ceiling_unique) simp_all
  then show ?thesis using assms(1-3) by (simp add: smoothed_value_def Rep_float64_low)
qed

lemma smoothed_value_low_example: "smoothed_value float64_low 10 47 396621134 = Inr 5747"
  by (rule smoothed_value_low_eval) (simp_all add: power3_eq_cube)

lemma smoothed_value_example_3: "smoothed_value np 47 396621134 0 = Inr 1411"
  by (rule smoothed_value_eval) (simp_all add: power3_eq_cube)

lemma geometric_mean3_ceiling:
  fixes x y z :: real
  assumes "1 \<le> n" "(real_of_int n - 1) ^ 3 < x * y * z" "x * y * z \<le> real_of_int n ^ 3"
  shows "\<lceil>geometric_mean [x, y, z]\<rceil> = n"
proof -
  have "real_of_int n - 1 < root 3 (x * y * z)"
    using assms(1,2) by (intro root3_lower) simp_all
  moreover have "root 3 (x * y * z) \<le> real_of_int n"
    using assms(1,3) by (intro root3_upper) simp_all
  ultimately have "\<lceil>root 3 (x * y * z)\<rceil> = n" by (intro ceiling_unique) simp_all
  then show ?thesis by (simp add: geometric_mean_def numeral_3_eq_3 mult.assoc)
qed

lemma geometric_mean_example:
  "\<lceil>geometric_mean [10 + 15/100, 47 + 15/100, 396621134 + 15/100]\<rceil> = 5748"
  by (rule geometric_mean3_ceiling) (simp_all add: power3_eq_cube)

text \<open>
  C1 as stated fails: for the raw histogram \<open>{1:10, 2:47, 3:396621134}\<close> the
  ceiling of the geometric mean of \<open>10.15\<close>, \<open>47.15\<close> and \<open>396621134.15\<close>
  is 5748, the product being \<open>5747 ^ 3 + 7/8000\<close>: the mean exceeds 5747
  by less than \<open>10 ^ -11\<close>.  The float64 result of the code is
  \<open>5746.999999999998\<close>, below 5747, and \<open>_smooth_counter\<close> stores 5747 at
  count 2, as it does with every float64 pipeline whose result is not
  above 5747; \<open>float64_low\<close> is one.
\<close>

theorem smooth_counter_values_counterexample:
  "smooth_counter float64_low [(1, 10), (2, 47), (3, 396621134)]
     = Inr [(1, 10), (2, 5747), (3, 1411)]
   \<and> \<lceil>geometric_mean [10 + 15/100, 47 + 15/100, 396621134 + 15/100]\<rceil> = 5748"
proof
  show "smooth_counter float64_low [(1, 10), (2, 47), (3, 396621134)]
     = Inr [(1, 10), (2, 5747), (3, 1411)]"
    by (simp add: smooth_counter_def counter_get_def smoothed_value_low_example
        smoothed_value_example_3)
  show "\<lceil>geometric_mean [10 + 15/100, 47 + 15/100, 396621134 + 15/100]\<rceil> = 5748"
    by (rule geometric_mean_example)
qed

text \<open>
  C10: for a non-empty raw histogram whose counts are all at least 1 (and
  whose frequencies are not negative), \<open>_smooth_counter\<close> returns a Counter
  whose keys are exactly the counts from 1 to the largest raw count, each
  once; its value at every count from 2 to that maximum is at least 1, and
  a count beyond the maximum is no key and reads as 0.
\<close>

theorem smooth_counter_support:
  assumes "counter \<noteq> []" and "\<forall>(k, f) \<in> set counter. 1 \<le> k \<and> 0 \<le> f"
  shows "\<exists>sm. smooth_counter np counter = Inr sm
     \<and> py_max (map fst counter) = Max (fst ` set counter)
     \<and> distinct (map fst sm)
     \<and> fst ` set sm = {1..py_max (map fst counter)}
     \<and> (\<forall>count \<in> {2..py_max (map fst counter)}. 1 \<le> counter_get sm count)
     \<and> (\<forall>count. py_max (map fst counter) < count \<longrightarrow>
           map_of sm count = None \<and> counter_get sm count = 0)"
proof -
  let ?mx = "py_max (map fst counter)"
  have nn: "\<forall>(k, f) \<in> set counter. 0 \<le> f" using assms(2) by auto
  obtain sm where sm: "smooth_counter np counter = Inr sm"
    and dom: "fst ` set sm = {1} \<union> {2..?mx}"
    and dist: "distinct (map fst sm)"
    and inn: "\<forall>k \<in> {2..?mx}.
           smoothed_value np (counter_get counter (k - 1)) (counter_get counter k)
             (counter_get counter (k + 1)) = Inr (counter_get sm k)"
    using smooth_counter_spec [OF assms(1) nn] by blast
  have mx: "?mx = Max (fst ` set counter)"
    using assms(1) py_max_Max [of "map fst counter"] by simp
  have "Max (fst ` set counter) \<in> fst ` set counter"
    using assms(1) by (intro Max_in) simp_all
  then have "1 \<le> ?mx" using assms(2) mx by auto
  then have dom': "fst ` set sm = {1..?mx}" using dom by auto
  have pos: "\<forall>count \<in> {2..?mx}. 1 \<le> counter_get sm count"
    using inn smoothed_value_ge1 by blast
  have beyond: "\<forall>count. ?mx < count \<longrightarrow> map_of sm count = None \<and> counter_get sm count = 0"
  proof (intro allI impI)
    fix count assume "?mx < count"
    then have "count \<notin> fst ` set sm" using dom' by simp
    then have "map_of sm count = None" by (simp add: map_of_eq_None_iff)
    then show "map_of sm count = None \<and> counter_get sm count = 0"
      by (simp add: counter_get_def)
  qed
  from sm mx dist dom' pos beyond show ?thesis by blast
qed

theorem smooth_counter_support_witness:
  "\<exists>sm. smooth_counter float64_low [(3, 1)] = Inr sm
     \<and> fst ` set sm = {1..3}
     \<and> 1 \<le> counter_get sm 2 \<and> 1 \<le> counter_get sm 3
     \<and> counter_get sm 4 = 0"
proof -
  let ?c = "[(3, 1)] :: counter"
  have ne: "?c \<noteq> []" by simp
  have ok: "\<forall>(k, f) \<in> set ?c. 1 \<le> k \<and> 0 \<le> f" by simp
  have mx: "py_max (map fst ?c) = 3" by simp
  obtain sm where sm: "smooth_counter float64_low ?c = Inr sm"
    and dom: "fst ` set sm = {1..py_max (map fst ?c)}"
    and pos: "\<forall>count \<in> {2..py_max (map fst ?c)}. 1 \<le> counter_get sm count"
    and beyond: "\<forall>count. py_max (map fst ?c) < count \<longrightarrow>
           map_of sm count = None \<and> counter_get sm count = 0"
    using smooth_counter_support [OF ne ok, of float64_low] by blast
  have "1 \<le> counter_get sm 2" "1 \<le> counter_get sm 3" "counter_get sm 4 = 0"
    using pos beyond unfolding mx by simp_all
  with sm dom mx show ?thesis by simp
qed

section \<open>Scenario: AtomLL\<close>

text \<open>
  C2: fit on the fingerprints \<open>{1:2, 2:1}\<close> and \<open>{1:1, 3:3}\<close> with smoothing
  0.1, estimated keyspace 10 and alpha 0 gives the statistics
  \<open>{1:3, 2:1, 3:3}\<close> and 7 observations, and the fingerprint \<open>{1:1}\<close> then
  scores \<open>ln ((3 + 0.1) / (7 + 1.0))\<close>.  The molecules are their own
  fingerprints here.
\<close>

theorem AtomLL_scenario:
  "AtomLL_fit (\<lambda>r fp. fp) (init_BaseLL (1/10) 10 0 1) [[(1, 2), (2, 1)], [(1, 1), (3, 3)]]
     = Inr \<lparr>smoothing = 1/10, estimated_keyspace = 10, alpha = 0, radius = 1,
            key_data = Some [(1, 3), (2, 1), (3, 3)], n_observations = 7\<rparr>
   \<and> AtomLL_calculate_ll (\<lambda>r fp. fp)
        \<lparr>smoothing = 1/10, estimated_keyspace = 10, alpha = 0, radius = 1,
         key_data = Some [(1, 3), (2, 1), (3, 3)], n_observations = 7\<rparr> [(1, 1)]
     = Inr (ln ((3 + 1/10) / (7 + 1)))"
  by (simp add: AtomLL_fit_def AtomLL_calculate_observations_def init_BaseLL_def get_fp_def
      fp_items_def counter_get_def AtomLL_calculate_ll_def ll_step_def likelihood_def
      py_truediv_def math_log_def ll_corrected_def py_pow_def)

section \<open>MolLL.fit\<close>

lemma sum_list_update:
  fixes f :: "'k \<times> 'v \<Rightarrow> int"
  shows "sum_list (map f (AList.update k v al)) =
     sum_list (map f al) - (case map_of al k of None \<Rightarrow> 0 | Some v' \<Rightarrow> f (k, v')) + f (k, v)"
  by (induction al) auto

lemma counter_observations_count:
  "counter_observations (Counter_update_elems c [count]) = counter_observations c + count"
  by (simp add: counter_observations_def sum_list_update counter_get_def algebra_simps
      split: option.splits)

lemma key_data_observations_observe:
  "key_data_observations (MolLL_observe kd key count) = key_data_observations kd + count"
proof (cases "map_of kd key")
  case None
  then have "map_of (AList.update key [] kd) key = Some []" by (simp add: update_conv')
  then show ?thesis using None counter_observations_count [of "[]" count]
    by (simp add: MolLL_observe_def defaultdict_getitem_def key_data_observations_def
        sum_list_update counter_observations_def del: Counter_update_elems.simps)
next
  case (Some c)
  then show ?thesis using counter_observations_count [of c count]
    by (simp add: MolLL_observe_def defaultdict_getitem_def key_data_observations_def
        sum_list_update del: Counter_update_elems.simps)
qed

lemma key_data_observations_fold:
  "key_data_observations
     (fold (\<lambda>(key, count) kd'. MolLL_observe kd' (FragKey key) (int count)) fp kd)
   = key_data_observations kd + int (sum_list (map snd fp))"
  by (induction fp arbitrary: kd) (auto simp: key_data_observations_observe)

lemma key_data_observations_mol:
  "key_data_observations (MolLL_observe_mol kd fp)
     = key_data_observations kd + 2 * int (sum_list (map snd fp))"
  by (simp add: MolLL_observe_mol_def key_data_observations_observe key_data_observations_fold)

lemma key_data_observations_mols:
  "key_data_observations (fold (\<lambda>mol kd. MolLL_observe_mol kd (get_fp ext self mol)) mols kd)
     = key_data_observations kd
       + 2 * (\<Sum>mol\<leftarrow>mols. int (sum_list (map snd (get_fp ext self mol))))"
  by (induction mols arbitrary: kd) (simp_all add: key_data_observations_mol algebra_simps)


lemma set_update_subset: "set (AList.update k v al) \<subseteq> insert (k, v) (set al)"
  by (induction al) auto

lemma raw_counter_count:
  assumes "c = [] \<or> raw_counter c" and "0 \<le> count"
  shows "raw_counter (Counter_update_elems c [count])"
proof -
  let ?c' = "AList.update count (counter_get c count + 1) c"
  have all: "\<forall>(k, f) \<in> set c. 0 \<le> k \<and> 1 \<le> f" and dist: "distinct (map fst c)"
    using assms(1) by (auto simp: raw_counter_def)
  have "0 \<le> counter_get c count"
    using all by (intro counter_get_nonneg) auto
  then have "\<forall>(k, f) \<in> insert (count, counter_get c count + 1) (set c). 0 \<le> k \<and> 1 \<le> f"
    using all assms(2) by auto
  then have "\<forall>(k, f) \<in> set ?c'. 0 \<le> k \<and> 1 \<le> f"
    using set_update_subset [of count "counter_get c count + 1" c] by blast
  moreover have "?c' \<noteq> []" by (cases c) auto
  moreover have "distinct (map fst ?c')" using dist by (simp add: distinct_update)
  ultimately show ?thesis by (simp add: raw_counter_def)
qed

lemma raw_key_data_observe:
  assumes "raw_key_data kd" and "0 \<le> count"
  shows "raw_key_data (MolLL_observe kd key count)"
proof -
  obtain c kd' where g: "defaultdict_getitem kd key = (c, kd')" by (cases "defaultdict_getitem kd key")
  have c: "c = [] \<or> raw_counter c"
  proof (cases "map_of kd key")
    case None
    then show ?thesis using g by (simp add: defaultdict_getitem_def)
  next
    case (Some c')
    then have "(key, c') \<in> set kd" by (rule map_of_SomeD)
    then show ?thesis using g Some assms(1) by (auto simp: defaultdict_getitem_def raw_key_data_def)
  qed
  have kd': "distinct (map fst kd')" "set kd' \<subseteq> insert (key, []) (set kd)"
    using g assms(1) set_update_subset [of key "[]" kd]
    by (auto simp: defaultdict_getitem_def raw_key_data_def distinct_update split: option.splits)
  let ?new = "Counter_update_elems c [count]"
  have new: "raw_counter ?new" using c assms(2) by (rule raw_counter_count)
  have dist: "distinct (map fst (AList.update key ?new kd'))"
    using kd'(1) by (simp add: distinct_update)
  have "\<forall>(k, c) \<in> set (AList.update key ?new kd'). raw_counter c"
  proof (intro ballI, clarify)
    fix k c'' assume in': "(k, c'') \<in> set (AList.update key ?new kd')"
    show "raw_counter c''"
    proof (cases "k = key")
      case True
      have "map_of (AList.update key ?new kd') k = Some c''"
        using in' dist by simp
      then show ?thesis using True new by (simp add: update_conv')
    next
      case False
      then have "(k, c'') \<in> set kd'"
        using in' set_update_subset [of key ?new kd'] by auto
      then have "(k, c'') \<in> set kd" using kd'(2) False by auto
      then show ?thesis using assms(1) by (auto simp: raw_key_data_def)
    qed
  qed
  with dist show ?thesis using g by (simp add: MolLL_observe_def raw_key_data_def)
qed

lemma raw_key_data_fold:
  "raw_key_data kd \<Longrightarrow>
   raw_key_data (fold (\<lambda>(key, count) kd'. MolLL_observe kd' (FragKey key) (int count)) fp kd)"
  by (induction fp arbitrary: kd) (auto simp: raw_key_data_observe)

lemma raw_key_data_mol: "raw_key_data kd \<Longrightarrow> raw_key_data (MolLL_observe_mol kd fp)"
  by (simp add: MolLL_observe_mol_def raw_key_data_observe raw_key_data_fold)

lemma raw_key_data_mols:
  "raw_key_data kd \<Longrightarrow>
   raw_key_data (fold (\<lambda>mol kd. MolLL_observe_mol kd (get_fp ext self mol)) mols kd)"
  by (induction mols arbitrary: kd) (simp_all add: raw_key_data_mol)

lemma raw_key_data_fit: "raw_key_data (MolLL_raw_key_data ext self mols)"
  unfolding MolLL_raw_key_data_def by (rule raw_key_data_mols) (simp add: raw_key_data_def)


lemma update_append_fresh:
  "key \<notin> fst ` set done \<Longrightarrow>
   AList.update key v (done @ (key, c) # rest) = done @ (key, v) # rest"
  by (induction "done") auto

lemma smooth_items_append:
  assumes "distinct (map fst (done @ items))"
    and "\<forall>(key, c) \<in> set items. \<exists>s. smooth_counter np c = Inr s"
  shows "\<exists>items'. smooth_items np items (done @ items) = Inr (done @ items')
     \<and> list_all2 (\<lambda>(key, c) (key', c'). key' = key \<and> smooth_counter np c = Inr c') items items'"
  using assms
proof (induction items arbitrary: "done")
  case Nil
  show ?case by simp
next
  case (Cons item items)
  obtain key c where item: "item = (key, c)" by (cases item)
  obtain s where s: "smooth_counter np c = Inr s" using Cons.prems(2) item by auto
  have fresh: "key \<notin> fst ` set done" using Cons.prems(1) item by auto
  have upd: "AList.update key s (done @ (key, c) # items) = (done @ [(key, s)]) @ items"
    using update_append_fresh [OF fresh] by simp
  have "distinct (map fst ((done @ [(key, s)]) @ items))" using Cons.prems(1) item by auto
  moreover have "\<forall>(key, c) \<in> set items. \<exists>s. smooth_counter np c = Inr s"
    using Cons.prems(2) by auto
  ultimately obtain items' where
    r: "smooth_items np items ((done @ [(key, s)]) @ items) = Inr ((done @ [(key, s)]) @ items')"
    and l: "list_all2 (\<lambda>(key, c) (key', c'). key' = key \<and> smooth_counter np c = Inr c') items items'"
    using Cons.IH [of "done @ [(key, s)]"] by blast
  have "smooth_items np (item # items) (done @ item # items) = Inr (done @ (key, s) # items')"
    using item s upd r by simp
  moreover have "list_all2 (\<lambda>(key, c) (key', c'). key' = key \<and> smooth_counter np c = Inr c')
      (item # items) ((key, s) # items')"
    using item s l by simp
  ultimately show ?case by blast
qed

lemma raw_counter_smooth:
  assumes "raw_counter c"
  shows "\<exists>s. smooth_counter np c = Inr s"
proof -
  have "c \<noteq> []" "\<forall>(k, f) \<in> set c. 0 \<le> f" using assms by (auto simp: raw_counter_def)
  then show ?thesis using smooth_counter_spec by blast
qed

lemma smooth_items_raw:
  assumes "raw_key_data kd"
  shows "\<exists>kd'. smooth_items np kd kd = Inr kd'
     \<and> list_all2 (\<lambda>(key, c) (key', c'). key' = key \<and> smooth_counter np c = Inr c') kd kd'"
proof -
  have "distinct (map fst ([] @ kd))" using assms by (simp add: raw_key_data_def)
  moreover have "\<forall>(key, c) \<in> set kd. \<exists>s. smooth_counter np c = Inr s"
    using assms raw_counter_smooth by (auto simp: raw_key_data_def)
  ultimately show ?thesis using smooth_items_append [of "[]" kd] by simp
qed

text \<open>
  C3, as the code has it: \<open>MolLL.fit\<close> always returns, and its
  \<open>_n_observations\<close> is the sum of count times frequency over the raw
  statistics, the reserved key included, as they stand before
  \<open>_smooth_all_counters\<close> replaces them; that is twice the number of
  fragment occurrences in the training molecules.  The statistics it
  leaves are the smoothed ones, over which the sum is not taken again.
\<close>

theorem MolLL_fit_observations:
  "\<exists>self' kd'. MolLL_fit np ext self mols = Inr self'
     \<and> smooth_items np (MolLL_raw_key_data ext self mols) (MolLL_raw_key_data ext self mols) = Inr kd'
     \<and> key_data self' = Some kd'
     \<and> n_observations self' = key_data_observations (MolLL_raw_key_data ext self mols)
     \<and> n_observations self'
         = 2 * (\<Sum>mol\<leftarrow>mols. int (sum_list (map snd (get_fp ext self mol))))"
proof -
  let ?raw = "MolLL_raw_key_data ext self mols"
  obtain kd' where kd': "smooth_items np ?raw ?raw = Inr kd'"
    using smooth_items_raw [OF raw_key_data_fit] by blast
  let ?self' = "self\<lparr>key_data := Some kd', n_observations := key_data_observations ?raw\<rparr>"
  have "MolLL_fit np ext self mols = Inr ?self'"
    using kd' by (simp add: MolLL_fit_def MolLL_calculate_observations_def
        MolLL_smooth_all_counters_def)
  moreover have "key_data_observations ?raw
      = 2 * (\<Sum>mol\<leftarrow>mols. int (sum_list (map snd (get_fp ext self mol))))"
    using key_data_observations_mols [of ext self mols "[]"]
    by (simp add: MolLL_raw_key_data_def key_data_observations_def)
  ultimately show ?thesis using kd' by simp
qed

lemma smooth_counter_3_1: "smooth_counter np [(3, 1)] = Inr [(1, 0), (2, 1), (3, 1)]"
  by (simp add: smooth_counter_def counter_get_def smoothed_value_0_1_0 smoothed_value_0_0_1)

text \<open>
  C3 as stated fails: fit on the single fingerprint \<open>{7:3}\<close> counts 6
  observations, and the sum of count times frequency over the fitted
  (smoothed) statistics is 10.  The smoothed values, each the ceiling of
  a mean below 1, are the same for every member of \<open>numpy_float64\<close>.
\<close>

theorem MolLL_fit_observations_counterexample:
  "MolLL_fit float64_low (\<lambda>r fp. fp) (init_BaseLL (1/10) 2000000 1 1) [[(7, 3)]]
     = Inr \<lparr>smoothing = 1/10, estimated_keyspace = 2000000, alpha = 1, radius = 1,
            key_data = Some [(FragKey 7, [(1, 0), (2, 1), (3, 1)]),
                             (SampleObservationSum, [(1, 0), (2, 1), (3, 1)])],
            n_observations = 6\<rparr>
   \<and> key_data_observations [(FragKey 7, [(1, 0), (2, 1), (3, 1)]),
                             (SampleObservationSum, [(1, 0), (2, 1), (3, 1)])] = 10"
  by (simp add: MolLL_fit_def MolLL_raw_key_data_def MolLL_observe_mol_def MolLL_observe_def
      defaultdict_getitem_def get_fp_def init_BaseLL_def counter_get_def
      MolLL_calculate_observations_def key_data_observations_def counter_observations_def
      MolLL_smooth_all_counters_def smooth_counter_3_1)

section \<open>Scoring\<close>

lemma ll_corrected_zero:
  "ll_corrected self (0, 0) = (if alpha self = 0 then Inr 0 else Inl ZeroDivisionError)"
  by (simp add: ll_corrected_def py_pow_def py_truediv_def)

lemma ll_step_zero:
  "ll_step self stat 0 (0, 0) = Inr acc \<Longrightarrow> acc = (0, 0)"
  by (auto simp: ll_step_def split: sum.splits)

lemma ll_step_error:
  "ll_step self stat n acc = Inl e \<Longrightarrow> e = ZeroDivisionError \<or> e = ValueError"
  by (auto simp: ll_step_def likelihood_def py_truediv_def math_log_def split: sum.splits if_splits)

lemma smooth_counter_1_1: "smooth_counter np [(1, 1)] = Inr [(1, 1)]"
  by (simp add: smooth_counter_def counter_get_def)

text \<open>
  C4: \<open>MolLL.calculate_ll\<close> changes the fitted statistics.  The model
  fitted on the fingerprint \<open>{1:1}\<close> scores the fingerprint \<open>{2:1}\<close>;
  the lookup of the unseen key 2 in the defaultdict stores an empty
  Counter under it, and the model is left with three keys instead of two.
  (No float64 rounding enters: the smoothing of \<open>{1:1}\<close> computes no mean.)
\<close>

theorem MolLL_calculate_ll_inserts_key:
  "MolLL_fit float64_low (\<lambda>r fp. fp) (init_BaseLL (1/10) 10 1 1) [[(1, 1)]]
     = Inr \<lparr>smoothing = 1/10, estimated_keyspace = 10, alpha = 1, radius = 1,
            key_data = Some [(FragKey 1, [(1, 1)]), (SampleObservationSum, [(1, 1)])],
            n_observations = 2\<rparr>
   \<and> MolLL_calculate_ll (\<lambda>r fp. fp)
        \<lparr>smoothing = 1/10, estimated_keyspace = 10, alpha = 1, radius = 1,
         key_data = Some [(FragKey 1, [(1, 1)]), (SampleObservationSum, [(1, 1)])],
         n_observations = 2\<rparr> [(2, 1)]
     = (Inr ((ln ((1/10) / 3) + ln ((11/10) / 3)) / 2),
        \<lparr>smoothing = 1/10, estimated_keyspace = 10, alpha = 1, radius = 1,
         key_data = Some [(FragKey 1, [(1, 1)]), (SampleObservationSum, [(1, 1)]), (FragKey 2, [])],
         n_observations = 2\<rparr>)"
  by (simp add: MolLL_fit_def MolLL_raw_key_data_def MolLL_observe_mol_def MolLL_observe_def
      defaultdict_getitem_def get_fp_def init_BaseLL_def counter_get_def
      MolLL_calculate_observations_def key_data_observations_def counter_observations_def
      MolLL_smooth_all_counters_def smooth_counter_1_1
      MolLL_calculate_ll_def MolLL_items_def ll_step_def likelihood_def py_truediv_def
      math_log_def ll_corrected_def py_pow_def)

section \<open>Scoring a list\<close>

lemma same_statistics_refl: "same_statistics m m"
  by (simp add: same_statistics_def split: option.splits)

lemma same_statistics_trans:
  "same_statistics m m' \<Longrightarrow> same_statistics m' m'' \<Longrightarrow> same_statistics m m''"
  by (auto simp: same_statistics_def split: option.splits)

lemma mol_lookup_getitem:
  assumes "defaultdict_getitem kd key = (c, kd')"
  shows "mol_lookup kd' = mol_lookup kd"
proof (cases "map_of kd key")
  case None
  then have kd': "kd' = AList.update key [] kd" using assms by (simp add: defaultdict_getitem_def)
  show ?thesis
  proof (intro ext)
    fix k n
    show "mol_lookup kd' k n = mol_lookup kd k n"
      using None kd' by (cases "k = key")
        (simp_all add: mol_lookup_def defaultdict_getitem_def update_conv' counter_get_def
          split: option.splits)
  qed
next
  case (Some c')
  then show ?thesis using assms by (simp add: defaultdict_getitem_def)
qed

lemma ll_step_cong:
  "same_statistics m m' \<Longrightarrow> ll_step m stat n acc = ll_step m' stat n acc"
  by (simp add: same_statistics_def ll_step_def likelihood_def)

lemma ll_step_key_data: "ll_step (m\<lparr>key_data := kd\<rparr>) stat n acc = ll_step m stat n acc"
  by (simp add: ll_step_def likelihood_def)

lemma same_statistics_getitem:
  assumes "key_data m = Some kd" "defaultdict_getitem kd key = (c, kd')"
  shows "same_statistics m (m\<lparr>key_data := Some kd'\<rparr>)"
  using assms mol_lookup_getitem [OF assms(2)] by (simp add: same_statistics_def)

lemma MolLL_ll_loop_same:
  "same_statistics m (snd (MolLL_ll_loop m items acc))"
proof (induction items arbitrary: m acc)
  case Nil
  show ?case by (simp add: same_statistics_refl)
next
  case (Cons item items)
  obtain key counts where item: "item = (key, counts)" by (cases item)
  show ?case
  proof (cases "key_data m")
    case None
    then show ?thesis using item by (simp add: same_statistics_refl)
  next
    case (Some kd)
    obtain c kd' where g: "defaultdict_getitem kd key = (c, kd')"
      by (cases "defaultdict_getitem kd key")
    have s: "same_statistics m (m\<lparr>key_data := Some kd'\<rparr>)"
      using Some g by (rule same_statistics_getitem)
    show ?thesis
    proof (cases "ll_step m (counter_get c (int counts)) counts acc")
      case (Inl e)
      then show ?thesis using item Some g s by simp
    next
      case (Inr acc')
      have "same_statistics (m\<lparr>key_data := Some kd'\<rparr>)
          (snd (MolLL_ll_loop (m\<lparr>key_data := Some kd'\<rparr>) items acc'))"
        by (rule Cons.IH)
      with s have "same_statistics m (snd (MolLL_ll_loop (m\<lparr>key_data := Some kd'\<rparr>) items acc'))"
        by (rule same_statistics_trans)
      then show ?thesis using item Some g Inr by simp
    qed
  qed
qed

lemma MolLL_ll_loop_cong:
  "same_statistics m m' \<Longrightarrow> fst (MolLL_ll_loop m items acc) = fst (MolLL_ll_loop m' items acc)"
proof (induction items arbitrary: m m' acc)
  case Nil
  show ?case by simp
next
  case (Cons item items)
  obtain key counts where item: "item = (key, counts)" by (cases item)
  show ?case
  proof (cases "key_data m")
    case None
    then have "key_data m' = None" using Cons.prems by (simp add: same_statistics_def split: option.splits)
    with None item show ?thesis by simp
  next
    case (Some kd)
    then obtain kd0 where Some': "key_data m' = Some kd0" and lk: "mol_lookup kd = mol_lookup kd0"
      using Cons.prems by (auto simp: same_statistics_def split: option.splits)
    obtain c kd' where g: "defaultdict_getitem kd key = (c, kd')"
      by (cases "defaultdict_getitem kd key")
    obtain c0 kd0' where g0: "defaultdict_getitem kd0 key = (c0, kd0')"
      by (cases "defaultdict_getitem kd0 key")
    have "mol_lookup kd key (int counts) = mol_lookup kd0 key (int counts)" using lk by simp
    then have cc: "counter_get c (int counts) = counter_get c0 (int counts)"
      using g g0 by (simp add: mol_lookup_def)
    have st: "ll_step m (counter_get c (int counts)) counts acc
        = ll_step m' (counter_get c0 (int counts)) counts acc"
      using cc ll_step_cong [OF Cons.prems] by simp
    have s1: "same_statistics (m\<lparr>key_data := Some kd'\<rparr>) (m'\<lparr>key_data := Some kd0'\<rparr>)"
      using Cons.prems lk mol_lookup_getitem [OF g] mol_lookup_getitem [OF g0]
      by (simp add: same_statistics_def)
    show ?thesis
    proof (cases "ll_step m (counter_get c (int counts)) counts acc")
      case (Inl e)
      then show ?thesis using item Some Some' g g0 st by simp
    next
      case (Inr acc')
      then show ?thesis using item Some Some' g g0 st Cons.IH [OF s1, of acc'] by simp
    qed
  qed
qed

lemma ll_corrected_cong:
  "alpha m = alpha m' \<Longrightarrow> ll_corrected m acc = ll_corrected m' acc"
  by (simp add: ll_corrected_def)

lemma MolLL_calculate_ll_same:
  "same_statistics m (snd (MolLL_calculate_ll ext m mol))"
  using MolLL_ll_loop_same [of m "MolLL_items (get_fp ext m mol)" "(0, 0)"]
  by (auto simp: MolLL_calculate_ll_def split: prod.splits sum.splits)

lemma MolLL_calculate_ll_cong:
  assumes "same_statistics m m'"
  shows "fst (MolLL_calculate_ll ext m mol) = fst (MolLL_calculate_ll ext m' mol)"
proof -
  have fp: "get_fp ext m mol = get_fp ext m' mol"
    using assms by (simp add: get_fp_def same_statistics_def)
  let ?items = "MolLL_items (get_fp ext m mol)"
  have l: "fst (MolLL_ll_loop m ?items (0, 0)) = fst (MolLL_ll_loop m' ?items (0, 0))"
    using assms by (rule MolLL_ll_loop_cong)
  have a: "alpha (snd (MolLL_ll_loop m ?items (0, 0))) = alpha (snd (MolLL_ll_loop m' ?items (0, 0)))"
    using MolLL_ll_loop_same [of m ?items "(0, 0)"] MolLL_ll_loop_same [of m' ?items "(0, 0)"] assms
    by (simp add: same_statistics_def)
  show ?thesis
    using l a fp ll_corrected_cong [OF a]
    by (cases "MolLL_ll_loop m ?items (0, 0)"; cases "MolLL_ll_loop m' ?items (0, 0)")
       (auto simp: MolLL_calculate_ll_def split: sum.splits)
qed

lemma calculate_lls_list_all2:
  assumes tr: "\<And>m m' m''. R m m' \<Longrightarrow> R m' m'' \<Longrightarrow> R m m''"
    and step: "\<And>m x. R m (snd (calc m x))"
    and cong: "\<And>m m' x. R m m' \<Longrightarrow> fst (calc m x) = fst (calc m' x)"
  shows "R m m0 \<Longrightarrow>
    fst (calculate_lls calc m0 mols) = Inr lls
      \<longleftrightarrow> list_all2 (\<lambda>mol ll. fst (calc m mol) = Inr ll) mols lls"
proof (induction mols arbitrary: m0 lls)
  case Nil
  show ?case by auto
next
  case (Cons mol mols)
  obtain r m1 where c: "calc m0 mol = (r, m1)" by (cases "calc m0 mol")
  have r: "fst (calc m mol) = r" using cong [OF Cons.prems, of mol] c by simp
  have R1: "R m m1" using tr [OF Cons.prems step [of m0 mol]] c by simp
  show ?case
  proof (cases r)
    case (Inl e)
    then show ?thesis using c r by (auto simp: list_all2_Cons1)
  next
    case (Inr ll)
    obtain rs m2 where cs: "calculate_lls calc m1 mols = (rs, m2)"
      by (cases "calculate_lls calc m1 mols")
    show ?thesis
    proof (cases rs)
      case (Inl e)
      then have "\<And>lls'. \<not> list_all2 (\<lambda>mol ll. fst (calc m mol) = Inr ll) mols lls'"
        using Cons.IH [OF R1] cs by (metis fst_conv sum.distinct(1))
      then show ?thesis using c cs Inr Inl by (auto simp: list_all2_Cons1)
    next
      case (Inr lls1)
      then have "\<And>lls'. list_all2 (\<lambda>mol ll. fst (calc m mol) = Inr ll) mols lls' \<longleftrightarrow> lls' = lls1"
        using Cons.IH [OF R1] cs by (metis fst_conv sum.inject(2))
      then show ?thesis using c cs \<open>r = Inr ll\<close> Inr r by (auto simp: list_all2_Cons1)
    qed
  qed
qed

text \<open>
  C9: for both classes, \<open>calculate_lls\<close> returns the list \<open>lls\<close> exactly
  when \<open>lls\<close> is as long as the list of molecules and its \<open>i\<close>-th
  element is what \<open>calculate_ll\<close> returns for the \<open>i\<close>-th molecule on the
  model as it was before the call; so it returns a list whenever every
  single score does, and raises when one of them raises.  For MolLL the
  empty Counters that earlier calls insert change no later score.
\<close>

theorem calculate_lls_elementwise:
  "(fst (calculate_lls (AtomLL_calculate_ll_state ext) a mols) = Inr lls
      \<longleftrightarrow> length lls = length mols
          \<and> (\<forall>i < length mols. AtomLL_calculate_ll ext a (mols ! i) = Inr (lls ! i)))
   \<and> (fst (calculate_lls (MolLL_calculate_ll ext) m mols) = Inr lls'
      \<longleftrightarrow> length lls' = length mols
          \<and> (\<forall>i < length mols. fst (MolLL_calculate_ll ext m (mols ! i)) = Inr (lls' ! i)))"
proof
  have "fst (calculate_lls (AtomLL_calculate_ll_state ext) a mols) = Inr lls
      \<longleftrightarrow> list_all2 (\<lambda>mol ll. fst (AtomLL_calculate_ll_state ext a mol) = Inr ll) mols lls"
    by (rule calculate_lls_list_all2 [where R = "(=)"])
       (simp_all add: AtomLL_calculate_ll_state_def)
  then show "fst (calculate_lls (AtomLL_calculate_ll_state ext) a mols) = Inr lls
      \<longleftrightarrow> length lls = length mols
          \<and> (\<forall>i < length mols. AtomLL_calculate_ll ext a (mols ! i) = Inr (lls ! i))"
    by (auto simp: list_all2_conv_all_nth AtomLL_calculate_ll_state_def)
next
  have "fst (calculate_lls (MolLL_calculate_ll ext) m mols) = Inr lls'
      \<longleftrightarrow> list_all2 (\<lambda>mol ll. fst (MolLL_calculate_ll ext m mol) = Inr ll) mols lls'"
    by (rule calculate_lls_list_all2 [where R = same_statistics])
       (auto intro: same_statistics_trans same_statistics_refl MolLL_calculate_ll_same
          MolLL_calculate_ll_cong)
  then show "fst (calculate_lls (MolLL_calculate_ll ext) m mols) = Inr lls'
      \<longleftrightarrow> length lls' = length mols
          \<and> (\<forall>i < length mols. fst (MolLL_calculate_ll ext m (mols ! i)) = Inr (lls' ! i))"
    by (auto simp: list_all2_conv_all_nth)
qed


theorem calculate_lls_elementwise_witness:
  "fst (calculate_lls (AtomLL_calculate_ll_state (\<lambda>r fp. fp))
      \<lparr>smoothing = 1/10, estimated_keyspace = 10, alpha = 1, radius = 1,
       key_data = Some [(1, 3), (2, 1), (3, 3)], n_observations = 7\<rparr>
      [[(1, 1)], [(2, 1)], [(4, 1)]])
     = Inr [ln ((31/10) / 8), ln ((11/10) / 8), ln ((1/10) / 8)]
   \<and> fst (calculate_lls (MolLL_calculate_ll (\<lambda>r fp. fp))
      \<lparr>smoothing = 1/10, estimated_keyspace = 10, alpha = 1, radius = 1,
       key_data = Some [(FragKey 1, [(1, 1)]), (SampleObservationSum, [(1, 1)])],
       n_observations = 2\<rparr>
      [[(1, 1)], [(2, 1)], [(4, 1)]])
     = Inr [(ln ((11/10) / 3) + ln ((11/10) / 3)) / 2,
            (ln ((1/10) / 3) + ln ((11/10) / 3)) / 2,
            (ln ((1/10) / 3) + ln ((11/10) / 3)) / 2]"
  using calculate_lls_elementwise [of "\<lambda>r fp. fp"
      "\<lparr>smoothing = 1/10, estimated_keyspace = 10, alpha = 1, radius = 1,
       key_data = Some [(1, 3), (2, 1), (3, 3)], n_observations = 7\<rparr>"
      "[[(1, 1)], [(2, 1)], [(4, 1)]]"
      "[ln ((31/10) / 8), ln ((11/10) / 8), ln ((1/10) / 8)]"
      "\<lparr>smoothing = 1/10, estimated_keyspace = 10, alpha = 1, radius = 1,
       key_data = Some [(FragKey 1, [(1, 1)]), (SampleObservationSum, [(1, 1)])],
       n_observations = 2\<rparr>"
      "[(ln ((11/10) / 3) + ln ((11/10) / 3)) / 2,
        (ln ((1/10) / 3) + ln ((11/10) / 3)) / 2,
        (ln ((1/10) / 3) + ln ((11/10) / 3)) / 2]"]
  by (simp add: All_less_Suc AtomLL_calculate_ll_def MolLL_calculate_ll_def MolLL_items_def
      get_fp_def counter_get_def defaultdict_getitem_def ll_step_def likelihood_def
      py_truediv_def math_log_def ll_corrected_def py_pow_def
      del: calculate_lls.simps)

section \<open>Bounds of the likelihood\<close>

lemma likelihood_ok:
  assumes "0 < smoothing self" "1 \<le> estimated_keyspace self"
    and "0 \<le> stat" "stat \<le> n_observations self"
  shows "\<exists>L. likelihood self stat = Inr L \<and> 0 < L \<and> L \<le> 1
      \<and> math_log L = Inr (ln L) \<and> ln L \<le> 0
      \<and> (stat = 0 \<longrightarrow> (ln L < 0) = (1 < estimated_keyspace self \<or> 0 < n_observations self))"
proof -
  let ?s = "smoothing self" and ?K = "estimated_keyspace self"
  let ?num = "real_of_int stat + ?s"
  let ?den = "real_of_int (n_observations self) + ?K * ?s"
  have ks: "?s \<le> ?K * ?s" using assms(1,2) by simp
  have num: "0 < ?num" using assms(1,3) by (simp add: add_nonneg_pos)
  have le: "?num \<le> ?den" using ks assms(4) by (simp add: add_mono)
  have den: "0 < ?den" using num le by linarith
  have L: "likelihood self stat = Inr (?num / ?den)"
    using den by (simp add: likelihood_def py_truediv_def)
  have pos: "0 < ?num / ?den" using num den by simp
  have le1: "?num / ?den \<le> 1" using le den by simp
  have strict: "stat = 0 \<longrightarrow> (ln (?num / ?den) < 0) = (1 < ?K \<or> 0 < n_observations self)"
  proof
    assume z: "stat = 0"
    have n: "0 \<le> n_observations self" using assms(3,4) by simp
    have "(ln (?num / ?den) < 0) = (?num / ?den < 1)" using pos by (rule ln_less_zero_iff)
    also have "\<dots> = (?num < ?den)" using den by simp
    also have "\<dots> = (0 < real_of_int (n_observations self) + (?K - 1) * ?s)"
      using z by (simp add: algebra_simps)
    also have "\<dots> = (1 < ?K \<or> 0 < n_observations self)"
    proof (cases "1 < ?K")
      case True
      then have "0 < (?K - 1) * ?s" using assms(1) by simp
      then show ?thesis using True n by (simp add: add_nonneg_pos)
    next
      case False
      then have "?K = 1" using assms(2) by simp
      then show ?thesis by simp
    qed
    finally show "(ln (?num / ?den) < 0) = (1 < ?K \<or> 0 < n_observations self)" .
  qed
  show ?thesis using L pos le1 strict by (simp add: math_log_def)
qed

lemma ll_step_ok:
  assumes "0 < smoothing self" "1 \<le> estimated_keyspace self"
    and "0 \<le> stat" "stat \<le> n_observations self"
  shows "\<exists>acc'. ll_step self stat num acc = Inr acc' \<and> snd acc' = snd acc + num"
proof -
  obtain L where "likelihood self stat = Inr L" "math_log L = Inr (ln L)"
    using likelihood_ok [OF assms] by blast
  then show ?thesis by (simp add: ll_step_def)
qed

lemma ll_corrected_ok:
  assumes "0 < snd acc"
  shows "\<exists>ll. ll_corrected self acc = Inr ll"
  using assms by (simp add: ll_corrected_def py_pow_def py_truediv_def)

lemma member_le_sum_list_int:
  fixes xs :: "int list"
  assumes "\<forall>x \<in> set xs. 0 \<le> x" and "v \<in> set xs"
  shows "v \<le> sum_list xs"
  using assms
proof (induction xs)
  case Nil
  then show ?case by simp
next
  case (Cons x xs)
  have nn: "0 \<le> sum_list xs" using Cons.prems(1) by (intro sum_list_nonneg) simp
  show ?case
  proof (cases "v = x")
    case True
    then show ?thesis using nn by simp
  next
    case False
    then have "v \<le> sum_list xs" using Cons by simp
    moreover have "0 \<le> x" using Cons.prems(1) by simp
    ultimately show ?thesis by simp
  qed
qed

lemma counter_get_le_sum:
  assumes "\<forall>(k, v) \<in> set c. 0 \<le> v"
  shows "counter_get c key \<le> sum_list (map snd c)"
proof (cases "map_of c key")
  case None
  have "0 \<le> sum_list (map snd c)" using assms by (intro sum_list_nonneg) auto
  with None show ?thesis by (simp add: counter_get_def)
next
  case (Some v)
  then have "(key, v) \<in> set c" by (rule map_of_SomeD)
  then have "v \<in> set (map snd c)" by force
  moreover have "\<forall>x \<in> set (map snd c). 0 \<le> x" using assms by auto
  ultimately have "v \<le> sum_list (map snd c)" by (intro member_le_sum_list_int)
  with Some show ?thesis by (simp add: counter_get_def)
qed

lemma Counter_update_mapping_nonneg:
  assumes "\<forall>(k, v) \<in> set c. 0 \<le> v" and "\<forall>(k, v) \<in> set items. 0 \<le> v"
  shows "\<forall>(k, v) \<in> set (Counter_update_mapping c items). 0 \<le> v"
  using assms
proof (induction items arbitrary: c)
  case Nil
  then show ?case by simp
next
  case (Cons item items)
  obtain elem count where item: "item = (elem, count)" by (cases item)
  have "0 \<le> count + counter_get c elem"
    using Cons.prems item counter_get_nonneg [OF Cons.prems(1)] by (simp add: add_nonneg_nonneg)
  then have "\<forall>(k, v) \<in> insert (elem, count + counter_get c elem) (set c). 0 \<le> v"
    using Cons.prems(1) by auto
  then have "\<forall>(k, v) \<in> set (AList.update elem (count + counter_get c elem) c). 0 \<le> v"
    using set_update_subset [of elem "count + counter_get c elem" c] by blast
  moreover have "\<forall>(k, v) \<in> set items. 0 \<le> v" using Cons.prems(2) by simp
  ultimately show ?case using item Cons.IH by simp
qed

lemma AtomLL_fold_nonneg:
  assumes "\<forall>(k, v) \<in> set kd. 0 \<le> v"
  shows "\<forall>(k, v) \<in> set (fold (\<lambda>mol kd. Counter_update_mapping kd (fp_items (get_fp ext self mol))) mols kd).
           0 \<le> v"
  using assms
proof (induction mols arbitrary: kd)
  case Nil
  then show ?case by simp
next
  case (Cons mol mols)
  have "\<forall>(k, v) \<in> set (fp_items (get_fp ext self mol)). 0 \<le> v"
    by (auto simp: fp_items_def)
  then have "\<forall>(k, v) \<in> set (Counter_update_mapping kd (fp_items (get_fp ext self mol))). 0 \<le> v"
    using Cons.prems Counter_update_mapping_nonneg by blast
  then show ?case using Cons.IH by simp
qed

lemma AtomLL_fit_stats:
  assumes "AtomLL_fit ext a mols = Inr a'"
  shows "smoothing a' = smoothing a \<and> estimated_keyspace a' = estimated_keyspace a
     \<and> alpha a' = alpha a \<and> radius a' = radius a
     \<and> (\<exists>kd. key_data a' = Some kd
          \<and> (\<forall>key. 0 \<le> counter_get kd key \<and> counter_get kd key \<le> n_observations a'))"
proof -
  let ?kd = "fold (\<lambda>mol kd. Counter_update_mapping kd (fp_items (get_fp ext a mol))) mols []"
  have a': "a' = a\<lparr>key_data := Some ?kd, n_observations := sum_list (map snd ?kd)\<rparr>"
    using assms by (simp add: AtomLL_fit_def AtomLL_calculate_observations_def)
  have nn: "\<forall>(k, v) \<in> set ?kd. 0 \<le> v" by (rule AtomLL_fold_nonneg) simp
  have "\<forall>key. 0 \<le> counter_get ?kd key \<and> counter_get ?kd key \<le> sum_list (map snd ?kd)"
    using counter_get_nonneg [OF nn] counter_get_le_sum [OF nn] by blast
  then show ?thesis using a' by simp
qed

lemma AtomLL_ll_loop_ok:
  assumes "0 < smoothing self" "1 \<le> estimated_keyspace self"
    and "\<forall>key. 0 \<le> counter_get kd key \<and> counter_get kd key \<le> n_observations self"
  shows "\<exists>acc'. AtomLL_ll_loop self kd fp acc = Inr acc' \<and> snd acc' = snd acc + sum_list (map snd fp)"
proof (induction fp arbitrary: acc)
  case Nil
  show ?case by simp
next
  case (Cons item items)
  obtain key num where item: "item = (key, num)" by (cases item)
  obtain acc1 where s: "ll_step self (counter_get kd key) num acc = Inr acc1"
    and n: "snd acc1 = snd acc + num"
    using ll_step_ok [OF assms(1,2), of "counter_get kd key" num acc] assms(3) by blast
  obtain acc' where "AtomLL_ll_loop self kd items acc1 = Inr acc'"
    and "snd acc' = snd acc1 + sum_list (map snd items)"
    using Cons.IH by blast
  then show ?case using item s n by simp
qed


lemma float64_margin:
  fixes m :: real
  assumes "m \<le> 2 ^ 39 + 15/100"
  shows "m * (1 + 1 / 2 ^ 40) \<le> m + 85/100"
proof -
  have "m * (1 + 1 / 2 ^ 40) = m + m / 2 ^ 40" by (simp add: distrib_left)
  moreover have "m / 2 ^ 40 \<le> 85/100" using assms by simp
  ultimately show ?thesis by linarith
qed

lemma smoothed_value_le:
  assumes "0 \<le> a" "0 \<le> b" "0 \<le> c" "a \<le> M" "b \<le> M" "c \<le> M" "M \<le> 2 ^ 39"
    and "smoothed_value np a b c = Inr g"
  shows "g \<le> M + 1"
proof -
  let ?x = "real_of_int a + 15/100" and ?y = "real_of_int b + 15/100"
    and ?z = "real_of_int c + 15/100" and ?m = "real_of_int M + 15/100"
  let ?r = "Rep_numpy_float64 np a b c"
  have g: "g = \<lceil>?r\<rceil>" using assms(1-3,8) by (simp add: smoothed_value_def)
  have e: "exp_mean_log a b c = root 3 (?x * ?y * ?z)" using assms(1-3) by (rule exp_mean_log_root)
  have "?x * ?y \<le> ?m * ?m" using assms by (intro mult_mono) simp_all
  then have "?x * ?y * ?z \<le> ?m * ?m * ?m" using assms by (intro mult_mono) simp_all
  then have r1: "root 3 (?x * ?y * ?z) \<le> root 3 (?m ^ 3)"
    by (simp add: real_root_le_iff power3_eq_cube)
  have r2: "root 3 (?m ^ 3) = ?m" using assms by (simp add: real_root_power_cancel)
  have r3: "exp_mean_log a b c \<le> ?m" using r1 unfolding r2 e .
  have "?r \<le> exp_mean_log a b c * (1 + 1 / 2 ^ 40)"
    using assms(1-3) by (rule numpy_float64_bounds(2))
  also have "\<dots> \<le> ?m * (1 + 1 / 2 ^ 40)" using r3 by (intro mult_right_mono) simp_all
  also have "\<dots> \<le> real_of_int (M + 1)"
  proof -
    have "real_of_int M \<le> real_of_int (2 ^ 39)" using assms(7) by (rule of_int_le_iff [THEN iffD2])
    then have "?m \<le> 2 ^ 39 + 15/100" by simp
    then have "?m * (1 + 1 / 2 ^ 40) \<le> ?m + 85/100" by (rule float64_margin)
    then show ?thesis by simp
  qed
  finally have "?r \<le> real_of_int (M + 1)" .
  then show ?thesis unfolding g by (rule ceiling_le)
qed

lemma counter_term_nonneg:
  assumes "raw_counter c"
  shows "\<forall>x \<in> set (map (\<lambda>(count, specific_obs). count * specific_obs) c). 0 \<le> x"
  using assms by (auto simp: raw_counter_def)

lemma counter_observations_nonneg: "raw_counter c \<Longrightarrow> 0 \<le> counter_observations c"
  unfolding counter_observations_def using counter_term_nonneg by (intro sum_list_nonneg) blast

lemma counter_entry_le:
  assumes "raw_counter c" "(j, f) \<in> set c"
  shows "j * f \<le> counter_observations c"
proof -
  have "j * f \<in> set (map (\<lambda>(count, specific_obs). count * specific_obs) c)"
    using assms(2) by force
  then show ?thesis unfolding counter_observations_def
    using counter_term_nonneg [OF assms(1)] by (intro member_le_sum_list_int)
qed

lemma counter_two_entries_le:
  assumes "raw_counter c" "(j, f) \<in> set c" "(j', f') \<in> set c" "j \<noteq> j'"
  shows "j * f + j' * f' \<le> counter_observations c"
proof -
  let ?g = "\<lambda>(count, specific_obs). count * specific_obs :: int"
  have "distinct c" using assms(1) by (simp add: raw_counter_def distinct_map)
  then have "counter_observations c = sum ?g (set c)"
    by (simp add: counter_observations_def sum_list_distinct_conv_sum_set)
  moreover have "sum ?g {(j, f), (j', f')} \<le> sum ?g (set c)"
    using assms by (intro sum_mono2) (auto simp: raw_counter_def)
  moreover have "sum ?g {(j, f), (j', f')} = j * f + j' * f'" using assms(4) by simp
  ultimately show ?thesis by simp
qed

lemma raw_counter_max:
  assumes "raw_counter c"
  shows "\<exists>fm. (py_max (map fst c), fm) \<in> set c \<and> 1 \<le> fm"
proof -
  have ne: "c \<noteq> []" using assms by (simp add: raw_counter_def)
  then have "py_max (map fst c) = Max (fst ` set c)" using py_max_Max [of "map fst c"] by simp
  moreover have "Max (fst ` set c) \<in> fst ` set c" using ne by (intro Max_in) simp_all
  ultimately obtain fm where "(py_max (map fst c), fm) \<in> set c" by force
  then show ?thesis using assms by (auto simp: raw_counter_def)
qed

lemma raw_counter_bound:
  assumes "raw_counter c" "2 \<le> py_max (map fst c)" "1 \<le> j"
  shows "0 \<le> counter_get c j \<and> counter_get c j + 1 \<le> counter_observations c"
proof -
  let ?mx = "py_max (map fst c)"
  obtain fm where fm: "(?mx, fm) \<in> set c" "1 \<le> fm" using raw_counter_max [OF assms(1)] by blast
  have "2 * fm \<le> ?mx * fm" using assms(2) fm(2) by (intro mult_right_mono) simp_all
  then have big: "2 \<le> ?mx * fm" using fm(2) by linarith
  show ?thesis
  proof (cases "map_of c j")
    case None
    have "?mx * fm \<le> counter_observations c" using assms(1) fm(1) by (rule counter_entry_le)
    with None big show ?thesis by (simp add: counter_get_def)
  next
    case (Some f)
    then have jf: "(j, f) \<in> set c" by (rule map_of_SomeD)
    then have f: "1 \<le> f" using assms(1) by (auto simp: raw_counter_def)
    have jf1: "f \<le> j * f" using assms(3) f by (simp add: mult_le_cancel_right1)
    show ?thesis
    proof (cases "j = ?mx")
      case True
      have a: "2 * f \<le> j * f" using True assms(2) f by (intro mult_right_mono) simp_all
      have b: "j * f \<le> counter_observations c" using assms(1) jf by (rule counter_entry_le)
      have "f + 1 \<le> counter_observations c" using a b f by linarith
      then show ?thesis using Some f by (simp add: counter_get_def)
    next
      case False
      have "j * f + ?mx * fm \<le> counter_observations c"
        using assms(1) jf fm(1) False by (rule counter_two_entries_le)
      then have "f + 1 \<le> counter_observations c" using jf1 big by linarith
      then show ?thesis using Some f by (simp add: counter_get_def)
    qed
  qed
qed

lemma raw_counter_one:
  assumes "raw_counter c"
  shows "0 \<le> counter_get c 1 \<and> counter_get c 1 \<le> counter_observations c"
proof (cases "map_of c 1")
  case None
  then show ?thesis using counter_observations_nonneg [OF assms] by (simp add: counter_get_def)
next
  case (Some f)
  then have jf: "(1, f) \<in> set c" by (rule map_of_SomeD)
  then have "1 \<le> f" using assms by (auto simp: raw_counter_def)
  moreover have "1 * f \<le> counter_observations c" using assms jf by (rule counter_entry_le)
  ultimately show ?thesis using Some by (simp add: counter_get_def)
qed

lemma smoothed_counter_bound:
  assumes "raw_counter c" "smooth_counter np c = Inr c'" "counter_observations c \<le> 2 ^ 39"
  shows "0 \<le> counter_get c' n \<and> counter_get c' n \<le> counter_observations c"
proof -
  let ?mx = "py_max (map fst c)"
  have ne: "c \<noteq> []" and nn: "\<forall>(k, f) \<in> set c. 0 \<le> f"
    using assms(1) by (auto simp: raw_counter_def)
  have dom: "fst ` set c' = {1} \<union> {2..?mx}"
    and one: "counter_get c' 1 = counter_get c 1"
    and inn: "\<forall>k \<in> {2..?mx}.
           smoothed_value np (counter_get c (k - 1)) (counter_get c k)
             (counter_get c (k + 1)) = Inr (counter_get c' k)"
    using smooth_counter_spec [OF ne nn, of np] assms(2) by auto
  consider "n = 1" | "n \<in> {2..?mx}" | "n \<notin> fst ` set c'" using dom by blast
  then show ?thesis
  proof cases
    case 1
    then show ?thesis using one raw_counter_one [OF assms(1)] by simp
  next
    case 2
    then have mx: "2 \<le> ?mx" by simp
    have sv: "smoothed_value np (counter_get c (n - 1)) (counter_get c n)
             (counter_get c (n + 1)) = Inr (counter_get c' n)"
      using inn 2 by blast
    have b1: "0 \<le> counter_get c (n - 1) \<and> counter_get c (n - 1) + 1 \<le> counter_observations c"
      using 2 by (intro raw_counter_bound [OF assms(1) mx]) simp
    have b2: "0 \<le> counter_get c n \<and> counter_get c n + 1 \<le> counter_observations c"
      using 2 by (intro raw_counter_bound [OF assms(1) mx]) simp
    have b3: "0 \<le> counter_get c (n + 1) \<and> counter_get c (n + 1) + 1 \<le> counter_observations c"
      using 2 by (intro raw_counter_bound [OF assms(1) mx]) simp
    have "counter_get c' n \<le> (counter_observations c - 1) + 1"
      using b1 b2 b3 assms(3) by (intro smoothed_value_le [OF _ _ _ _ _ _ _ sv]) simp_all
    moreover have "1 \<le> counter_get c' n" using sv by (rule smoothed_value_ge1)
    ultimately show ?thesis by simp
  next
    case 3
    then have "map_of c' n = None" by (simp add: map_of_eq_None_iff)
    then show ?thesis using counter_observations_nonneg [OF assms(1)] by (simp add: counter_get_def)
  qed
qed


lemma key_data_term_nonneg:
  assumes "raw_key_data kd"
  shows "\<forall>x \<in> set (map (\<lambda>(key, c). counter_observations c) kd). 0 \<le> x"
  using assms counter_observations_nonneg by (auto simp: raw_key_data_def)

lemma key_data_observations_nonneg: "raw_key_data kd \<Longrightarrow> 0 \<le> key_data_observations kd"
  unfolding key_data_observations_def using key_data_term_nonneg by (intro sum_list_nonneg) blast

lemma key_data_entry_le:
  assumes "raw_key_data kd" "(key, c) \<in> set kd"
  shows "counter_observations c \<le> key_data_observations kd"
proof -
  have "counter_observations c \<in> set (map (\<lambda>(key, c). counter_observations c) kd)"
    using assms(2) by force
  then show ?thesis unfolding key_data_observations_def
    using key_data_term_nonneg [OF assms(1)] by (intro member_le_sum_list_int)
qed

lemma list_all2_member:
  assumes "list_all2 P xs ys" "y \<in> set ys"
  shows "\<exists>x \<in> set xs. P x y"
  using assms by (induction rule: list_all2_induct) auto

lemma smoothed_lookup_bound:
  assumes "raw_key_data kd"
    and "list_all2 (\<lambda>(key, c) (key', c'). key' = key \<and> smooth_counter np c = Inr c') kd kd'"
    and "key_data_observations kd \<le> 2 ^ 39"
  shows "0 \<le> mol_lookup kd' key counts \<and> mol_lookup kd' key counts \<le> key_data_observations kd"
proof (cases "map_of kd' key")
  case None
  then show ?thesis using key_data_observations_nonneg [OF assms(1)]
    by (simp add: mol_lookup_def defaultdict_getitem_def counter_get_def)
next
  case (Some c')
  then have "(key, c') \<in> set kd'" by (rule map_of_SomeD)
  then obtain x where x: "x \<in> set kd"
    and P: "(\<lambda>(key, c) (key', c'). key' = key \<and> smooth_counter np c = Inr c') x (key, c')"
    using list_all2_member [OF assms(2)] by blast
  obtain k c where xc: "x = (k, c)" by (cases x)
  have kc: "(key, c) \<in> set kd" and sm: "smooth_counter np c = Inr c'" using x P xc by auto
  have raw: "raw_counter c" using assms(1) kc by (auto simp: raw_key_data_def)
  have le: "counter_observations c \<le> key_data_observations kd"
    using assms(1) kc by (rule key_data_entry_le)
  then have "counter_observations c \<le> 2 ^ 39" using assms(3) by simp
  with raw sm
  have "0 \<le> counter_get c' counts \<and> counter_get c' counts \<le> counter_observations c"
    by (rule smoothed_counter_bound)
  then show ?thesis using Some le by (simp add: mol_lookup_def defaultdict_getitem_def)
qed

lemma MolLL_fit_stats:
  assumes "MolLL_fit np ext m mols = Inr m'" "n_observations m' \<le> 2 ^ 39"
  shows "smoothing m' = smoothing m \<and> estimated_keyspace m' = estimated_keyspace m
     \<and> alpha m' = alpha m \<and> radius m' = radius m
     \<and> (\<exists>kd. key_data m' = Some kd
          \<and> (\<forall>key counts. 0 \<le> mol_lookup kd key counts
                \<and> mol_lookup kd key counts \<le> n_observations m'))"
proof -
  let ?raw = "MolLL_raw_key_data ext m mols"
  obtain kd' where kd': "smooth_items np ?raw ?raw = Inr kd'"
    and l: "list_all2 (\<lambda>(key, c) (key', c'). key' = key \<and> smooth_counter np c = Inr c') ?raw kd'"
    using smooth_items_raw [OF raw_key_data_fit] by blast
  have m': "m' = m\<lparr>key_data := Some kd', n_observations := key_data_observations ?raw\<rparr>"
    using assms(1) kd' by (auto simp: MolLL_fit_def MolLL_calculate_observations_def
        MolLL_smooth_all_counters_def)
  have "key_data_observations ?raw \<le> 2 ^ 39" using assms(2) m' by simp
  then have "\<forall>key counts. 0 \<le> mol_lookup kd' key counts
      \<and> mol_lookup kd' key counts \<le> key_data_observations ?raw"
    using smoothed_lookup_bound [OF raw_key_data_fit l] by blast
  then show ?thesis using m' by simp
qed

lemma MolLL_ll_loop_ok:
  assumes "0 < smoothing self" "1 \<le> estimated_keyspace self" "key_data self = Some kd"
    and "\<forall>key counts. 0 \<le> mol_lookup kd key counts \<and> mol_lookup kd key counts \<le> n_observations self"
  shows "\<exists>acc' self'. MolLL_ll_loop self items acc = (Inr acc', self')
     \<and> snd acc' = snd acc + sum_list (map snd items) \<and> alpha self' = alpha self"
  using assms
proof (induction items arbitrary: self kd acc)
  case Nil
  show ?case by simp
next
  case (Cons item items)
  obtain key counts where item: "item = (key, counts)" by (cases item)
  obtain c kd1 where g: "defaultdict_getitem kd key = (c, kd1)"
    by (cases "defaultdict_getitem kd key")
  have c: "counter_get c (int counts) = mol_lookup kd key (int counts)"
    using g by (simp add: mol_lookup_def)
  obtain acc1 where s: "ll_step self (counter_get c (int counts)) counts acc = Inr acc1"
    and n: "snd acc1 = snd acc + counts"
    using ll_step_ok [OF Cons.prems(1,2), of "counter_get c (int counts)" counts acc]
      Cons.prems(4) c by auto
  let ?self1 = "self\<lparr>key_data := Some kd1\<rparr>"
  have "\<forall>key counts. 0 \<le> mol_lookup kd1 key counts
      \<and> mol_lookup kd1 key counts \<le> n_observations ?self1"
    using Cons.prems(4) mol_lookup_getitem [OF g] by simp
  then obtain acc' self' where "MolLL_ll_loop ?self1 items acc1 = (Inr acc', self')"
    and "snd acc' = snd acc1 + sum_list (map snd items)" and "alpha self' = alpha ?self1"
    using Cons.IH [of ?self1 kd1 acc1] Cons.prems(1,2) by auto
  then show ?case using item g s n Cons.prems(3) by simp
qed

lemma MolLL_calculate_ll_ok:
  assumes "0 < smoothing self" "1 \<le> estimated_keyspace self" "key_data self = Some kd"
    and "\<forall>key counts. 0 \<le> mol_lookup kd key counts \<and> mol_lookup kd key counts \<le> n_observations self"
    and "0 < sum_list (map snd (get_fp ext self mol))"
  shows "\<exists>ll. fst (MolLL_calculate_ll ext self mol) = Inr ll"
proof -
  let ?items = "MolLL_items (get_fp ext self mol)"
  obtain acc' self' where l: "MolLL_ll_loop self ?items (0, 0) = (Inr acc', self')"
    and n: "snd acc' = snd (0 :: real, 0 :: nat) + sum_list (map snd ?items)"
    using MolLL_ll_loop_ok [OF assms(1-4), of ?items "(0, 0)"] by blast
  have "0 < snd acc'" using n assms(5) by (simp add: MolLL_items_def)
  then obtain ll where "ll_corrected self' acc' = Inr ll" using ll_corrected_ok by blast
  then show ?thesis using l by (simp add: MolLL_calculate_ll_def)
qed

lemma AtomLL_calculate_ll_ok:
  assumes "0 < smoothing self" "1 \<le> estimated_keyspace self" "key_data self = Some kd"
    and "\<forall>key. 0 \<le> counter_get kd key \<and> counter_get kd key \<le> n_observations self"
    and "0 < sum_list (map snd (get_fp ext self mol))"
  shows "\<exists>ll. AtomLL_calculate_ll ext self mol = Inr ll"
proof -
  let ?fp = "get_fp ext self mol"
  obtain acc' where l: "AtomLL_ll_loop self kd ?fp (0, 0) = Inr acc'"
    and n: "snd acc' = snd (0 :: real, 0 :: nat) + sum_list (map snd ?fp)"
    using AtomLL_ll_loop_ok [OF assms(1,2,4), of ?fp "(0, 0)"] by blast
  have "0 < snd acc'" using n assms(5) by simp
  then obtain ll where "ll_corrected self acc' = Inr ll" using ll_corrected_ok by blast
  then show ?thesis using l assms(3) by (simp add: AtomLL_calculate_ll_def)
qed



lemma counter_get_absent: "key \<notin> fst ` set kd \<Longrightarrow> counter_get kd key = 0"
  by (simp add: counter_get_def map_of_eq_None_iff [THEN iffD2])

lemma mol_lookup_absent: "key \<notin> fst ` set kd \<Longrightarrow> mol_lookup kd key counts = 0"
  by (simp add: mol_lookup_def defaultdict_getitem_def counter_get_def
      map_of_eq_None_iff [THEN iffD2])

lemma AtomLL_likelihood_bounds:
  assumes "0 < smoothing a" "1 \<le> estimated_keyspace a" "AtomLL_fit ext a mols = Inr a'"
  obtains kd where "key_data a' = Some kd"
    and "\<forall>key. \<exists>L. likelihood a' (counter_get kd key) = Inr L \<and> 0 < L \<and> L \<le> 1
               \<and> math_log L = Inr (ln L) \<and> ln L \<le> 0
               \<and> (key \<notin> fst ` set kd \<longrightarrow> counter_get kd key = 0)
               \<and> (counter_get kd key = 0 \<longrightarrow>
                    (ln L < 0) = (1 < estimated_keyspace a \<or> 0 < n_observations a'))"
    and "0 < sum_list (map snd (get_fp ext a' mol)) \<Longrightarrow>
              \<exists>ll. AtomLL_calculate_ll ext a' mol = Inr ll"
proof -
  have st: "smoothing a' = smoothing a" "estimated_keyspace a' = estimated_keyspace a"
    using AtomLL_fit_stats [OF assms(3)] by simp_all
  obtain kd where kd: "key_data a' = Some kd"
    and b: "\<forall>key. 0 \<le> counter_get kd key \<and> counter_get kd key \<le> n_observations a'"
    using AtomLL_fit_stats [OF assms(3)] by blast
  have s: "0 < smoothing a'" "1 \<le> estimated_keyspace a'" using assms(1,2) st by simp_all
  have "\<exists>L. likelihood a' (counter_get kd key) = Inr L \<and> 0 < L \<and> L \<le> 1
               \<and> math_log L = Inr (ln L) \<and> ln L \<le> 0
               \<and> (key \<notin> fst ` set kd \<longrightarrow> counter_get kd key = 0)
               \<and> (counter_get kd key = 0 \<longrightarrow>
                    (ln L < 0) = (1 < estimated_keyspace a \<or> 0 < n_observations a'))" for key
    using likelihood_ok [OF s, of "counter_get kd key"] b st(2) counter_get_absent [of key kd]
    by auto
  then have all: "\<forall>key. \<exists>L. likelihood a' (counter_get kd key) = Inr L \<and> 0 < L \<and> L \<le> 1
               \<and> math_log L = Inr (ln L) \<and> ln L \<le> 0
               \<and> (key \<notin> fst ` set kd \<longrightarrow> counter_get kd key = 0)
               \<and> (counter_get kd key = 0 \<longrightarrow>
                    (ln L < 0) = (1 < estimated_keyspace a \<or> 0 < n_observations a'))" ..
  show thesis
  proof (rule that [OF kd all])
    assume "0 < sum_list (map snd (get_fp ext a' mol))"
    then show "\<exists>ll. AtomLL_calculate_ll ext a' mol = Inr ll"
      by (rule AtomLL_calculate_ll_ok [OF s kd b])
  qed
qed

lemma MolLL_likelihood_bounds:
  assumes "0 < smoothing m" "1 \<le> estimated_keyspace m" "MolLL_fit np ext m mols = Inr m'"
    and "n_observations m' \<le> 2 ^ 39"
  obtains kd where "key_data m' = Some kd"
    and "\<forall>key counts. \<exists>L. likelihood m' (mol_lookup kd key counts) = Inr L
               \<and> 0 < L \<and> L \<le> 1
               \<and> math_log L = Inr (ln L) \<and> ln L \<le> 0
               \<and> (key \<notin> fst ` set kd \<longrightarrow> mol_lookup kd key counts = 0)
               \<and> (mol_lookup kd key counts = 0 \<longrightarrow>
                    (ln L < 0) = (1 < estimated_keyspace m \<or> 0 < n_observations m'))"
    and "0 < sum_list (map snd (get_fp ext m' mol)) \<Longrightarrow>
              \<exists>ll. fst (MolLL_calculate_ll ext m' mol) = Inr ll"
proof -
  have st: "smoothing m' = smoothing m" "estimated_keyspace m' = estimated_keyspace m"
    using MolLL_fit_stats [OF assms(3,4)] by simp_all
  obtain kd where kd: "key_data m' = Some kd"
    and b: "\<forall>key counts. 0 \<le> mol_lookup kd key counts
        \<and> mol_lookup kd key counts \<le> n_observations m'"
    using MolLL_fit_stats [OF assms(3,4)] by blast
  have s: "0 < smoothing m'" "1 \<le> estimated_keyspace m'" using assms(1,2) st by simp_all
  have "\<exists>L. likelihood m' (mol_lookup kd key counts) = Inr L \<and> 0 < L \<and> L \<le> 1
               \<and> math_log L = Inr (ln L) \<and> ln L \<le> 0
               \<and> (key \<notin> fst ` set kd \<longrightarrow> mol_lookup kd key counts = 0)
               \<and> (mol_lookup kd key counts = 0 \<longrightarrow>
                    (ln L < 0) = (1 < estimated_keyspace m \<or> 0 < n_observations m'))"
    for key counts
    using likelihood_ok [OF s, of "mol_lookup kd key counts"] b st(2)
      mol_lookup_absent [of key kd counts]
    by auto
  then have all: "\<forall>key counts. \<exists>L. likelihood m' (mol_lookup kd key counts) = Inr L
               \<and> 0 < L \<and> L \<le> 1
               \<and> math_log L = Inr (ln L) \<and> ln L \<le> 0
               \<and> (key \<notin> fst ` set kd \<longrightarrow> mol_lookup kd key counts = 0)
               \<and> (mol_lookup kd key counts = 0 \<longrightarrow>
                    (ln L < 0) = (1 < estimated_keyspace m \<or> 0 < n_observations m'))"
    by (intro allI)
  show thesis
  proof (rule that [OF kd all])
    assume "0 < sum_list (map snd (get_fp ext m' mol))"
    then show "\<exists>ll. fst (MolLL_calculate_ll ext m' mol) = Inr ll"
      by (rule MolLL_calculate_ll_ok [OF s kd b])
  qed
qed

text \<open>
  C6, as the code has it.  The magnitudes are bounded so that what is
  proved of the real quotient is true of the binary64 one: \<open>smoothing\<close>
  between \<open>2\<^sup>-\<^sup>6\<^sup>4\<close> and \<open>2\<^sup>5\<^sup>2\<close>, \<open>estimated_keyspace\<close> between 1 and
  \<open>2\<^sup>6\<^sup>4\<close>, at most \<open>2\<^sup>3\<^sup>9\<close> observations (no quotient underflows to
  0.0, no product overflows, and no term is absorbed in a sum).  For a
  model that \<open>fit\<close> returned, the likelihood of every statistics lookup that
  \<open>calculate_ll\<close> can make, for every key and count, seen or not, is
  computed without error, is positive and at most 1, and its logarithm is
  defined and at most 0.  A key absent from the statistics has the
  statistic 0, and the logarithm of the likelihood of a statistic 0 is
  negative exactly when \<open>estimated_keyspace\<close> exceeds 1 or the model has
  seen an observation.  With \<open>alpha\<close> in its documented range from 0 to 1,
  the score of every molecule with at least one and at most \<open>2\<^sup>5\<^sup>2\<close>
  fragment occurrences is returned.
\<close>

theorem likelihood_bounds:
  "(1 / 2 ^ 64 \<le> smoothing a \<and> smoothing a \<le> 2 ^ 52
      \<and> 1 \<le> estimated_keyspace a \<and> estimated_keyspace a \<le> 2 ^ 64
      \<and> AtomLL_fit ext a mols = Inr a' \<and> n_observations a' \<le> 2 ^ 39 \<longrightarrow>
      (\<exists>kd. key_data a' = Some kd
         \<and> (\<forall>key. \<exists>L. likelihood a' (counter_get kd key) = Inr L \<and> 0 < L \<and> L \<le> 1
               \<and> math_log L = Inr (ln L) \<and> ln L \<le> 0
               \<and> (key \<notin> fst ` set kd \<longrightarrow> counter_get kd key = 0)
               \<and> (counter_get kd key = 0 \<longrightarrow>
                    (ln L < 0) = (1 < estimated_keyspace a \<or> 0 < n_observations a')))
         \<and> (0 \<le> alpha a \<and> alpha a \<le> 1
              \<and> 0 < sum_list (map snd (get_fp ext a' mol))
              \<and> sum_list (map snd (get_fp ext a' mol)) \<le> 2 ^ 52 \<longrightarrow>
              (\<exists>ll. AtomLL_calculate_ll ext a' mol = Inr ll))))
   \<and> (1 / 2 ^ 64 \<le> smoothing m \<and> smoothing m \<le> 2 ^ 52
      \<and> 1 \<le> estimated_keyspace m \<and> estimated_keyspace m \<le> 2 ^ 64
      \<and> MolLL_fit np ext m mols = Inr m' \<and> n_observations m' \<le> 2 ^ 39 \<longrightarrow>
      (\<exists>kd. key_data m' = Some kd
         \<and> (\<forall>key counts. \<exists>L. likelihood m' (mol_lookup kd key counts) = Inr L
               \<and> 0 < L \<and> L \<le> 1
               \<and> math_log L = Inr (ln L) \<and> ln L \<le> 0
               \<and> (key \<notin> fst ` set kd \<longrightarrow> mol_lookup kd key counts = 0)
               \<and> (mol_lookup kd key counts = 0 \<longrightarrow>
                    (ln L < 0) = (1 < estimated_keyspace m \<or> 0 < n_observations m')))
         \<and> (0 \<le> alpha m \<and> alpha m \<le> 1
              \<and> 0 < sum_list (map snd (get_fp ext m' mol))
              \<and> sum_list (map snd (get_fp ext m' mol)) \<le> 2 ^ 52 \<longrightarrow>
              (\<exists>ll. fst (MolLL_calculate_ll ext m' mol) = Inr ll))))"
proof (intro conjI impI)
  assume h: "1 / 2 ^ 64 \<le> smoothing a \<and> smoothing a \<le> 2 ^ 52
      \<and> 1 \<le> estimated_keyspace a \<and> estimated_keyspace a \<le> 2 ^ 64
      \<and> AtomLL_fit ext a mols = Inr a' \<and> n_observations a' \<le> 2 ^ 39"
  have "(0 :: real) < 1 / 2 ^ 64" by simp
  then have s: "0 < smoothing a" using h by linarith
  have k: "1 \<le> estimated_keyspace a" and f: "AtomLL_fit ext a mols = Inr a'" using h by simp_all
  show "\<exists>kd. key_data a' = Some kd
         \<and> (\<forall>key. \<exists>L. likelihood a' (counter_get kd key) = Inr L \<and> 0 < L \<and> L \<le> 1
               \<and> math_log L = Inr (ln L) \<and> ln L \<le> 0
               \<and> (key \<notin> fst ` set kd \<longrightarrow> counter_get kd key = 0)
               \<and> (counter_get kd key = 0 \<longrightarrow>
                    (ln L < 0) = (1 < estimated_keyspace a \<or> 0 < n_observations a')))
         \<and> (0 \<le> alpha a \<and> alpha a \<le> 1
              \<and> 0 < sum_list (map snd (get_fp ext a' mol))
              \<and> sum_list (map snd (get_fp ext a' mol)) \<le> 2 ^ 52 \<longrightarrow>
              (\<exists>ll. AtomLL_calculate_ll ext a' mol = Inr ll))"
  proof (rule AtomLL_likelihood_bounds [OF s k f, of mol])
    fix kd
    assume kd: "key_data a' = Some kd"
      and all: "\<forall>key. \<exists>L. likelihood a' (counter_get kd key) = Inr L \<and> 0 < L \<and> L \<le> 1
               \<and> math_log L = Inr (ln L) \<and> ln L \<le> 0
               \<and> (key \<notin> fst ` set kd \<longrightarrow> counter_get kd key = 0)
               \<and> (counter_get kd key = 0 \<longrightarrow>
                    (ln L < 0) = (1 < estimated_keyspace a \<or> 0 < n_observations a'))"
      and sc: "0 < sum_list (map snd (get_fp ext a' mol)) \<Longrightarrow>
              \<exists>ll. AtomLL_calculate_ll ext a' mol = Inr ll"
    show ?thesis
    proof (rule exI [of _ kd], intro conjI impI)
      show "key_data a' = Some kd" by (rule kd)
      show "\<forall>key. \<exists>L. likelihood a' (counter_get kd key) = Inr L \<and> 0 < L \<and> L \<le> 1
               \<and> math_log L = Inr (ln L) \<and> ln L \<le> 0
               \<and> (key \<notin> fst ` set kd \<longrightarrow> counter_get kd key = 0)
               \<and> (counter_get kd key = 0 \<longrightarrow>
                    (ln L < 0) = (1 < estimated_keyspace a \<or> 0 < n_observations a'))"
        by (rule all)
      assume "0 \<le> alpha a \<and> alpha a \<le> 1
              \<and> 0 < sum_list (map snd (get_fp ext a' mol))
              \<and> sum_list (map snd (get_fp ext a' mol)) \<le> 2 ^ 52"
      then have "0 < sum_list (map snd (get_fp ext a' mol))" by simp
      then show "\<exists>ll. AtomLL_calculate_ll ext a' mol = Inr ll" by (rule sc)
    qed
  qed
next
  assume h: "1 / 2 ^ 64 \<le> smoothing m \<and> smoothing m \<le> 2 ^ 52
      \<and> 1 \<le> estimated_keyspace m \<and> estimated_keyspace m \<le> 2 ^ 64
      \<and> MolLL_fit np ext m mols = Inr m' \<and> n_observations m' \<le> 2 ^ 39"
  have "(0 :: real) < 1 / 2 ^ 64" by simp
  then have s: "0 < smoothing m" using h by linarith
  have k: "1 \<le> estimated_keyspace m" and f: "MolLL_fit np ext m mols = Inr m'"
    and n: "n_observations m' \<le> 2 ^ 39" using h by simp_all
  show "\<exists>kd. key_data m' = Some kd
         \<and> (\<forall>key counts. \<exists>L. likelihood m' (mol_lookup kd key counts) = Inr L
               \<and> 0 < L \<and> L \<le> 1
               \<and> math_log L = Inr (ln L) \<and> ln L \<le> 0
               \<and> (key \<notin> fst ` set kd \<longrightarrow> mol_lookup kd key counts = 0)
               \<and> (mol_lookup kd key counts = 0 \<longrightarrow>
                    (ln L < 0) = (1 < estimated_keyspace m \<or> 0 < n_observations m')))
         \<and> (0 \<le> alpha m \<and> alpha m \<le> 1
              \<and> 0 < sum_list (map snd (get_fp ext m' mol))
              \<and> sum_list (map snd (get_fp ext m' mol)) \<le> 2 ^ 52 \<longrightarrow>
              (\<exists>ll. fst (MolLL_calculate_ll ext m' mol) = Inr ll))"
  proof (rule MolLL_likelihood_bounds [OF s k f n, of mol])
    fix kd
    assume kd: "key_data m' = Some kd"
      and all: "\<forall>key counts. \<exists>L. likelihood m' (mol_lookup kd key counts) = Inr L
               \<and> 0 < L \<and> L \<le> 1
               \<and> math_log L = Inr (ln L) \<and> ln L \<le> 0
               \<and> (key \<notin> fst ` set kd \<longrightarrow> mol_lookup kd key counts = 0)
               \<and> (mol_lookup kd key counts = 0 \<longrightarrow>
                    (ln L < 0) = (1 < estimated_keyspace m \<or> 0 < n_observations m'))"
      and sc: "0 < sum_list (map snd (get_fp ext m' mol)) \<Longrightarrow>
              \<exists>ll. fst (MolLL_calculate_ll ext m' mol) = Inr ll"
    show ?thesis
    proof (rule exI [of _ kd], intro conjI impI)
      show "key_data m' = Some kd" by (rule kd)
      show "\<forall>key counts. \<exists>L. likelihood m' (mol_lookup kd key counts) = Inr L
               \<and> 0 < L \<and> L \<le> 1
               \<and> math_log L = Inr (ln L) \<and> ln L \<le> 0
               \<and> (key \<notin> fst ` set kd \<longrightarrow> mol_lookup kd key counts = 0)
               \<and> (mol_lookup kd key counts = 0 \<longrightarrow>
                    (ln L < 0) = (1 < estimated_keyspace m \<or> 0 < n_observations m'))"
        by (rule all)
      assume "0 \<le> alpha m \<and> alpha m \<le> 1
              \<and> 0 < sum_list (map snd (get_fp ext m' mol))
              \<and> sum_list (map snd (get_fp ext m' mol)) \<le> 2 ^ 52"
      then have "0 < sum_list (map snd (get_fp ext m' mol))" by simp
      then show "\<exists>ll. fst (MolLL_calculate_ll ext m' mol) = Inr ll" by (rule sc)
    qed
  qed
qed

theorem likelihood_bounds_witness:
  "(\<exists>L. likelihood \<lparr>smoothing = 1/10, estimated_keyspace = 1, alpha = 1, radius = 1,
            key_data = Some [(1, 1)] :: atom_data option, n_observations = 1\<rparr>
          (counter_get [(1 :: int, 1)] 2) = Inr L
        \<and> 0 < L \<and> L \<le> 1 \<and> ln L < 0)
   \<and> (\<exists>ll. AtomLL_calculate_ll (\<lambda>r fp. fp)
          \<lparr>smoothing = 1/10, estimated_keyspace = 1, alpha = 1, radius = 1,
           key_data = Some [(1, 1)], n_observations = 1\<rparr> [(2, 1)] = Inr ll)
   \<and> (\<exists>L. likelihood (\<lparr>smoothing = 1/10, estimated_keyspace = 1, alpha = 1, radius = 1,
            key_data = Some [(FragKey 1, [(1, 1)]), (SampleObservationSum, [(1, 1)])],
            n_observations = 2\<rparr> :: mol_data BaseLL)
          (mol_lookup [(FragKey 1, [(1, 1)]), (SampleObservationSum, [(1, 1)])] (FragKey 2) 1) = Inr L
        \<and> 0 < L \<and> L \<le> 1 \<and> ln L < 0)
   \<and> (\<exists>ll. fst (MolLL_calculate_ll (\<lambda>r fp. fp)
          \<lparr>smoothing = 1/10, estimated_keyspace = 1, alpha = 1, radius = 1,
           key_data = Some [(FragKey 1, [(1, 1)]), (SampleObservationSum, [(1, 1)])],
           n_observations = 2\<rparr> [(2, 1)]) = Inr ll)"
proof -
  let ?ext = "\<lambda>(r :: int) (fp :: fingerprint). fp"
  let ?Ainit = "init_BaseLL (1/10) 1 1 1 :: atom_data BaseLL"
  let ?Minit = "init_BaseLL (1/10) 1 1 1 :: mol_data BaseLL"
  let ?A = "\<lparr>smoothing = 1/10, estimated_keyspace = 1, alpha = 1, radius = 1,
            key_data = Some [(1, 1)], n_observations = 1\<rparr> :: atom_data BaseLL"
  let ?kd = "[(FragKey 1, [(1, 1)]), (SampleObservationSum, [(1, 1)])] :: mol_data"
  let ?M = "\<lparr>smoothing = 1/10, estimated_keyspace = 1, alpha = 1, radius = 1,
            key_data = Some ?kd, n_observations = 2\<rparr> :: mol_data BaseLL"
  have fa: "AtomLL_fit ?ext ?Ainit [[(1, 1)]] = Inr ?A"
    by (simp add: AtomLL_fit_def AtomLL_calculate_observations_def init_BaseLL_def get_fp_def
        fp_items_def counter_get_def)
  have fm: "MolLL_fit float64_low ?ext ?Minit [[(1, 1)]] = Inr ?M"
    by (simp add: MolLL_fit_def MolLL_raw_key_data_def MolLL_observe_mol_def MolLL_observe_def
      defaultdict_getitem_def get_fp_def init_BaseLL_def counter_get_def
      MolLL_calculate_observations_def key_data_observations_def counter_observations_def
      MolLL_smooth_all_counters_def smooth_counter_1_1)
  have ca: "1 / 2 ^ 64 \<le> smoothing ?Ainit \<and> smoothing ?Ainit \<le> 2 ^ 52
      \<and> 1 \<le> estimated_keyspace ?Ainit \<and> estimated_keyspace ?Ainit \<le> 2 ^ 64
      \<and> AtomLL_fit ?ext ?Ainit [[(1, 1)]] = Inr ?A \<and> n_observations ?A \<le> 2 ^ 39"
    unfolding fa by (simp add: init_BaseLL_def)
  have cm: "1 / 2 ^ 64 \<le> smoothing ?Minit \<and> smoothing ?Minit \<le> 2 ^ 52
      \<and> 1 \<le> estimated_keyspace ?Minit \<and> estimated_keyspace ?Minit \<le> 2 ^ 64
      \<and> MolLL_fit float64_low ?ext ?Minit [[(1, 1)]] = Inr ?M \<and> n_observations ?M \<le> 2 ^ 39"
    unfolding fm by (simp add: init_BaseLL_def)
  have pa: "0 \<le> alpha ?Ainit \<and> alpha ?Ainit \<le> 1
      \<and> 0 < sum_list (map snd (get_fp ?ext ?A [(2, 1)]))
      \<and> sum_list (map snd (get_fp ?ext ?A [(2, 1)])) \<le> 2 ^ 52"
    by (simp add: get_fp_def init_BaseLL_def)
  have pm: "0 \<le> alpha ?Minit \<and> alpha ?Minit \<le> 1
      \<and> 0 < sum_list (map snd (get_fp ?ext ?M [(2, 1)]))
      \<and> sum_list (map snd (get_fp ?ext ?M [(2, 1)])) \<le> 2 ^ 52"
    by (simp add: get_fp_def init_BaseLL_def)
  note t = likelihood_bounds [where a = ?Ainit and ext = ?ext
      and mols = "[[(1, 1)]]" and a' = ?A and mol = "[(2, 1)]"
      and m = ?Minit and m' = ?M and np = float64_low]
  have na: "0 < n_observations ?A" and nm: "0 < n_observations ?M" by simp_all
  have za: "counter_get [(1 :: int, 1 :: int)] 2 = 0" by (simp add: counter_get_def)
  have zm: "mol_lookup ?kd (FragKey 2) 1 = 0"
    by (simp add: mol_lookup_def defaultdict_getitem_def counter_get_def)
  obtain kda where kda: "key_data ?A = Some kda"
    and alla: "\<forall>key. \<exists>L. likelihood ?A (counter_get kda key) = Inr L \<and> 0 < L \<and> L \<le> 1
               \<and> math_log L = Inr (ln L) \<and> ln L \<le> 0
               \<and> (key \<notin> fst ` set kda \<longrightarrow> counter_get kda key = 0)
               \<and> (counter_get kda key = 0 \<longrightarrow>
                    (ln L < 0) = (1 < estimated_keyspace ?Ainit \<or> 0 < n_observations ?A))"
    and sca: "0 \<le> alpha ?Ainit \<and> alpha ?Ainit \<le> 1
              \<and> 0 < sum_list (map snd (get_fp ?ext ?A [(2, 1)]))
              \<and> sum_list (map snd (get_fp ?ext ?A [(2, 1)])) \<le> 2 ^ 52 \<longrightarrow>
              (\<exists>ll. AtomLL_calculate_ll ?ext ?A [(2, 1)] = Inr ll)"
    using t [THEN conjunct1, THEN mp, OF ca] by (elim exE conjE)
  obtain kdm where kdm: "key_data ?M = Some kdm"
    and allm: "\<forall>key counts. \<exists>L. likelihood ?M (mol_lookup kdm key counts) = Inr L
               \<and> 0 < L \<and> L \<le> 1
               \<and> math_log L = Inr (ln L) \<and> ln L \<le> 0
               \<and> (key \<notin> fst ` set kdm \<longrightarrow> mol_lookup kdm key counts = 0)
               \<and> (mol_lookup kdm key counts = 0 \<longrightarrow>
                    (ln L < 0) = (1 < estimated_keyspace ?Minit \<or> 0 < n_observations ?M))"
    and scm: "0 \<le> alpha ?Minit \<and> alpha ?Minit \<le> 1
              \<and> 0 < sum_list (map snd (get_fp ?ext ?M [(2, 1)]))
              \<and> sum_list (map snd (get_fp ?ext ?M [(2, 1)])) \<le> 2 ^ 52 \<longrightarrow>
              (\<exists>ll. fst (MolLL_calculate_ll ?ext ?M [(2, 1)]) = Inr ll)"
    using t [THEN conjunct2, THEN mp, OF cm] by (elim exE conjE)
  have ka: "kda = [(1, 1)]" using kda by simp
  have km: "kdm = ?kd" using kdm by simp
  obtain La where La: "likelihood ?A (counter_get [(1 :: int, 1 :: int)] 2) = Inr La" "0 < La" "La \<le> 1"
    and sa: "counter_get [(1 :: int, 1 :: int)] 2 = 0 \<longrightarrow>
                    (ln La < 0) = (1 < estimated_keyspace ?Ainit \<or> 0 < n_observations ?A)"
    using alla [THEN spec, of 2] unfolding ka by (elim exE conjE)
  obtain Lm where Lm: "likelihood ?M (mol_lookup ?kd (FragKey 2) 1) = Inr Lm" "0 < Lm" "Lm \<le> 1"
    and sm: "mol_lookup ?kd (FragKey 2) 1 = 0 \<longrightarrow>
                    (ln Lm < 0) = (1 < estimated_keyspace ?Minit \<or> 0 < n_observations ?M)"
    using allm [THEN spec, THEN spec, of "FragKey 2" 1] unfolding km by (elim exE conjE)
  have "ln La < 0" using sa za na by blast
  then have a3: "\<exists>L. likelihood ?A (counter_get [(1 :: int, 1)] 2) = Inr L
      \<and> 0 < L \<and> L \<le> 1 \<and> ln L < 0"
    using La by blast
  have "ln Lm < 0" using sm zm nm by blast
  then have m3: "\<exists>L. likelihood ?M (mol_lookup ?kd (FragKey 2) 1) = Inr L
        \<and> 0 < L \<and> L \<le> 1 \<and> ln L < 0"
    using Lm by blast
  have a2: "\<exists>ll. AtomLL_calculate_ll ?ext ?A [(2, 1)] = Inr ll" using sca pa by (rule mp)
  have m2: "\<exists>ll. fst (MolLL_calculate_ll ?ext ?M [(2, 1)]) = Inr ll" using scm pm by (rule mp)
  from a3 a2 m3 m2 show ?thesis by blast
qed

text \<open>
  C6 as stated fails when \<open>estimated_keyspace\<close> is below 1: fitted on
  the fingerprint \<open>{1:1}\<close> with \<open>smoothing = 0.1\<close> and
  \<open>estimated_keyspace = 0.5\<close>, the likelihood of key 1 is \<open>22/21\<close>, above 1.
  With \<open>estimated_keyspace = 1\<close> and an empty training list, the
  likelihood of an unseen key is exactly 1, so its logarithm is 0 and not
  negative.
\<close>

theorem likelihood_bounds_counterexample:
  "AtomLL_fit (\<lambda>r fp. fp) (init_BaseLL (1/10) (1/2) 1 1) [[(1, 1)]]
     = Inr \<lparr>smoothing = 1/10, estimated_keyspace = 1/2, alpha = 1, radius = 1,
            key_data = Some [(1, 1)], n_observations = 1\<rparr>
   \<and> likelihood \<lparr>smoothing = 1/10, estimated_keyspace = 1/2, alpha = 1, radius = 1,
         key_data = Some [(1, 1)] :: atom_data option, n_observations = 1\<rparr>
        (counter_get [(1 :: int, 1)] 1) = Inr (22/21)
   \<and> AtomLL_fit (\<lambda>r fp. fp) (init_BaseLL (1/10) 1 1 1) []
     = Inr \<lparr>smoothing = 1/10, estimated_keyspace = 1, alpha = 1, radius = 1,
            key_data = Some [], n_observations = 0\<rparr>
   \<and> likelihood \<lparr>smoothing = 1/10, estimated_keyspace = 1, alpha = 1, radius = 1,
         key_data = Some [] :: atom_data option, n_observations = 0\<rparr>
        (counter_get ([] :: atom_data) 5) = Inr 1"
  by (simp add: AtomLL_fit_def AtomLL_calculate_observations_def init_BaseLL_def get_fp_def
      fp_items_def counter_get_def likelihood_def py_truediv_def)

section \<open>Molecules without fragments\<close>

lemma AtomLL_empty_fingerprint:
  assumes "get_fp ext a mol = []"
  shows "AtomLL_calculate_ll ext a mol = (if alpha a = 0 then Inr 0 else Inl ZeroDivisionError)"
  using assms by (simp add: AtomLL_calculate_ll_def ll_corrected_zero split: option.splits)

lemma MolLL_empty_fingerprint:
  assumes "get_fp ext m mol = []" "key_data m = Some kd"
  shows "fst (MolLL_calculate_ll ext m mol)
     = (case ll_step m (mol_lookup kd SampleObservationSum 0) 0 (0, 0) of
          Inl e \<Rightarrow> Inl e
        | Inr acc \<Rightarrow> (if alpha m = 0 then Inr 0 else Inl ZeroDivisionError))"
proof -
  obtain c kd' where g: "defaultdict_getitem kd SampleObservationSum = (c, kd')"
    by (cases "defaultdict_getitem kd SampleObservationSum")
  have c: "counter_get c 0 = mol_lookup kd SampleObservationSum 0" using g by (simp add: mol_lookup_def)
  show ?thesis
  proof (cases "ll_step m (mol_lookup kd SampleObservationSum 0) 0 (0, 0)")
    case (Inl e)
    then show ?thesis using assms g c by (simp add: MolLL_calculate_ll_def MolLL_items_def)
  next
    case (Inr acc)
    then have "acc = (0, 0)" by (rule ll_step_zero)
    then show ?thesis using assms g c Inr
      by (simp add: MolLL_calculate_ll_def MolLL_items_def ll_corrected_zero)
  qed
qed

lemma ll_step_positive:
  assumes "0 < smoothing m" "0 < estimated_keyspace m" "0 \<le> n_observations m" "0 \<le> stat"
  shows "\<exists>acc. ll_step m stat n (0, 0) = Inr acc"
proof -
  have num: "0 < real_of_int stat + smoothing m" using assms(1,4) by (simp add: add_nonneg_pos)
  have "0 < estimated_keyspace m * smoothing m" using assms(1,2) by simp
  then have den: "0 < real_of_int (n_observations m) + estimated_keyspace m * smoothing m"
    using assms(3) by (simp add: add_nonneg_pos)
  have "0 < (real_of_int stat + smoothing m)
      / (real_of_int (n_observations m) + estimated_keyspace m * smoothing m)"
    using num den by simp
  then show ?thesis using den by (simp add: ll_step_def likelihood_def py_truediv_def math_log_def)
qed

lemma MolLL_empty_fingerprint_positive:
  assumes "get_fp ext m mol = []" "key_data m = Some kd"
    and "0 < smoothing m" "0 < estimated_keyspace m" "0 \<le> n_observations m"
    and "0 \<le> mol_lookup kd SampleObservationSum 0"
  shows "fst (MolLL_calculate_ll ext m mol)
     = (if alpha m = 0 then Inr 0 else Inl ZeroDivisionError)"
proof -
  obtain acc where "ll_step m (mol_lookup kd SampleObservationSum 0) 0 (0, 0) = Inr acc"
    using ll_step_positive [OF assms(3-6)] by blast
  then show ?thesis using MolLL_empty_fingerprint [OF assms(1,2)] by simp
qed

lemma MolLL_empty_fingerprint_fitted:
  assumes "0 < smoothing m" "0 < estimated_keyspace m"
    and "MolLL_fit np ext m mols = Inr m'" "n_observations m' \<le> 2 ^ 39"
    and "get_fp ext m' mol = []"
  shows "fst (MolLL_calculate_ll ext m' mol)
     = (if alpha m = 0 then Inr 0 else Inl ZeroDivisionError)"
proof -
  have st: "smoothing m' = smoothing m" "estimated_keyspace m' = estimated_keyspace m"
    "alpha m' = alpha m"
    using MolLL_fit_stats [OF assms(3,4)] by simp_all
  obtain kd where kd: "key_data m' = Some kd"
    and b: "\<forall>key counts. 0 \<le> mol_lookup kd key counts
        \<and> mol_lookup kd key counts \<le> n_observations m'"
    using MolLL_fit_stats [OF assms(3,4)] by blast
  have s: "0 < smoothing m'" "0 < estimated_keyspace m'" using assms(1,2) st by simp_all
  have z: "0 \<le> mol_lookup kd SampleObservationSum 0" using b by blast
  have "mol_lookup kd SampleObservationSum 0 \<le> n_observations m'" using b by blast
  then have n: "0 \<le> n_observations m'" using z by simp
  show ?thesis using MolLL_empty_fingerprint_positive [OF assms(5) kd s n z] st(3) by simp
qed

lemma MolLL_empty_fingerprint_error:
  assumes "get_fp ext m mol = []" "key_data m = Some kd" "alpha m \<noteq> 0"
  shows "fst (MolLL_calculate_ll ext m mol) \<in> {Inl ZeroDivisionError, Inl ValueError}"
proof (cases "ll_step m (mol_lookup kd SampleObservationSum 0) 0 (0, 0)")
  case (Inl e)
  then have "e = ZeroDivisionError \<or> e = ValueError" by (rule ll_step_error)
  then show ?thesis using MolLL_empty_fingerprint [OF assms(1,2)] Inl by auto
next
  case (Inr acc)
  then show ?thesis using MolLL_empty_fingerprint [OF assms(1,2)] assms(3) by simp
qed

text \<open>
  C7, as the code has it, for a molecule whose fingerprint is empty.

  \<^item> \<open>AtomLL.calculate_ll\<close>, in every state of the model, raises
    ZeroDivisionError at the final normalisation when \<open>alpha\<close> is not 0
    (\<open>0 ** alpha\<close> is 0, or itself raises for a negative \<open>alpha\<close>), and
    returns 0 when \<open>alpha\<close> is 0, since \<open>0 ** 0\<close> is 1.
  \<^item> \<open>MolLL.calculate_ll\<close> first computes the likelihood of the reserved
    key at count 0.  In a model with statistics whose \<open>smoothing\<close> and
    \<open>estimated_keyspace\<close> are positive and whose \<open>n_observations\<close> and
    statistic of the reserved key are not negative (all within bounds
    between which the binary64 quotient is a positive normal number), that
    likelihood has a logarithm, and the result is the same as for AtomLL:
    ZeroDivisionError when \<open>alpha\<close> is not 0, and 0 when \<open>alpha\<close> is 0.
  \<^item> This is so in particular for every model that \<open>MolLL.fit\<close> returned,
    with at most \<open>2\<^sup>3\<^sup>9\<close> observations.
  \<^item> In every other state with statistics and \<open>alpha\<close> not 0 (integers
    that convert to binary64), \<open>MolLL.calculate_ll\<close> raises
    ZeroDivisionError or ValueError: the latter from \<open>math.log\<close> when
    the likelihood of the reserved key is not positive.
\<close>

theorem empty_fingerprint_score:
  "(get_fp ext a mol = [] \<longrightarrow>
      AtomLL_calculate_ll ext a mol = (if alpha a = 0 then Inr 0 else Inl ZeroDivisionError))
   \<and> (get_fp ext m mol = [] \<and> key_data m = Some kd
        \<and> 1 / 2 ^ 64 \<le> smoothing m \<and> smoothing m \<le> 2 ^ 52
        \<and> 1 / 2 ^ 64 \<le> estimated_keyspace m \<and> estimated_keyspace m \<le> 2 ^ 64
        \<and> 0 \<le> n_observations m \<and> n_observations m \<le> 2 ^ 53
        \<and> 0 \<le> mol_lookup kd SampleObservationSum 0
        \<and> mol_lookup kd SampleObservationSum 0 \<le> 2 ^ 53 \<longrightarrow>
      fst (MolLL_calculate_ll ext m mol)
        = (if alpha m = 0 then Inr 0 else Inl ZeroDivisionError))
   \<and> (1 / 2 ^ 64 \<le> smoothing mi \<and> smoothing mi \<le> 2 ^ 52
        \<and> 1 / 2 ^ 64 \<le> estimated_keyspace mi \<and> estimated_keyspace mi \<le> 2 ^ 64
        \<and> MolLL_fit np ext mi mols = Inr mf \<and> n_observations mf \<le> 2 ^ 39
        \<and> get_fp ext mf mol = [] \<longrightarrow>
      fst (MolLL_calculate_ll ext mf mol)
        = (if alpha mi = 0 then Inr 0 else Inl ZeroDivisionError))
   \<and> (get_fp ext self mol = [] \<and> key_data self = Some skd \<and> alpha self \<noteq> 0
        \<and> \<bar>n_observations self\<bar> \<le> 2 ^ 1023
        \<and> \<bar>mol_lookup skd SampleObservationSum 0\<bar> \<le> 2 ^ 1023 \<longrightarrow>
      fst (MolLL_calculate_ll ext self mol) \<in> {Inl ZeroDivisionError, Inl ValueError})"
proof (intro conjI impI)
  assume "get_fp ext a mol = []"
  then show "AtomLL_calculate_ll ext a mol
      = (if alpha a = 0 then Inr 0 else Inl ZeroDivisionError)"
    by (rule AtomLL_empty_fingerprint)
next
  assume h: "get_fp ext m mol = [] \<and> key_data m = Some kd
        \<and> 1 / 2 ^ 64 \<le> smoothing m \<and> smoothing m \<le> 2 ^ 52
        \<and> 1 / 2 ^ 64 \<le> estimated_keyspace m \<and> estimated_keyspace m \<le> 2 ^ 64
        \<and> 0 \<le> n_observations m \<and> n_observations m \<le> 2 ^ 53
        \<and> 0 \<le> mol_lookup kd SampleObservationSum 0
        \<and> mol_lookup kd SampleObservationSum 0 \<le> 2 ^ 53"
  have p: "(0 :: real) < 1 / 2 ^ 64" by simp
  have s: "0 < smoothing m" and k: "0 < estimated_keyspace m" using h p by linarith+
  have f: "get_fp ext m mol = []" and kd: "key_data m = Some kd"
    and n: "0 \<le> n_observations m" and z: "0 \<le> mol_lookup kd SampleObservationSum 0"
    using h by simp_all
  show "fst (MolLL_calculate_ll ext m mol)
      = (if alpha m = 0 then Inr 0 else Inl ZeroDivisionError)"
    by (rule MolLL_empty_fingerprint_positive [OF f kd s k n z])
next
  assume h: "1 / 2 ^ 64 \<le> smoothing mi \<and> smoothing mi \<le> 2 ^ 52
        \<and> 1 / 2 ^ 64 \<le> estimated_keyspace mi \<and> estimated_keyspace mi \<le> 2 ^ 64
        \<and> MolLL_fit np ext mi mols = Inr mf \<and> n_observations mf \<le> 2 ^ 39
        \<and> get_fp ext mf mol = []"
  have p: "(0 :: real) < 1 / 2 ^ 64" by simp
  have s: "0 < smoothing mi" and k: "0 < estimated_keyspace mi" using h p by linarith+
  have f: "MolLL_fit np ext mi mols = Inr mf" and n: "n_observations mf \<le> 2 ^ 39"
    and e: "get_fp ext mf mol = []"
    using h by simp_all
  show "fst (MolLL_calculate_ll ext mf mol)
      = (if alpha mi = 0 then Inr 0 else Inl ZeroDivisionError)"
    by (rule MolLL_empty_fingerprint_fitted [OF s k f n e])
next
  assume h: "get_fp ext self mol = [] \<and> key_data self = Some skd \<and> alpha self \<noteq> 0
        \<and> \<bar>n_observations self\<bar> \<le> 2 ^ 1023
        \<and> \<bar>mol_lookup skd SampleObservationSum 0\<bar> \<le> 2 ^ 1023"
  then have f: "get_fp ext self mol = []" and kd: "key_data self = Some skd"
    and a: "alpha self \<noteq> 0"
    by simp_all
  show "fst (MolLL_calculate_ll ext self mol) \<in> {Inl ZeroDivisionError, Inl ValueError}"
    by (rule MolLL_empty_fingerprint_error [OF f kd a])
qed

theorem empty_fingerprint_score_witness:
  "AtomLL_calculate_ll (\<lambda>r fp. fp)
      \<lparr>smoothing = 1/10, estimated_keyspace = 10, alpha = 1, radius = 1,
       key_data = Some [(1, 3), (2, 1), (3, 3)], n_observations = 7\<rparr> [] = Inl ZeroDivisionError
   \<and> fst (MolLL_calculate_ll (\<lambda>r fp. fp)
      \<lparr>smoothing = 1/10, estimated_keyspace = 10, alpha = 1, radius = 1,
       key_data = Some [(FragKey 1, [(1, 1)]), (SampleObservationSum, [(1, 1)])],
       n_observations = 2\<rparr> []) = Inl ZeroDivisionError
   \<and> MolLL_fit float64_low (\<lambda>r fp. fp) (init_BaseLL (1/10) 10 0 1) [[(1, 1)]]
     = Inr \<lparr>smoothing = 1/10, estimated_keyspace = 10, alpha = 0, radius = 1,
            key_data = Some [(FragKey 1, [(1, 1)]), (SampleObservationSum, [(1, 1)])],
            n_observations = 2\<rparr>
   \<and> fst (MolLL_calculate_ll (\<lambda>r fp. fp)
      \<lparr>smoothing = 1/10, estimated_keyspace = 10, alpha = 0, radius = 1,
       key_data = Some [(FragKey 1, [(1, 1)]), (SampleObservationSum, [(1, 1)])],
       n_observations = 2\<rparr> []) = Inr 0
   \<and> fst (MolLL_calculate_ll (\<lambda>r fp. fp)
      \<lparr>smoothing = - 1, estimated_keyspace = 10, alpha = 1, radius = 1,
       key_data = Some [], n_observations = 20\<rparr> [])
       \<in> {Inl ZeroDivisionError, Inl ValueError}"
proof -
  let ?ext = "\<lambda>(r :: int) (fp :: fingerprint). fp"
  let ?A = "\<lparr>smoothing = 1/10, estimated_keyspace = 10, alpha = 1, radius = 1,
       key_data = Some [(1, 3), (2, 1), (3, 3)], n_observations = 7\<rparr> :: atom_data BaseLL"
  let ?kd = "[(FragKey 1, [(1, 1)]), (SampleObservationSum, [(1, 1)])] :: mol_data"
  let ?M = "\<lparr>smoothing = 1/10, estimated_keyspace = 10, alpha = 1, radius = 1,
       key_data = Some ?kd, n_observations = 2\<rparr> :: mol_data BaseLL"
  let ?I = "init_BaseLL (1/10) 10 0 1 :: mol_data BaseLL"
  let ?F = "\<lparr>smoothing = 1/10, estimated_keyspace = 10, alpha = 0, radius = 1,
       key_data = Some ?kd, n_observations = 2\<rparr> :: mol_data BaseLL"
  let ?S = "\<lparr>smoothing = - 1, estimated_keyspace = 10, alpha = 1, radius = 1,
       key_data = Some [], n_observations = 20\<rparr> :: mol_data BaseLL"
  have fit: "MolLL_fit float64_low ?ext ?I [[(1, 1)]] = Inr ?F"
    by (simp add: MolLL_fit_def MolLL_raw_key_data_def MolLL_observe_mol_def MolLL_observe_def
      defaultdict_getitem_def get_fp_def init_BaseLL_def counter_get_def
      MolLL_calculate_observations_def key_data_observations_def counter_observations_def
      MolLL_smooth_all_counters_def smooth_counter_1_1)
  have z: "mol_lookup ?kd SampleObservationSum 0 = 0"
    and zs: "mol_lookup [] SampleObservationSum 0 = 0"
    by (simp_all add: mol_lookup_def defaultdict_getitem_def counter_get_def)
  note t = empty_fingerprint_score [where ext = ?ext and mol = "[]" and a = ?A
      and m = ?M and kd = ?kd and np = float64_low and mi = ?I and mols = "[[(1, 1)]]"
      and mf = ?F and self = ?S and skd = "[]"]
  have ha: "get_fp ?ext ?A [] = []" by (simp add: get_fp_def)
  have hb: "get_fp ?ext ?M [] = [] \<and> key_data ?M = Some ?kd
        \<and> 1 / 2 ^ 64 \<le> smoothing ?M \<and> smoothing ?M \<le> 2 ^ 52
        \<and> 1 / 2 ^ 64 \<le> estimated_keyspace ?M \<and> estimated_keyspace ?M \<le> 2 ^ 64
        \<and> 0 \<le> n_observations ?M \<and> n_observations ?M \<le> 2 ^ 53
        \<and> 0 \<le> mol_lookup ?kd SampleObservationSum 0
        \<and> mol_lookup ?kd SampleObservationSum 0 \<le> 2 ^ 53"
    unfolding z by (simp add: get_fp_def)
  have hc: "1 / 2 ^ 64 \<le> smoothing ?I \<and> smoothing ?I \<le> 2 ^ 52
        \<and> 1 / 2 ^ 64 \<le> estimated_keyspace ?I \<and> estimated_keyspace ?I \<le> 2 ^ 64
        \<and> MolLL_fit float64_low ?ext ?I [[(1, 1)]] = Inr ?F \<and> n_observations ?F \<le> 2 ^ 39
        \<and> get_fp ?ext ?F [] = []"
    unfolding fit by (simp add: get_fp_def init_BaseLL_def)
  have hd: "get_fp ?ext ?S [] = [] \<and> key_data ?S = Some [] \<and> alpha ?S \<noteq> 0
        \<and> \<bar>n_observations ?S\<bar> \<le> 2 ^ 1023
        \<and> \<bar>mol_lookup [] SampleObservationSum 0\<bar> \<le> 2 ^ 1023"
    unfolding zs by (simp add: get_fp_def)
  have ra: "AtomLL_calculate_ll ?ext ?A [] = Inl ZeroDivisionError"
    using t [THEN conjunct1, THEN mp, OF ha] by simp
  have rb: "fst (MolLL_calculate_ll ?ext ?M []) = Inl ZeroDivisionError"
    using t [THEN conjunct2, THEN conjunct1, THEN mp, OF hb] by simp
  have rc: "fst (MolLL_calculate_ll ?ext ?F []) = Inr 0"
    using t [THEN conjunct2, THEN conjunct2, THEN conjunct1, THEN mp, OF hc]
    by (simp add: init_BaseLL_def)
  have rd: "fst (MolLL_calculate_ll ?ext ?S []) \<in> {Inl ZeroDivisionError, Inl ValueError}"
    by (rule t [THEN conjunct2, THEN conjunct2, THEN conjunct2, THEN mp, OF hd])
  from ra rb fit rc rd show ?thesis by (intro conjI)
qed

text \<open>
  C7 as stated fails: with \<open>alpha = 0\<close> the score of an empty fingerprint is 0.
\<close>

theorem empty_fingerprint_score_counterexample:
  "AtomLL_calculate_ll (\<lambda>r fp. fp)
      \<lparr>smoothing = 1/10, estimated_keyspace = 10, alpha = 0, radius = 1,
       key_data = Some [(1, 3), (2, 1), (3, 3)], n_observations = 7\<rparr> [] = Inr 0"
  by (simp add: AtomLL_calculate_ll_def get_fp_def ll_corrected_def py_pow_def py_truediv_def)

section \<open>Persistence\<close>

declare str_nat.simps [simp del]

lemma digit_val_digit_char: "d < 10 \<Longrightarrow> digit_val (digit_char d) = Some d"
  by (simp add: digit_val_def digit_char_def)

lemma parse_digits_append:
  "parse_digits (xs @ ys) acc =
     (case parse_digits xs acc of None \<Rightarrow> None | Some a \<Rightarrow> parse_digits ys a)"
  by (induction xs arbitrary: acc) (auto split: option.splits)

lemma parse_digits_str_nat: "parse_digits (str_nat n) 0 = Some n"
proof (induction n rule: str_nat.induct)
  case (1 n)
  show ?case
  proof (cases "n < 10")
    case True
    then show ?thesis by (subst str_nat.simps) (simp add: digit_val_digit_char)
  next
    case False
    then have "parse_digits (str_nat (n div 10)) 0 = Some (n div 10)" using 1 by simp
    then show ?thesis using False
      by (subst str_nat.simps) (simp add: parse_digits_append digit_val_digit_char)
  qed
qed

lemma str_nat_nonempty: "str_nat n \<noteq> []"
  by (subst str_nat.simps) simp

lemma parse_nat_str_nat: "parse_nat (str_nat n) = Inr n"
  by (simp add: parse_nat_def str_nat_nonempty parse_digits_str_nat)

lemma str_nat_head:
  assumes "str_nat n = c # cs"
  shows "c \<noteq> CHR ''-'' \<and> c \<noteq> CHR ''+''"
proof -
  have "parse_digits (c # cs) 0 = Some n" using parse_digits_str_nat [of n] assms by simp
  then have "digit_val c \<noteq> None" by (auto split: option.splits)
  moreover have "digit_val CHR ''-'' = None" "digit_val CHR ''+'' = None"
    by (simp_all add: digit_val_def)
  ultimately show ?thesis by auto
qed

lemma int_of_str_py_str: "int_of_str (py_str i) = Inr i"
proof (cases "i < 0")
  case True
  then show ?thesis by (simp add: int_of_str_def py_str_def parse_nat_str_nat)
next
  case False
  obtain c cs where s: "str_nat (nat i) = c # cs"
    using str_nat_nonempty [of "nat i"] by (cases "str_nat (nat i)") auto
  have "parse_nat (c # cs) = Inr (nat i)" using parse_nat_str_nat [of "nat i"] s by simp
  then show ?thesis using False s str_nat_head [OF s]
    by (simp add: int_of_str_def py_str_def)
qed

lemma py_int_json_key: "py_int (json_key (IKey i)) = Inr i"
  by (simp add: int_of_str_py_str)

lemma int_of_str_reserved: "int_of_str ''SampleObservationSum'' = Inl ValueError"
  by (simp add: int_of_str_def parse_nat_def digit_val_def)

lemma py_str_not_reserved: "py_str i \<noteq> ''SampleObservationSum''"
  using int_of_str_py_str [of i] int_of_str_reserved by auto

lemma MolLL_fpkey_pykey_of: "MolLL_fpkey (pykey_of key) = Inr key"
  by (cases key) (simp_all add: MolLL_fpkey_def)

lemma MolLL_fpkey_json_key: "MolLL_fpkey (json_key (pykey_of key)) = Inr key"
  by (cases key) (simp_all add: MolLL_fpkey_def int_of_str_py_str py_str_not_reserved)

lemma int_of_str_error: "int_of_str s = Inl e \<Longrightarrow> e = ValueError"
  by (auto simp: int_of_str_def parse_nat_def split: list.splits if_splits sum.splits option.splits)

lemma py_int_error: "py_int k = Inl e \<Longrightarrow> e = ValueError"
  by (cases k) (auto dest: int_of_str_error)

lemma int_keys_error: "int_keys items acc = Inl e \<Longrightarrow> e = ValueError"
  by (induction items acc rule: int_keys.induct) (auto split: sum.splits dest: py_int_error)

lemma MolLL_fpkey_error: "MolLL_fpkey k = Inl e \<Longrightarrow> e = ValueError"
  by (auto simp: MolLL_fpkey_def split: if_splits sum.splits dest: py_int_error)

lemma MolLL_key_data_object_error: "MolLL_key_data_object items acc = Inl e \<Longrightarrow> e = ValueError"
  by (induction items acc rule: MolLL_key_data_object.induct)
     (auto split: sum.splits dest: MolLL_fpkey_error int_keys_error)


lemma update_fresh: "k \<notin> fst ` set al \<Longrightarrow> AList.update k v al = al @ [(k, v)]"
  by (induction al) auto

lemma json_object_distinct:
  assumes "inj_on json_key (fst ` set d)" "distinct (map fst d)"
  shows "json_object f d = map (\<lambda>(key, value). (json_key key, f value)) d"
proof -
  have "fst ` set acc \<inter> json_key ` fst ` set d = {} \<Longrightarrow>
      inj_on json_key (fst ` set d) \<Longrightarrow> distinct (map fst d) \<Longrightarrow>
      fold (\<lambda>(key, value) d'. AList.update (json_key key) (f value) d') d acc
        = acc @ map (\<lambda>(key, value). (json_key key, f value)) d" for acc
  proof (induction d arbitrary: acc)
    case Nil
    show ?case by simp
  next
    case (Cons item d)
    obtain key val where item: "item = (key, val)" by (cases item)
    have fresh: "json_key key \<notin> fst ` set acc" using Cons.prems(1) item by auto
    have inj: "inj_on json_key (fst ` set d)" using Cons.prems(2) by (simp add: inj_on_def)
    have "json_key key \<notin> json_key ` fst ` set d"
    proof
      assume "json_key key \<in> json_key ` fst ` set d"
      then obtain k' where k': "k' \<in> fst ` set d" "json_key k' = json_key key"
        by (metis imageE)
      then have "k' = key" using Cons.prems(2) item by (auto simp: inj_on_def)
      then show False using k'(1) Cons.prems(3) item by simp
    qed
    then have "fst ` set (acc @ [(json_key key, f val)]) \<inter> json_key ` fst ` set d = {}"
      using Cons.prems(1) by auto
    then have "fold (\<lambda>(key, value) d'. AList.update (json_key key) (f value) d') d
        (acc @ [(json_key key, f val)])
        = (acc @ [(json_key key, f val)]) @ map (\<lambda>(key, value). (json_key key, f value)) d"
      using Cons.IH inj Cons.prems(3) by simp
    then show ?case using item update_fresh [OF fresh] by simp
  qed
  from this [of "[]"] assms show ?thesis by (simp add: json_object_def)
qed

lemma int_keys_decode:
  assumes "\<And>k. py_int (enc k) = Inr k"
  shows "fst ` set acc \<inter> fst ` set kd = {} \<Longrightarrow> distinct (map fst kd) \<Longrightarrow>
    int_keys (map (\<lambda>(k, v). (enc k, v)) kd) acc = Inr (acc @ kd)"
proof (induction kd arbitrary: acc)
  case Nil
  show ?case by simp
next
  case (Cons item kd)
  obtain k v where item: "item = (k, v)" by (cases item)
  have fresh: "k \<notin> fst ` set acc" using Cons.prems(1) item by auto
  have "fst ` set (acc @ [(k, v)]) \<inter> fst ` set kd = {}"
    using Cons.prems item by auto
  then have "int_keys (map (\<lambda>(k, v). (enc k, v)) kd) (acc @ [(k, v)]) = Inr ((acc @ [(k, v)]) @ kd)"
    using Cons.IH Cons.prems(2) by simp
  then show ?case using item assms update_fresh [OF fresh] by simp
qed

lemma inj_on_json_IKey: "inj_on json_key (IKey ` A)"
proof (rule inj_onI)
  fix x y assume "x \<in> IKey ` A" "y \<in> IKey ` A" "json_key x = json_key y"
  then obtain i j where "x = IKey i" "y = IKey j" "py_int (json_key (IKey i)) = py_int (json_key (IKey j))"
    by auto
  then show "x = y" by (simp only: py_int_json_key) simp
qed

lemma inj_on_json_pykey_of: "inj_on json_key (pykey_of ` A)"
proof (rule inj_onI)
  fix x y assume "x \<in> pykey_of ` A" "y \<in> pykey_of ` A" "json_key x = json_key y"
  then obtain i j where "x = pykey_of i" "y = pykey_of j"
    "MolLL_fpkey (json_key (pykey_of i)) = MolLL_fpkey (json_key (pykey_of j))"
    by auto
  then show "x = y" by (simp only: MolLL_fpkey_json_key) simp
qed

lemma inj_pykey_of: "inj pykey_of"
proof (rule injI)
  fix x y assume "pykey_of x = pykey_of y"
  then have "MolLL_fpkey (pykey_of x) = MolLL_fpkey (pykey_of y)" by simp
  then show "x = y" by (simp only: MolLL_fpkey_pykey_of) simp
qed

lemma json_counter:
  assumes "distinct (map fst c)"
  shows "json_object (\<lambda>value. value) (map (\<lambda>(count, f). (IKey count, f)) c)
     = map (\<lambda>(count, f). (json_key (IKey count), f)) c"
proof -
  let ?d = "map (\<lambda>(count, f). (IKey count, f)) c"
  have fst: "map fst ?d = map IKey (map fst c)" by (induction c) auto
  have "fst ` set ?d = IKey ` fst ` set c" by force
  then have "inj_on json_key (fst ` set ?d)" by (simp add: inj_on_json_IKey)
  moreover have "distinct (map fst ?d)"
    unfolding fst using assms by (simp add: distinct_map inj_on_def)
  ultimately have "json_object (\<lambda>value. value) ?d = map (\<lambda>(key, value). (json_key key, value)) ?d"
    by (rule json_object_distinct)
  then show ?thesis by (simp add: case_prod_beta comp_def)
qed

lemma int_keys_counter:
  assumes "distinct (map fst c)"
  shows "int_keys (map (\<lambda>(count, f). (IKey count, f)) c) [] = Inr c"
    and "int_keys (map (\<lambda>(count, f). (json_key (IKey count), f)) c) [] = Inr c"
  using int_keys_decode [of IKey "[]" c] int_keys_decode [of "\<lambda>k. json_key (IKey k)" "[]" c]
    assms py_int_json_key by simp_all


lemma MolLL_key_data_object_decode:
  assumes "\<And>key. MolLL_fpkey (enc key) = Inr key"
  shows "\<forall>(key, c) \<in> set kd. int_keys (encc c) [] = Inr c \<Longrightarrow>
    fst ` set acc \<inter> fst ` set kd = {} \<Longrightarrow> distinct (map fst kd) \<Longrightarrow>
    MolLL_key_data_object (map (\<lambda>(key, c). (enc key, encc c)) kd) acc = Inr (acc @ kd)"
proof (induction kd arbitrary: acc)
  case Nil
  show ?case by simp
next
  case (Cons item kd)
  obtain key c where item: "item = (key, c)" by (cases item)
  have fresh: "key \<notin> fst ` set acc" using Cons.prems(2) item by auto
  have c: "int_keys (encc c) [] = Inr c" using Cons.prems(1) item by simp
  have "fst ` set (acc @ [(key, c)]) \<inter> fst ` set kd = {}"
    using Cons.prems item by auto
  then have "MolLL_key_data_object (map (\<lambda>(key, c). (enc key, encc c)) kd) (acc @ [(key, c)])
      = Inr ((acc @ [(key, c)]) @ kd)"
    using Cons.IH Cons.prems(1,3) by simp
  then show ?case using item assms c update_fresh [OF fresh] by simp
qed

lemma json_mol_data:
  assumes "distinct (map fst kd)" "\<forall>(key, c) \<in> set kd. distinct (map fst c)"
  shows "json_object (json_object (\<lambda>value. value))
       (map (\<lambda>(key, counter). (pykey_of key, map (\<lambda>(count, f). (IKey count, f)) counter)) kd)
     = map (\<lambda>(key, counter).
         (json_key (pykey_of key), map (\<lambda>(count, f). (json_key (IKey count), f)) counter)) kd"
proof -
  let ?d = "map (\<lambda>(key, counter). (pykey_of key, map (\<lambda>(count, f). (IKey count, f)) counter)) kd"
  have fst: "map fst ?d = map pykey_of (map fst kd)" by (induction kd) auto
  have "fst ` set ?d = pykey_of ` fst ` set kd" by force
  then have "inj_on json_key (fst ` set ?d)" by (simp add: inj_on_json_pykey_of)
  moreover have "distinct (map fst ?d)"
    unfolding fst using assms(1) inj_pykey_of by (simp add: distinct_map inj_on_def)
  ultimately have "json_object (json_object (\<lambda>value. value)) ?d
      = map (\<lambda>(key, value). (json_key key, json_object (\<lambda>value. value) value)) ?d"
    by (rule json_object_distinct)
  also have "\<dots> = map (\<lambda>(key, counter).
         (json_key (pykey_of key), map (\<lambda>(count, f). (json_key (IKey count), f)) counter)) kd"
    using assms(2) by (auto simp: json_counter)
  finally show ?thesis .
qed

lemma AtomLL_roundtrip:
  assumes "key_data a = Some kd" "distinct (map fst kd)"
  shows "(\<exists>sd. AtomLL_save a = Inr sd \<and> AtomLL_set_savedict sd a0 = (None, a))
    \<and> (\<exists>sd. AtomLL_get_savedict a = Inr sd \<and> AtomLL_set_savedict sd a0 = (None, a))"
  using assms json_counter [OF assms(2)] int_keys_counter [OF assms(2)]
  by (cases a; cases a0)
     (simp add: AtomLL_save_def AtomLL_get_savedict_def get_savedict_def
        AtomLL_get_keydata_as_dict_def AtomLL_json_def AtomLL_set_savedict_def set_savedict_def
        AtomLL_set_keydata_from_dict_def)

lemma MolLL_roundtrip:
  assumes "key_data m = Some kd" "distinct (map fst kd)"
    "\<forall>(key, c) \<in> set kd. distinct (map fst c)"
  shows "(\<exists>sd. MolLL_save m = Inr sd \<and> MolLL_set_savedict sd m0 = (None, m))
    \<and> (\<exists>sd. MolLL_get_savedict m = Inr sd \<and> MolLL_set_savedict sd m0 = (None, m))"
proof -
  have h1: "\<forall>(key, c) \<in> set kd.
      int_keys (map (\<lambda>(count, f). (json_key (IKey count), f)) c) [] = Inr c"
    using assms(3) int_keys_counter(2) by auto
  have h2: "\<forall>(key, c) \<in> set kd. int_keys (map (\<lambda>(count, f). (IKey count, f)) c) [] = Inr c"
    using assms(3) int_keys_counter(1) by auto
  have e: "fst ` set ([] :: mol_data) \<inter> fst ` set kd = {}" by simp
  have d1: "MolLL_key_data_object
      (map (\<lambda>(key, counter).
         (json_key (pykey_of key), map (\<lambda>(count, f). (json_key (IKey count), f)) counter)) kd) []
      = Inr ([] @ kd)"
    by (rule MolLL_key_data_object_decode [where enc = "\<lambda>key. json_key (pykey_of key)"
          and encc = "\<lambda>counter. map (\<lambda>(count, f). (json_key (IKey count), f)) counter",
          OF MolLL_fpkey_json_key h1 e assms(2)])
  have d2: "MolLL_key_data_object
      (map (\<lambda>(key, counter). (pykey_of key, map (\<lambda>(count, f). (IKey count, f)) counter)) kd) []
      = Inr ([] @ kd)"
    by (rule MolLL_key_data_object_decode [where enc = pykey_of
          and encc = "\<lambda>counter. map (\<lambda>(count, f). (IKey count, f)) counter",
          OF MolLL_fpkey_pykey_of h2 e assms(2)])
  show ?thesis
    using assms(1) json_mol_data [OF assms(2,3)] d1 d2
    by (cases m; cases m0)
       (simp add: MolLL_save_def MolLL_get_savedict_def get_savedict_def
        MolLL_get_keydata_as_dict_def MolLL_json_def MolLL_set_savedict_def set_savedict_def
        MolLL_set_keydata_from_dict_def)
qed


text \<open>
  C5: for a fitted model of either class (its statistics a dict, each
  key once), \<open>save\<close> writes a save dict, and loading that dict into any
  model of the same class returns without error and leaves exactly the
  saved model: the same configuration, \<open>_n_observations\<close> and
  \<open>_key_data\<close>, the integer keys read back from their decimal text and
  \<open>"SampleObservationSum"\<close> kept as it is.  The loaded model therefore
  scores every molecule as the saved one does.  The same holds for
  \<open>set_savedict\<close> on the result of \<open>get_savedict\<close> without the file in
  between.
\<close>

theorem save_load_roundtrip:
  "(key_data a = Some akd \<and> distinct (map fst akd) \<longrightarrow>
      (\<exists>sd. AtomLL_save a = Inr sd \<and> AtomLL_set_savedict sd b = (None, a)
          \<and> AtomLL_calculate_ll ext (snd (AtomLL_set_savedict sd b)) mol
              = AtomLL_calculate_ll ext a mol)
    \<and> (\<exists>sd. AtomLL_get_savedict a = Inr sd \<and> AtomLL_set_savedict sd b = (None, a)))
   \<and> (key_data m = Some mkd \<and> distinct (map fst mkd)
        \<and> (\<forall>(key, c) \<in> set mkd. distinct (map fst c)) \<longrightarrow>
      (\<exists>sd. MolLL_save m = Inr sd \<and> MolLL_set_savedict sd n = (None, m)
          \<and> MolLL_calculate_ll ext (snd (MolLL_set_savedict sd n)) mol
              = MolLL_calculate_ll ext m mol)
    \<and> (\<exists>sd. MolLL_get_savedict m = Inr sd \<and> MolLL_set_savedict sd n = (None, m)))"
proof (intro conjI impI)
  assume h: "key_data a = Some akd \<and> distinct (map fst akd)"
  then have r: "(\<exists>sd. AtomLL_save a = Inr sd \<and> AtomLL_set_savedict sd b = (None, a))
    \<and> (\<exists>sd. AtomLL_get_savedict a = Inr sd \<and> AtomLL_set_savedict sd b = (None, a))"
    using AtomLL_roundtrip [of a akd b] by simp
  then obtain sd where "AtomLL_save a = Inr sd" "AtomLL_set_savedict sd b = (None, a)" by blast
  then show "\<exists>sd. AtomLL_save a = Inr sd \<and> AtomLL_set_savedict sd b = (None, a)
          \<and> AtomLL_calculate_ll ext (snd (AtomLL_set_savedict sd b)) mol
              = AtomLL_calculate_ll ext a mol"
    by simp
  show "\<exists>sd. AtomLL_get_savedict a = Inr sd \<and> AtomLL_set_savedict sd b = (None, a)"
    using r by blast
next
  assume h: "key_data m = Some mkd \<and> distinct (map fst mkd)
        \<and> (\<forall>(key, c) \<in> set mkd. distinct (map fst c))"
  then have r: "(\<exists>sd. MolLL_save m = Inr sd \<and> MolLL_set_savedict sd n = (None, m))
    \<and> (\<exists>sd. MolLL_get_savedict m = Inr sd \<and> MolLL_set_savedict sd n = (None, m))"
    using MolLL_roundtrip [of m mkd n] by simp
  then obtain sd where "MolLL_save m = Inr sd" "MolLL_set_savedict sd n = (None, m)" by blast
  then show "\<exists>sd. MolLL_save m = Inr sd \<and> MolLL_set_savedict sd n = (None, m)
          \<and> MolLL_calculate_ll ext (snd (MolLL_set_savedict sd n)) mol
              = MolLL_calculate_ll ext m mol"
    by simp
  show "\<exists>sd. MolLL_get_savedict m = Inr sd \<and> MolLL_set_savedict sd n = (None, m)"
    using r by blast
qed

lemma str_nat_digits: "str_nat 1 = ''1''" "str_nat 2 = ''2''" "str_nat 3 = ''3''"
  by code_simp+


lemma py_str_digits: "py_str 1 = ''1''" "py_str 2 = ''2''" "py_str 3 = ''3''"
  by code_simp+

lemma AtomLL_save_example:
  "AtomLL_save \<lparr>smoothing = 1/10, estimated_keyspace = 10, alpha = 0, radius = 1,
       key_data = Some [(1, 3), (2, 1), (3, 3)], n_observations = 7\<rparr>
     = Inr \<lparr>Model = ''AtomLL'', sd_smoothing = 1/10, sd_estimated_keyspace = 10, sd_alpha = 0,
            sd_radius = 1, sd_n_observations = 7,
            sd_key_data = [(SKey ''1'', 3), (SKey ''2'', 1), (SKey ''3'', 3)]\<rparr>"
  by (simp add: AtomLL_save_def AtomLL_get_savedict_def get_savedict_def
      AtomLL_get_keydata_as_dict_def AtomLL_json_def json_object_def py_str_digits)

lemma MolLL_save_example:
  "MolLL_save \<lparr>smoothing = 1/10, estimated_keyspace = 10, alpha = 1, radius = 1,
       key_data = Some [(FragKey 1, [(1, 1)]), (SampleObservationSum, [(1, 1)])],
       n_observations = 2\<rparr>
     = Inr \<lparr>Model = ''MolLL'', sd_smoothing = 1/10, sd_estimated_keyspace = 10, sd_alpha = 1,
            sd_radius = 1, sd_n_observations = 2,
            sd_key_data = [(SKey ''1'', [(SKey ''1'', 1)]),
                           (SKey ''SampleObservationSum'', [(SKey ''1'', 1)])]\<rparr>"
  by (simp add: MolLL_save_def MolLL_get_savedict_def get_savedict_def
      MolLL_get_keydata_as_dict_def MolLL_json_def json_object_def py_str_digits)

theorem save_load_roundtrip_witness:
  "AtomLL_save \<lparr>smoothing = 1/10, estimated_keyspace = 10, alpha = 0, radius = 1,
       key_data = Some [(1, 3), (2, 1), (3, 3)], n_observations = 7\<rparr>
     = Inr \<lparr>Model = ''AtomLL'', sd_smoothing = 1/10, sd_estimated_keyspace = 10, sd_alpha = 0,
            sd_radius = 1, sd_n_observations = 7,
            sd_key_data = [(SKey ''1'', 3), (SKey ''2'', 1), (SKey ''3'', 3)]\<rparr>
   \<and> AtomLL_set_savedict
        \<lparr>Model = ''AtomLL'', sd_smoothing = 1/10, sd_estimated_keyspace = 10, sd_alpha = 0,
         sd_radius = 1, sd_n_observations = 7,
         sd_key_data = [(SKey ''1'', 3), (SKey ''2'', 1), (SKey ''3'', 3)]\<rparr>
        (init_BaseLL (5/10) 2000000 1 2)
     = (None, \<lparr>smoothing = 1/10, estimated_keyspace = 10, alpha = 0, radius = 1,
               key_data = Some [(1, 3), (2, 1), (3, 3)], n_observations = 7\<rparr>)
   \<and> MolLL_save \<lparr>smoothing = 1/10, estimated_keyspace = 10, alpha = 1, radius = 1,
       key_data = Some [(FragKey 1, [(1, 1)]), (SampleObservationSum, [(1, 1)])],
       n_observations = 2\<rparr>
     = Inr \<lparr>Model = ''MolLL'', sd_smoothing = 1/10, sd_estimated_keyspace = 10, sd_alpha = 1,
            sd_radius = 1, sd_n_observations = 2,
            sd_key_data = [(SKey ''1'', [(SKey ''1'', 1)]),
                           (SKey ''SampleObservationSum'', [(SKey ''1'', 1)])]\<rparr>
   \<and> MolLL_set_savedict
        \<lparr>Model = ''MolLL'', sd_smoothing = 1/10, sd_estimated_keyspace = 10, sd_alpha = 1,
         sd_radius = 1, sd_n_observations = 2,
         sd_key_data = [(SKey ''1'', [(SKey ''1'', 1)]),
                        (SKey ''SampleObservationSum'', [(SKey ''1'', 1)])]\<rparr>
        (init_BaseLL (5/10) 2000000 1 2)
     = (None, \<lparr>smoothing = 1/10, estimated_keyspace = 10, alpha = 1, radius = 1,
               key_data = Some [(FragKey 1, [(1, 1)]), (SampleObservationSum, [(1, 1)])],
               n_observations = 2\<rparr>)"
proof -
  let ?A = "\<lparr>smoothing = 1/10, estimated_keyspace = 10, alpha = 0, radius = 1,
       key_data = Some [(1, 3), (2, 1), (3, 3)], n_observations = 7\<rparr> :: atom_data BaseLL"
  let ?M = "\<lparr>smoothing = 1/10, estimated_keyspace = 10, alpha = 1, radius = 1,
       key_data = Some [(FragKey 1, [(1, 1)]), (SampleObservationSum, [(1, 1)])],
       n_observations = 2\<rparr> :: mol_data BaseLL"
  have ha: "key_data ?A = Some [(1, 3), (2, 1), (3, 3)]
      \<and> distinct (map fst [(1 :: int, 3 :: int), (2, 1), (3, 3)])"
    by simp
  have hm: "key_data ?M = Some [(FragKey 1, [(1, 1)]), (SampleObservationSum, [(1, 1)])]
      \<and> distinct (map fst [(FragKey 1, [(1 :: int, 1 :: int)]), (SampleObservationSum, [(1, 1)])])
      \<and> (\<forall>(key, c) \<in> set [(FragKey 1, [(1 :: int, 1 :: int)]), (SampleObservationSum, [(1, 1)])].
            distinct (map fst c))"
    by simp
  note t = save_load_roundtrip [where a = ?A and akd = "[(1, 3), (2, 1), (3, 3)]"
      and b = "init_BaseLL (5/10) 2000000 1 2" and m = ?M
      and mkd = "[(FragKey 1, [(1, 1)]), (SampleObservationSum, [(1, 1)])]"
      and n = "init_BaseLL (5/10) 2000000 1 2"
      and ext = "\<lambda>(r :: int) (fp :: fingerprint). fp" and mol = "[]"]
  obtain sda where sda: "AtomLL_save ?A = Inr sda"
      "AtomLL_set_savedict sda (init_BaseLL (5/10) 2000000 1 2) = (None, ?A)"
    using t ha by blast
  obtain sdm where sdm: "MolLL_save ?M = Inr sdm"
      "MolLL_set_savedict sdm (init_BaseLL (5/10) 2000000 1 2) = (None, ?M)"
    using t hm by blast
  show ?thesis
    using sda sdm unfolding AtomLL_save_example MolLL_save_example by simp
qed


text \<open>
  C8: \<open>set_savedict\<close> raises AssertionError exactly when the record's
  \<open>"Model"\<close> entry is not the name of the class it is loaded into, and
  then leaves the model unchanged.  On a matching name, and keys that
  \<open>int\<close> accepts, as every saved record has them, it returns without error
  and every field of the model is the record's: the configuration,
  \<open>_n_observations\<close> and the statistics with their keys converted.
\<close>

theorem set_savedict_type_check:
  "(fst (AtomLL_set_savedict sd a) = Some AssertionError \<longleftrightarrow> Model sd \<noteq> ''AtomLL'')
   \<and> (Model sd \<noteq> ''AtomLL'' \<longrightarrow> snd (AtomLL_set_savedict sd a) = a)
   \<and> (Model sd = ''AtomLL'' \<and> int_keys (sd_key_data sd) [] = Inr akd \<longrightarrow>
        AtomLL_set_savedict sd a
          = (None, \<lparr>smoothing = sd_smoothing sd, estimated_keyspace = sd_estimated_keyspace sd,
                    alpha = sd_alpha sd, radius = sd_radius sd, key_data = Some akd,
                    n_observations = sd_n_observations sd\<rparr>))
   \<and> (fst (MolLL_set_savedict sd' m) = Some AssertionError \<longleftrightarrow> Model sd' \<noteq> ''MolLL'')
   \<and> (Model sd' \<noteq> ''MolLL'' \<longrightarrow> snd (MolLL_set_savedict sd' m) = m)
   \<and> (Model sd' = ''MolLL'' \<and> MolLL_key_data_object (sd_key_data sd') [] = Inr mkd \<longrightarrow>
        MolLL_set_savedict sd' m
          = (None, \<lparr>smoothing = sd_smoothing sd', estimated_keyspace = sd_estimated_keyspace sd',
                    alpha = sd_alpha sd', radius = sd_radius sd', key_data = Some mkd,
                    n_observations = sd_n_observations sd'\<rparr>))"
proof (intro conjI)
  show "fst (AtomLL_set_savedict sd a) = Some AssertionError \<longleftrightarrow> Model sd \<noteq> ''AtomLL''"
    by (auto simp: AtomLL_set_savedict_def set_savedict_def AtomLL_set_keydata_from_dict_def
        split: sum.splits dest: int_keys_error)
  show "Model sd \<noteq> ''AtomLL'' \<longrightarrow> snd (AtomLL_set_savedict sd a) = a"
    by (simp add: AtomLL_set_savedict_def set_savedict_def)
  show "Model sd = ''AtomLL'' \<and> int_keys (sd_key_data sd) [] = Inr akd \<longrightarrow>
        AtomLL_set_savedict sd a
          = (None, \<lparr>smoothing = sd_smoothing sd, estimated_keyspace = sd_estimated_keyspace sd,
                    alpha = sd_alpha sd, radius = sd_radius sd, key_data = Some akd,
                    n_observations = sd_n_observations sd\<rparr>)"
    by (cases a) (simp add: AtomLL_set_savedict_def set_savedict_def AtomLL_set_keydata_from_dict_def)
  show "fst (MolLL_set_savedict sd' m) = Some AssertionError \<longleftrightarrow> Model sd' \<noteq> ''MolLL''"
    by (auto simp: MolLL_set_savedict_def set_savedict_def MolLL_set_keydata_from_dict_def
        split: sum.splits dest: MolLL_key_data_object_error)
  show "Model sd' \<noteq> ''MolLL'' \<longrightarrow> snd (MolLL_set_savedict sd' m) = m"
    by (simp add: MolLL_set_savedict_def set_savedict_def)
  show "Model sd' = ''MolLL'' \<and> MolLL_key_data_object (sd_key_data sd') [] = Inr mkd \<longrightarrow>
        MolLL_set_savedict sd' m
          = (None, \<lparr>smoothing = sd_smoothing sd', estimated_keyspace = sd_estimated_keyspace sd',
                    alpha = sd_alpha sd', radius = sd_radius sd', key_data = Some mkd,
                    n_observations = sd_n_observations sd'\<rparr>)"
    by (cases m) (simp add: MolLL_set_savedict_def set_savedict_def MolLL_set_keydata_from_dict_def)
qed


lemma int_keys_example:
  "int_keys [(SKey ''1'', 3 :: int), (SKey ''2'', 1), (SKey ''3'', 3)] [] = Inr [(1, 3), (2, 1), (3, 3)]"
  by code_simp

lemma MolLL_key_data_object_example:
  "MolLL_key_data_object [(SKey ''1'', [(SKey ''1'', 1)]),
       (SKey ''SampleObservationSum'', [(SKey ''1'', 1)])] []
     = Inr [(FragKey 1, [(1, 1)]), (SampleObservationSum, [(1, 1)])]"
  by code_simp

theorem set_savedict_type_check_witness:
  "AtomLL_set_savedict
      \<lparr>Model = ''MolLL'', sd_smoothing = 1/10, sd_estimated_keyspace = 10, sd_alpha = 0,
       sd_radius = 1, sd_n_observations = 7,
       sd_key_data = [(SKey ''1'', 3), (SKey ''2'', 1), (SKey ''3'', 3)]\<rparr>
      (init_BaseLL (5/10) 2000000 1 2)
     = (Some AssertionError, init_BaseLL (5/10) 2000000 1 2)
   \<and> AtomLL_set_savedict
      \<lparr>Model = ''AtomLL'', sd_smoothing = 1/10, sd_estimated_keyspace = 10, sd_alpha = 0,
       sd_radius = 1, sd_n_observations = 7,
       sd_key_data = [(SKey ''1'', 3), (SKey ''2'', 1), (SKey ''3'', 3)]\<rparr>
      (init_BaseLL (5/10) 2000000 1 2)
     = (None, \<lparr>smoothing = 1/10, estimated_keyspace = 10, alpha = 0, radius = 1,
               key_data = Some [(1, 3), (2, 1), (3, 3)], n_observations = 7\<rparr>)
   \<and> MolLL_set_savedict
      \<lparr>Model = ''AtomLL'', sd_smoothing = 1/10, sd_estimated_keyspace = 10, sd_alpha = 1,
       sd_radius = 1, sd_n_observations = 2,
       sd_key_data = [(SKey ''1'', [(SKey ''1'', 1)]),
                      (SKey ''SampleObservationSum'', [(SKey ''1'', 1)])]\<rparr>
      (init_BaseLL (5/10) 2000000 1 2)
     = (Some AssertionError, init_BaseLL (5/10) 2000000 1 2)
   \<and> MolLL_set_savedict
      \<lparr>Model = ''MolLL'', sd_smoothing = 1/10, sd_estimated_keyspace = 10, sd_alpha = 1,
       sd_radius = 1, sd_n_observations = 2,
       sd_key_data = [(SKey ''1'', [(SKey ''1'', 1)]),
                      (SKey ''SampleObservationSum'', [(SKey ''1'', 1)])]\<rparr>
      (init_BaseLL (5/10) 2000000 1 2)
     = (None, \<lparr>smoothing = 1/10, estimated_keyspace = 10, alpha = 1, radius = 1,
               key_data = Some [(FragKey 1, [(1, 1)]), (SampleObservationSum, [(1, 1)])],
               n_observations = 2\<rparr>)"
proof -
  let ?fresh_a = "init_BaseLL (5/10) 2000000 1 2 :: atom_data BaseLL"
  let ?fresh_m = "init_BaseLL (5/10) 2000000 1 2 :: mol_data BaseLL"
  let ?wrong_a = "\<lparr>Model = ''MolLL'', sd_smoothing = 1/10, sd_estimated_keyspace = 10, sd_alpha = 0,
       sd_radius = 1, sd_n_observations = 7,
       sd_key_data = [(SKey ''1'', 3), (SKey ''2'', 1), (SKey ''3'', 3)]\<rparr> :: atom_keydict savedict"
  let ?right_a = "\<lparr>Model = ''AtomLL'', sd_smoothing = 1/10, sd_estimated_keyspace = 10, sd_alpha = 0,
       sd_radius = 1, sd_n_observations = 7,
       sd_key_data = [(SKey ''1'', 3), (SKey ''2'', 1), (SKey ''3'', 3)]\<rparr> :: atom_keydict savedict"
  let ?wrong_m = "\<lparr>Model = ''AtomLL'', sd_smoothing = 1/10, sd_estimated_keyspace = 10, sd_alpha = 1,
       sd_radius = 1, sd_n_observations = 2,
       sd_key_data = [(SKey ''1'', [(SKey ''1'', 1)]),
                      (SKey ''SampleObservationSum'', [(SKey ''1'', 1)])]\<rparr> :: mol_keydict savedict"
  let ?right_m = "\<lparr>Model = ''MolLL'', sd_smoothing = 1/10, sd_estimated_keyspace = 10, sd_alpha = 1,
       sd_radius = 1, sd_n_observations = 2,
       sd_key_data = [(SKey ''1'', [(SKey ''1'', 1)]),
                      (SKey ''SampleObservationSum'', [(SKey ''1'', 1)])]\<rparr> :: mol_keydict savedict"
  note wrong = set_savedict_type_check [where sd = ?wrong_a and a = ?fresh_a
      and akd = "[]" and sd' = ?wrong_m and m = ?fresh_m and mkd = "[]"]
  note right = set_savedict_type_check [where sd = ?right_a and a = ?fresh_a
      and akd = "[(1, 3), (2, 1), (3, 3)]" and sd' = ?right_m and m = ?fresh_m
      and mkd = "[(FragKey 1, [(1, 1)]), (SampleObservationSum, [(1, 1)])]"]
  have w1: "AtomLL_set_savedict ?wrong_a ?fresh_a = (Some AssertionError, ?fresh_a)"
    using wrong by (simp add: prod_eq_iff)
  have w2: "MolLL_set_savedict ?wrong_m ?fresh_m = (Some AssertionError, ?fresh_m)"
    using wrong by (simp add: prod_eq_iff)
  have r1: "AtomLL_set_savedict ?right_a ?fresh_a
     = (None, \<lparr>smoothing = 1/10, estimated_keyspace = 10, alpha = 0, radius = 1,
               key_data = Some [(1, 3), (2, 1), (3, 3)], n_observations = 7\<rparr>)"
    using right int_keys_example by simp
  have r2: "MolLL_set_savedict ?right_m ?fresh_m
     = (None, \<lparr>smoothing = 1/10, estimated_keyspace = 10, alpha = 1, radius = 1,
               key_data = Some [(FragKey 1, [(1, 1)]), (SampleObservationSum, [(1, 1)])],
               n_observations = 2\<rparr>)"
    using right MolLL_key_data_object_example by simp
  from w1 r1 w2 r2 show ?thesis by simp
qed

end
